(* ===== verification/Prelude.thy ===== *)
theory Prelude
  imports Main "HOL-Library.AList" "HOL-Library.Char_ord" "HOL-Library.List_Lexorder"
    "HOL-Library.Sublist"
begin

section \<open>Prelude: Python values, strings and dictionaries\<close>

text \<open>
  What every component shares: exceptions as values, the string operations of Python that the
  services call, decimal numbers, dictionaries with insertion order, and the collections of
  facts (\<^theory_text>\<open>named_theorems\<close>) that the component proofs draw on.

  Text is a list of characters, one per code point below 256: header values are decoded as
  Latin-1 by WSGI, so this is their exact range. \<open>lower\<close> is Python's on that range; \<open>upper\<close> is
  Python's but for the three letters whose capital leaves the range or is two letters.
\<close>

named_theorems py_eval \<open>evaluation of the fallible computations and of dictionary access\<close>
named_theorems str_facts \<open>facts on prefixes, splitting and joining\<close>

subsection \<open>Exceptions as values\<close>

text \<open>
  A Python function that may raise returns a value of \<open>'a py\<close>: \<open>Inl\<close> of the exception's class
  or \<open>Inr\<close> of the result. \<open>Unmodelled\<close> marks the inputs that leave the model's range (a code point
  above 255 in a JSON escape); it propagates as an exception does.
\<close>

datatype pyerr =
    AttributeError | TypeError | KeyError | ValueError | OverflowError | JSONDecodeError
  | OSError | FileNotFoundError | SubprocessTimeout | UndefinedError | Unmodelled

type_synonym 'a py = "pyerr + 'a"

definition py_bind :: "'a py \<Rightarrow> ('a \<Rightarrow> 'b py) \<Rightarrow> 'b py" where
  "py_bind m f = (case m of Inl e \<Rightarrow> Inl e | Inr x \<Rightarrow> f x)"

lemma py_bind_simps [simp, py_eval]:
  "py_bind (Inl e) f = Inl e"
  "py_bind (Inr x) f = f x"
  by (simp_all add: py_bind_def)

lemma py_bind_eq_Inr [py_eval]: "py_bind m f = Inr y \<longleftrightarrow> (\<exists>x. m = Inr x \<and> f x = Inr y)"
  by (cases m) simp_all

lemma py_bind_assoc: "py_bind (py_bind m f) g = py_bind m (\<lambda>x. py_bind (f x) g)"
  by (cases m) simp_all

lemma py_bind_cong [fundef_cong]:
  "m = m' \<Longrightarrow> (\<And>x. m' = Inr x \<Longrightarrow> f x = f' x) \<Longrightarrow> py_bind m f = py_bind m' f'"
  by (cases m') simp_all

text \<open>\<open>try: m / except es: h\<close>.\<close>

definition py_catch :: "pyerr list \<Rightarrow> 'a py \<Rightarrow> 'a py \<Rightarrow> 'a py" where
  "py_catch es m h = (case m of Inl e \<Rightarrow> if e \<in> set es then h else Inl e | Inr x \<Rightarrow> Inr x)"

lemma py_catch_simps [simp, py_eval]:
  "py_catch es (Inl e) h = (if e \<in> set es then h else Inl e)"
  "py_catch es (Inr x) h = Inr x"
  by (simp_all add: py_catch_def)

lemma py_catch_eq_Inr [py_eval]:
  "py_catch es m h = Inr y \<longleftrightarrow> m = Inr y \<or> (\<exists>e \<in> set es. m = Inl e \<and> h = Inr y)"
  by (cases m) auto

fun py_mapM :: "('a \<Rightarrow> 'b py) \<Rightarrow> 'a list \<Rightarrow> 'b list py" where
  "py_mapM f [] = Inr []"
| "py_mapM f (x # xs) = py_bind (f x) (\<lambda>y. py_bind (py_mapM f xs) (\<lambda>ys. Inr (y # ys)))"

lemma py_mapM_Inr: "(\<And>x. x \<in> set xs \<Longrightarrow> f x = Inr (g x)) \<Longrightarrow> py_mapM f xs = Inr (map g xs)"
  by (induction xs) simp_all

subsection \<open>Strings\<close>

definition codepoint :: "char \<Rightarrow> nat" where
  "codepoint c = of_char c"

definition startswith :: "string \<Rightarrow> string \<Rightarrow> bool" where
  "startswith s p = prefix p s"

definition endswith :: "string \<Rightarrow> string \<Rightarrow> bool" where
  "endswith s p = suffix p s"

definition str_contains :: "string \<Rightarrow> string \<Rightarrow> bool" where
  "str_contains s sub = sublist sub s"

definition lower_char :: "char \<Rightarrow> char" where
  "lower_char c = (let n = codepoint c in
     if (65 \<le> n \<and> n \<le> 90) \<or> (192 \<le> n \<and> n \<le> 222 \<and> n \<noteq> 215) then char_of (n + 32) else c)"

definition upper_char :: "char \<Rightarrow> char" where
  "upper_char c = (let n = codepoint c in
     if (97 \<le> n \<and> n \<le> 122) \<or> (224 \<le> n \<and> n \<le> 254 \<and> n \<noteq> 247) then char_of (n - 32) else c)"

definition lower :: "string \<Rightarrow> string" where
  "lower s = map lower_char s"

definition upper :: "string \<Rightarrow> string" where
  "upper s = map upper_char s"

definition is_space :: "char \<Rightarrow> bool" where
  "is_space c = (let n = codepoint c in (9 \<le> n \<and> n \<le> 13) \<or> (28 \<le> n \<and> n \<le> 32) \<or> n = 133 \<or> n = 160)"

definition strip :: "string \<Rightarrow> string" where
  "strip s = rev (dropWhile is_space (rev (dropWhile is_space s)))"

fun split_on :: "char \<Rightarrow> string \<Rightarrow> string list" where
  "split_on c [] = [[]]"
| "split_on c (x # xs) =
     (if x = c then [] # split_on c xs
      else case split_on c xs of [] \<Rightarrow> [[x]] | y # ys \<Rightarrow> (x # y) # ys)"

abbreviation newline :: char where "newline \<equiv> CHR 0x0A"

fun join :: "string \<Rightarrow> string list \<Rightarrow> string" where
  "join sep [] = []"
| "join sep [x] = x"
| "join sep (x # y # ys) = x @ sep @ join sep (y # ys)"

lemma startswith_Nil [simp, str_facts]: "startswith s []"
  by (simp add: startswith_def)

lemma startswith_Cons [simp, str_facts]:
  "startswith (c # s) (d # p) \<longleftrightarrow> c = d \<and> startswith s p"
  "\<not> startswith [] (d # p)"
  by (auto simp: startswith_def)

lemma startswith_append [simp, str_facts]: "startswith (p @ s) p"
  by (simp add: startswith_def)

lemma startswith_drop [str_facts]: "startswith s p \<Longrightarrow> s = p @ drop (length p) s"
  by (auto simp: startswith_def prefix_def)

lemma split_on_not_Nil [simp]: "split_on c s \<noteq> []"
  by (induction s) (auto split: list.splits)

lemma split_on_absent [str_facts]: "c \<notin> set s \<Longrightarrow> split_on c s = [s]"
  by (induction s) auto

lemma split_on_append [str_facts]:
  "c \<notin> set s \<Longrightarrow> split_on c (s @ c # t) = s # split_on c t"
  by (induction s) auto

lemma length_split_on [str_facts]: "length (split_on c s) = Suc (count_list s c)"
  by (induction s) (auto split: list.splits)

lemma split_on_parts: "p \<in> set (split_on c s) \<Longrightarrow> c \<notin> set p"
proof (induction s arbitrary: p)
  case Nil
  then show ?case by simp
next
  case (Cons x xs)
  then show ?case
    by (cases "split_on c xs") (auto split: if_splits)
qed

lemma join_split_on [str_facts]: "join [c] (split_on c s) = s"
proof (induction s)
  case Nil
  then show ?case by simp
next
  case (Cons x xs)
  show ?case
  proof (cases "split_on c xs")
    case Nil
    then show ?thesis by simp
  next
    case (Cons y ys)
    with Cons.IH show ?thesis by (cases ys) auto
  qed
qed

lemma split_on_join [str_facts]:
  "xs \<noteq> [] \<Longrightarrow> (\<And>x. x \<in> set xs \<Longrightarrow> c \<notin> set x) \<Longrightarrow> split_on c (join [c] xs) = xs"
proof (induction xs)
  case Nil
  then show ?case by simp
next
  case (Cons x xs)
  then show ?case
    by (cases xs) (simp_all add: split_on_absent split_on_append)
qed

subsection \<open>Decimal numbers\<close>

definition is_digit :: "char \<Rightarrow> bool" where
  "is_digit c = (48 \<le> codepoint c \<and> codepoint c \<le> 57)"

definition digit_char :: "nat \<Rightarrow> char" where
  "digit_char d = char_of (48 + d)"

definition digit_val :: "char \<Rightarrow> nat" where
  "digit_val c = codepoint c - 48"

fun dec_nat :: "nat \<Rightarrow> string" where
  "dec_nat n = (if n < 10 then [digit_char n] else dec_nat (n div 10) @ [digit_char (n mod 10)])"

declare dec_nat.simps [simp del]

definition dec_int :: "int \<Rightarrow> string" where
  "dec_int i = (if i < 0 then CHR ''-'' # dec_nat (nat (- i)) else dec_nat (nat i))"

definition dec_val :: "string \<Rightarrow> nat" where
  "dec_val s = foldl (\<lambda>a c. 10 * a + digit_val c) 0 s"

lemma codepoint_char_of [simp]: "n < 256 \<Longrightarrow> codepoint (char_of n) = n"
  by (simp add: codepoint_def)

lemma codepoint_less [simp]: "codepoint c < 256"
  using nat_of_char_less_256 [of c] by (simp add: codepoint_def)

lemma codepoint_inject [simp]: "codepoint c = codepoint d \<longleftrightarrow> c = d"
  by (simp add: codepoint_def)

lemma char_of_codepoint [simp]: "char_of (codepoint c) = c"
  by (simp add: codepoint_def)

lemma digit_char_facts [simp]:
  "d < 10 \<Longrightarrow> is_digit (digit_char d)"
  "d < 10 \<Longrightarrow> digit_val (digit_char d) = d"
  by (simp_all add: is_digit_def digit_char_def digit_val_def)

lemma digit_char_0: "digit_char 0 = CHR ''0''"
  by code_simp

lemma dec_nat_not_Nil [simp]: "dec_nat n \<noteq> []"
  by (subst dec_nat.simps) simp

lemma dec_nat_digits: "c \<in> set (dec_nat n) \<Longrightarrow> is_digit c"
proof (induction n rule: dec_nat.induct)
  case (1 n)
  then show ?case
    by (subst (asm) (2) dec_nat.simps) (auto split: if_splits)
qed

lemma dec_val_dec_nat [simp]: "dec_val (dec_nat n) = n"
proof (induction n rule: dec_nat.induct)
  case (1 n)
  then show ?case
    by (subst dec_nat.simps) (simp add: dec_val_def)
qed

lemma dec_nat_inject [simp]: "dec_nat m = dec_nat n \<longleftrightarrow> m = n"
  by (metis dec_val_dec_nat)

lemma hd_dec_nat: "hd (dec_nat n) = CHR ''0'' \<longleftrightarrow> n = 0"
proof (induction n rule: dec_nat.induct)
  case (1 n)
  show ?case
  proof (cases "n < 10")
    case True
    have "digit_char n = CHR ''0'' \<longleftrightarrow> n = 0"
    proof
      assume "digit_char n = CHR ''0''"
      then have "digit_val (digit_char n) = digit_val CHR ''0''" by simp
      with True show "n = 0" by (simp add: codepoint_def digit_val_def [of "CHR ''0''"])
    qed (simp add: digit_char_0)
    with True show ?thesis by (subst dec_nat.simps) simp
  next
    case False
    with 1 show ?thesis by (subst dec_nat.simps) simp
  qed
qed

subsection \<open>Dictionaries\<close>

text \<open>
  A \<open>dict\<close> is the list of its items in insertion order; assigning to a present key keeps the
  key's place, as \<open>AList.update\<close> does.
\<close>

type_synonym ('k, 'v) dict = "('k \<times> 'v) list"

definition dict_get :: "('k, 'v) dict \<Rightarrow> 'k \<Rightarrow> 'v option" where
  "dict_get d k = map_of d k"

definition get_or :: "('k, 'v) dict \<Rightarrow> 'k \<Rightarrow> 'v \<Rightarrow> 'v" where
  "get_or d k dflt = (case dict_get d k of None \<Rightarrow> dflt | Some v \<Rightarrow> v)"

definition getitem :: "('k, 'v) dict \<Rightarrow> 'k \<Rightarrow> 'v py" where
  "getitem d k = (case dict_get d k of None \<Rightarrow> Inl KeyError | Some v \<Rightarrow> Inr v)"

definition dict_set :: "('k, 'v) dict \<Rightarrow> 'k \<Rightarrow> 'v \<Rightarrow> ('k, 'v) dict" where
  "dict_set d k v = AList.update k v d"

definition dict_of :: "('k \<times> 'v) list \<Rightarrow> ('k, 'v) dict" where
  "dict_of ps = foldl (\<lambda>d (k, v). dict_set d k v) [] ps"

definition is_dict :: "('k, 'v) dict \<Rightarrow> bool" where
  "is_dict d = distinct (map fst d)"

text \<open>The contract of a dictionary, and the facts its clients use.\<close>

locale dictionary =
  fixes lookup :: "'d \<Rightarrow> 'k \<Rightarrow> 'v option"
    and store :: "'d \<Rightarrow> 'k \<Rightarrow> 'v \<Rightarrow> 'd"
    and valid :: "'d \<Rightarrow> bool"
  assumes lookup_store: "lookup (store d k v) k' = (if k' = k then Some v else lookup d k')"
    and valid_store: "valid d \<Longrightarrow> valid (store d k v)"
begin

definition store_all :: "'d \<Rightarrow> ('k \<times> 'v) list \<Rightarrow> 'd" where
  "store_all d ps = foldl (\<lambda>d (k, v). store d k v) d ps"

lemma lookup_store_same: "lookup (store d k v) k = Some v"
  by (simp add: lookup_store)

lemma lookup_store_other: "k' \<noteq> k \<Longrightarrow> lookup (store d k v) k' = lookup d k'"
  by (simp add: lookup_store)

lemma lookup_store_twice: "lookup (store (store d k v) k w) k' = lookup (store d k w) k'"
  by (simp add: lookup_store)

lemma valid_store_all: "valid d \<Longrightarrow> valid (store_all d ps)"
  by (induction ps arbitrary: d) (auto simp: store_all_def valid_store)

lemma lookup_store_all:
  "lookup (store_all d ps) k = (case map_of (rev ps) k of None \<Rightarrow> lookup d k | Some v \<Rightarrow> Some v)"
proof (induction ps rule: rev_induct)
  case Nil
  show ?case by (simp add: store_all_def)
next
  case (snoc p ps)
  then show ?case
    by (cases p) (simp add: store_all_def lookup_store)
qed

end

interpretation pd: dictionary dict_get dict_set is_dict
  by unfold_locales (auto simp: dict_get_def dict_set_def is_dict_def update_conv distinct_update)

lemma dict_of_store_all: "dict_of ps = pd.store_all [] ps"
  by (simp add: dict_of_def pd.store_all_def)

lemma dict_get_dict_of: "dict_get (dict_of ps) k = map_of (rev ps) k"
  by (simp add: dict_of_store_all pd.lookup_store_all) (simp add: dict_get_def split: option.split)

lemma is_dict_dict_of [simp]: "is_dict (dict_of ps)"
  using pd.valid_store_all [of "[]" ps] by (simp add: dict_of_store_all is_dict_def)

lemma AList_update_absent: "k \<notin> fst ` set d \<Longrightarrow> AList.update k v d = d @ [(k, v)]"
  by (induction d) auto

lemma dict_of_id: "is_dict ps \<Longrightarrow> dict_of ps = ps"
proof (induction ps rule: rev_induct)
  case Nil
  then show ?case by (simp add: dict_of_def)
next
  case (snoc p ps)
  obtain k v where p: "p = (k, v)" by (cases p)
  with snoc.prems have "k \<notin> fst ` set ps" and "is_dict ps"
    by (auto simp: is_dict_def)
  with snoc.IH p show ?case
    by (simp add: dict_of_def dict_set_def AList_update_absent)
qed

lemma get_or_simps [simp, py_eval]:
  "get_or [] k dflt = dflt"
  "get_or ((k, v) # d) k' dflt = (if k' = k then v else get_or d k' dflt)"
  by (simp_all add: get_or_def dict_get_def)

lemma dict_get_simps [simp, py_eval]:
  "dict_get [] k = None"
  "dict_get ((k, v) # d) k' = (if k' = k then Some v else dict_get d k')"
  by (simp_all add: dict_get_def)

lemma get_or_dict_set [simp]:
  "get_or (dict_set d k v) k' dflt = (if k' = k then v else get_or d k' dflt)"
  by (simp add: get_or_def pd.lookup_store)

end
