(* ===== verification/Json.thy ===== *)
theory Json
  imports Complex_Main Prelude "HOL-Library.Multiset"
begin

section \<open>JSON documents as Python values\<close>

text \<open>
  The values \<open>json.load\<close> returns, with the Python operations the services apply to values whose
  shape they do not check: truth, \<open>str\<close>, \<open>in\<close>, \<open>int\<close>, and the numeric comparisons. \<open>dumps\<close> is
  \<open>json.dumps\<close> with its default escaping and a choice of separators; \<open>canon\<close> is the effect of
  \<open>sort_keys=True\<close>. The text of a finite float (\<open>float.__repr__\<close>) is the parameter \<open>fr\<close>; float
  arithmetic is exact, with the infinities and NaN that \<open>json.load\<close> accepts kept apart.
\<close>

subsection \<open>Values\<close>

datatype pyfloat = Fin rat | PosInf | NegInf | NaN

datatype json =
    JNull
  | JBool bool
  | JInt int
  | JFloat pyfloat
  | JStr string
  | JArr "json list"
  | JObj "(string \<times> json) list"

type_synonym jdict = "(string, json) dict"

fun truthy :: "json \<Rightarrow> bool" where
  "truthy JNull = False"
| "truthy (JBool b) = b"
| "truthy (JInt i) = (i \<noteq> 0)"
| "truthy (JFloat x) = (x \<noteq> Fin 0)"
| "truthy (JStr s) = (s \<noteq> [])"
| "truthy (JArr xs) = (xs \<noteq> [])"
| "truthy (JObj d) = (d \<noteq> [])"

text \<open>\<open>v.get(..)\<close> on a value that is not a dict raises AttributeError.\<close>

fun as_dict :: "json \<Rightarrow> jdict py" where
  "as_dict (JObj d) = Inr d"
| "as_dict _ = Inl AttributeError"

fun as_str :: "json \<Rightarrow> string py" where
  "as_str (JStr s) = Inr s"
| "as_str _ = Inl AttributeError"

lemma as_dict_eq_Inr [simp]: "as_dict j = Inr d \<longleftrightarrow> j = JObj d"
  by (cases j) auto

lemma as_str_eq_Inr [simp]: "as_str j = Inr s \<longleftrightarrow> j = JStr s"
  by (cases j) auto

fun wf_json :: "json \<Rightarrow> bool" where
  "wf_json (JArr xs) = (\<forall>x \<in> set xs. wf_json x)"
| "wf_json (JObj d) = (is_dict d \<and> (\<forall>(k, v) \<in> set d. wf_json v))"
| "wf_json _ = True"

fun no_float :: "json \<Rightarrow> bool" where
  "no_float (JFloat x) = False"
| "no_float (JArr xs) = (\<forall>x \<in> set xs. no_float x)"
| "no_float (JObj d) = (\<forall>(k, v) \<in> set d. no_float v)"
| "no_float _ = True"

subsection \<open>Numbers\<close>

fun num_of :: "json \<Rightarrow> pyfloat py" where
  "num_of (JInt i) = Inr (Fin (of_int i))"
| "num_of (JBool b) = Inr (Fin (if b then 1 else 0))"
| "num_of (JFloat x) = Inr x"
| "num_of _ = Inl TypeError"

text \<open>\<open>t - x\<close> for a clock reading \<open>t\<close>, and the comparisons with an integer bound.\<close>

fun minus_num :: "rat \<Rightarrow> pyfloat \<Rightarrow> pyfloat" where
  "minus_num t (Fin q) = Fin (t - q)"
| "minus_num t PosInf = NegInf"
| "minus_num t NegInf = PosInf"
| "minus_num t NaN = NaN"

fun num_gt :: "pyfloat \<Rightarrow> rat \<Rightarrow> bool" where
  "num_gt (Fin q) b = (b < q)"
| "num_gt PosInf b = True"
| "num_gt NegInf b = False"
| "num_gt NaN b = False"

text \<open>\<open>int(x)\<close>: truncation of floats, and the decimal literals of \<open>int(str)\<close>.\<close>

fun digit_groups :: "bool \<Rightarrow> string \<Rightarrow> bool" where
  "digit_groups prev [] = prev"
| "digit_groups prev (c # s) =
     (if is_digit c then digit_groups True s
      else c = CHR ''_'' \<and> prev \<and> s \<noteq> [] \<and> digit_groups False s)"

definition int_of_str :: "string \<Rightarrow> int py" where
  "int_of_str s =
     (let t = strip s;
          neg = startswith t ''-'';
          u = (if neg \<or> startswith t ''+'' then tl t else t)
      in if digit_groups False u
         then Inr ((if neg then -1 else 1) * int (dec_val (filter is_digit u)))
         else Inl ValueError)"

definition trunc_rat :: "rat \<Rightarrow> int" where
  "trunc_rat q = (if q < 0 then - \<lfloor>- q\<rfloor> else \<lfloor>q\<rfloor>)"

fun py_int :: "json \<Rightarrow> int py" where
  "py_int (JInt i) = Inr i"
| "py_int (JBool b) = Inr (if b then 1 else 0)"
| "py_int (JFloat (Fin q)) = Inr (trunc_rat q)"
| "py_int (JFloat NaN) = Inl ValueError"
| "py_int (JFloat _) = Inl OverflowError"
| "py_int (JStr s) = int_of_str s"
| "py_int _ = Inl TypeError"

subsection \<open>Text of a value\<close>

abbreviation quot :: char where "quot \<equiv> CHR 0x22"
abbreviation bsl :: char where "bsl \<equiv> CHR 0x5C"

definition hex_digit :: "nat \<Rightarrow> char" where
  "hex_digit d = (if d < 10 then char_of (48 + d) else char_of (87 + d))"

definition esc_char :: "char \<Rightarrow> string" where
  "esc_char c =
     (if c = quot \<or> c = bsl then [bsl, c]
      else if c = CHR 0x08 then [bsl, CHR ''b'']
      else if c = CHR 0x0C then [bsl, CHR ''f'']
      else if c = CHR 0x0A then [bsl, CHR ''n'']
      else if c = CHR 0x0D then [bsl, CHR ''r'']
      else if c = CHR 0x09 then [bsl, CHR ''t'']
      else if 32 \<le> codepoint c \<and> codepoint c \<le> 126 then [c]
      else [bsl, CHR ''u'', CHR ''0'', CHR ''0'',
            hex_digit (codepoint c div 16), hex_digit (codepoint c mod 16)])"

definition json_str :: "string \<Rightarrow> string" where
  "json_str s = quot # concat (map esc_char s) @ [quot]"

fun float_text :: "(rat \<Rightarrow> string) \<Rightarrow> pyfloat \<Rightarrow> string" where
  "float_text fr (Fin q) = fr q"
| "float_text fr PosInf = ''Infinity''"
| "float_text fr NegInf = ''-Infinity''"
| "float_text fr NaN = ''NaN''"

fun dumps :: "(rat \<Rightarrow> string) \<Rightarrow> string \<Rightarrow> string \<Rightarrow> json \<Rightarrow> string" where
  "dumps fr isep ksep JNull = ''null''"
| "dumps fr isep ksep (JBool b) = (if b then ''true'' else ''false'')"
| "dumps fr isep ksep (JInt i) = dec_int i"
| "dumps fr isep ksep (JFloat x) = float_text fr x"
| "dumps fr isep ksep (JStr s) = json_str s"
| "dumps fr isep ksep (JArr xs) = ''['' @ join isep (map (dumps fr isep ksep) xs) @ '']''"
| "dumps fr isep ksep (JObj d) =
     ''{'' @ join isep (map (\<lambda>(k, v). json_str k @ ksep @ dumps fr isep ksep v) d) @ ''}''"

text \<open>\<open>sort_keys=True\<close>: every dict printed in the order of its keys.\<close>

fun canon :: "json \<Rightarrow> json" where
  "canon (JArr xs) = JArr (map canon xs)"
| "canon (JObj d) = JObj (sort_key fst (map (\<lambda>(k, v). (k, canon v)) d))"
| "canon j = j"

text \<open>\<open>json.dumps(v)\<close>, and \<open>json.dumps(v, separators=(",", ":"), sort_keys=True)\<close>.\<close>

definition dumps_default :: "(rat \<Rightarrow> string) \<Rightarrow> json \<Rightarrow> string" where
  "dumps_default fr j = dumps fr '', '' '': '' j"

definition dumps_sorted :: "(rat \<Rightarrow> string) \<Rightarrow> json \<Rightarrow> string" where
  "dumps_sorted fr j = dumps fr '','' '':'' (canon j)"

text \<open>\<open>json.dumps(v, indent=2)\<close>, at a level of nesting: a line for each element and member.\<close>

definition line_at :: "nat \<Rightarrow> string" where
  "line_at level = CHR 0x0A # replicate (2 * level) (CHR '' '')"

fun dumps_indent :: "(rat \<Rightarrow> string) \<Rightarrow> nat \<Rightarrow> json \<Rightarrow> string" where
  "dumps_indent fr level (JArr xs) =
     (if xs = [] then ''[]''
      else ''['' @ line_at (Suc level) @
        join (CHR '','' # line_at (Suc level)) (map (dumps_indent fr (Suc level)) xs) @ line_at level @ '']'')"
| "dumps_indent fr level (JObj d) =
     (if d = [] then ''{}''
      else ''{'' @ line_at (Suc level) @
        join (CHR '','' # line_at (Suc level))
          (map (\<lambda>(k, v). json_str k @ '': '' @ dumps_indent fr (Suc level) v) d) @ line_at level @ ''}'')"
| "dumps_indent fr level j = dumps fr '','' '': '' j"

subsection \<open>\<open>str\<close> and \<open>in\<close>\<close>

definition repr_char :: "char \<Rightarrow> char \<Rightarrow> string" where
  "repr_char q c = (let n = codepoint c in
     if c = q \<or> c = bsl then [bsl, c]
     else if c = CHR 0x09 then [bsl, CHR ''t'']
     else if c = CHR 0x0A then [bsl, CHR ''n'']
     else if c = CHR 0x0D then [bsl, CHR ''r'']
     else if n < 32 \<or> (127 \<le> n \<and> n \<le> 160) \<or> n = 173
          then [bsl, CHR ''x'', hex_digit (n div 16), hex_digit (n mod 16)]
     else [c])"

definition repr_str :: "string \<Rightarrow> string" where
  "repr_str s = (let q = (if CHR 0x27 \<in> set s \<and> quot \<notin> set s then quot else CHR 0x27) in
     q # concat (map (repr_char q) s) @ [q])"

fun py_repr :: "(rat \<Rightarrow> string) \<Rightarrow> json \<Rightarrow> string" where
  "py_repr fr JNull = ''None''"
| "py_repr fr (JBool b) = (if b then ''True'' else ''False'')"
| "py_repr fr (JInt i) = dec_int i"
| "py_repr fr (JFloat x) =
     (case x of Fin q \<Rightarrow> fr q | PosInf \<Rightarrow> ''inf'' | NegInf \<Rightarrow> ''-inf'' | NaN \<Rightarrow> ''nan'')"
| "py_repr fr (JStr s) = repr_str s"
| "py_repr fr (JArr xs) = ''['' @ join '', '' (map (py_repr fr) xs) @ '']''"
| "py_repr fr (JObj d) =
     ''{'' @ join '', '' (map (\<lambda>(k, v). repr_str k @ '': '' @ py_repr fr v) d) @ ''}''"

fun py_str :: "(rat \<Rightarrow> string) \<Rightarrow> json \<Rightarrow> string" where
  "py_str fr (JStr s) = s"
| "py_str fr j = py_repr fr j"

text \<open>\<open>s in v\<close> for a string \<open>s\<close>: substring, element or key.\<close>

fun str_in :: "string \<Rightarrow> json \<Rightarrow> bool py" where
  "str_in s (JStr t) = Inr (str_contains t s)"
| "str_in s (JArr xs) = Inr (JStr s \<in> set xs)"
| "str_in s (JObj d) = Inr (s \<in> fst ` set d)"
| "str_in s _ = Inl TypeError"

subsection \<open>What is printed\<close>

text \<open>Escaping leaves printable ASCII only: a printed document never holds a line break.\<close>

definition printable :: "string \<Rightarrow> bool" where
  "printable s = (\<forall>c \<in> set s. 32 \<le> codepoint c \<and> codepoint c \<le> 126)"

lemma printable_simps [simp]:
  "printable []"
  "printable (c # s) = (32 \<le> codepoint c \<and> codepoint c \<le> 126 \<and> printable s)"
  "printable (s @ t) = (printable s \<and> printable t)"
  by (auto simp: printable_def)

lemma printable_join: "printable sep \<Longrightarrow> (\<And>x. x \<in> set xs \<Longrightarrow> printable x) \<Longrightarrow> printable (join sep xs)"
  by (induction sep xs rule: join.induct) auto

lemma printable_concat: "(\<And>x. x \<in> set xs \<Longrightarrow> printable x) \<Longrightarrow> printable (concat xs)"
  by (induction xs) auto

lemma hex_digit_range: "d < 16 \<Longrightarrow> 48 \<le> codepoint (hex_digit d) \<and> codepoint (hex_digit d) \<le> 102"
  by (simp add: hex_digit_def)

lemma codepoint_halves: "codepoint c div 16 < 16" "codepoint c mod 16 < 16"
  by (rule less_mult_imp_div_less, simp) simp

lemma printable_hex_digit [simp]: "d < 16 \<Longrightarrow> printable [hex_digit d]"
  using hex_digit_range [of d] by simp

lemma printable_esc_char: "printable (esc_char c)"
proof -
  have "printable ([hex_digit (codepoint c div 16)] @ [hex_digit (codepoint c mod 16)])"
    using codepoint_halves [of c] by (simp only: printable_simps(3) printable_hex_digit)
  moreover have "printable [bsl, CHR ''u'', CHR ''0'', CHR ''0'']"
    and "printable [bsl, CHR ''b'']" "printable [bsl, CHR ''f'']" "printable [bsl, CHR ''n'']"
    and "printable [bsl, CHR ''r'']" "printable [bsl, CHR ''t'']" "printable [bsl, quot]"
    and "printable [bsl, bsl]"
    by (simp_all add: codepoint_def)
  ultimately show ?thesis
    by (auto simp: esc_char_def)
qed

lemma printable_json_str: "printable (json_str s)"
proof -
  have "printable [quot]" by (simp add: codepoint_def)
  then show ?thesis
    by (auto simp: json_str_def printable_esc_char intro!: printable_concat)
qed

lemma printable_digit: "is_digit c \<Longrightarrow> 32 \<le> codepoint c \<and> codepoint c \<le> 126"
  by (simp add: is_digit_def)

lemma printable_dec_int: "printable (dec_int i)"
  using dec_nat_digits printable_digit
  by (auto simp: dec_int_def printable_def codepoint_def [of "CHR ''-''"])

lemma printable_dumps:
  assumes fr: "\<And>q. printable (fr q)" and isep: "printable isep" and ksep: "printable ksep"
  shows "printable (dumps fr isep ksep j)"
proof (induction j)
  case (JFloat x)
  then show ?case
    using fr by (cases x) (simp_all add: codepoint_def)
next
  case (JArr xs)
  then show ?case
    using isep by (auto simp: codepoint_def intro!: printable_join)
next
  case (JObj d)
  have "printable x"
    if "x \<in> set (map (\<lambda>(k, v). json_str k @ ksep @ dumps fr isep ksep v) d)" for x
    using that JObj ksep by (force simp: printable_json_str)
  then show ?case
    using isep by (auto simp: codepoint_def intro!: printable_join)
qed (simp_all add: printable_dec_int printable_json_str codepoint_def)

lemma printable_no_newline: "printable s \<Longrightarrow> CHR 0x0A \<notin> set s"
  by (auto simp: printable_def codepoint_def)

subsection \<open>Assigning to a key\<close>

lemma dict_set_items: "set (dict_set d k v) \<subseteq> insert (k, v) (set d)"
  unfolding dict_set_def by (induction d) auto

lemma wf_dict_set:
  assumes "wf_json (JObj d) \<and> no_float (JObj d)" "wf_json v \<and> no_float v"
  shows "wf_json (JObj (dict_set d k v)) \<and> no_float (JObj (dict_set d k v))"
  using assms dict_set_items [of d k v] by (fastforce simp: pd.valid_store)

subsection \<open>Sorted keys\<close>

lemma canon_keys: "canon (JObj d) = JObj e \<Longrightarrow> sorted (map fst e) \<and> fst ` set e = fst ` set d"
  by (force simp: image_iff)

lemma wf_canon: "wf_json j \<Longrightarrow> wf_json (canon j)"
proof (induction j)
  case (JObj d)
  have "map fst (map (\<lambda>(k, v). (k, canon v)) d) = map fst d"
    by (induction d) auto
  then have "mset (map fst (sort_key fst (map (\<lambda>(k, v). (k, canon v)) d))) = mset (map fst d)"
    by (metis mset_map mset_sort)
  then have "distinct (map fst (sort_key fst (map (\<lambda>(k, v). (k, canon v)) d)))"
    using JObj.prems by (metis is_dict_def mset_eq_imp_distinct_iff wf_json.simps(2))
  moreover have "wf_json (canon v)" if "(k, v) \<in> set d" for k v
    using that JObj by force
  ultimately show ?case
    by (auto simp: is_dict_def)
qed auto

lemma no_float_canon: "no_float (canon j) = no_float j"
proof (induction j)
  case (JObj d)
  have "no_float (canon v) = no_float v" if "(k, v) \<in> set d" for k v
    using that JObj by force
  then show ?case by force
qed auto

end
