(* ===== verification/JsonParse.thy ===== *)
theory JsonParse
  imports Json
begin

section \<open>Reading JSON\<close>

text \<open>
  \<open>json.loads\<close>: the scanner of CPython's \<open>json\<close> module, with its error and its extensions
  (\<open>NaN\<close>, \<open>Infinity\<close>). Each reader returns the value and the unread rest. An escape of a code point
  above 255 leaves the model's range and is the error \<open>Unmodelled\<close>; the scanner's recursion takes
  fuel, and the fuel \<open>loads\<close> gives, twice the length of the text, is shown to be enough.
  The last section proves that what \<open>dumps\<close> and \<open>dumps_indent\<close> print is read back as it was.
\<close>

type_synonym 'a parse = "('a \<times> string) py"

abbreviation json_err :: "'a py" where "json_err \<equiv> Inl JSONDecodeError"

definition json_ws :: "char \<Rightarrow> bool" where
  "json_ws c = (c = CHR '' '' \<or> c = CHR 0x09 \<or> c = CHR 0x0A \<or> c = CHR 0x0D)"

definition skip_ws :: "string \<Rightarrow> string" where
  "skip_ws s = dropWhile json_ws s"

subsection \<open>Strings\<close>

definition hex_val :: "char \<Rightarrow> nat option" where
  "hex_val c = (let n = codepoint c in
     if 48 \<le> n \<and> n \<le> 57 then Some (n - 48)
     else if 97 \<le> n \<and> n \<le> 102 then Some (n - 87)
     else if 65 \<le> n \<and> n \<le> 70 then Some (n - 55)
     else None)"

definition unesc :: "char \<Rightarrow> char option" where
  "unesc c =
     (if c = quot \<or> c = bsl \<or> c = CHR ''/'' then Some c
      else if c = CHR ''b'' then Some (CHR 0x08)
      else if c = CHR ''f'' then Some (CHR 0x0C)
      else if c = CHR ''n'' then Some (CHR 0x0A)
      else if c = CHR ''r'' then Some (CHR 0x0D)
      else if c = CHR ''t'' then Some (CHR 0x09)
      else None)"

definition hex4 :: "char \<Rightarrow> char \<Rightarrow> char \<Rightarrow> char \<Rightarrow> nat option" where
  "hex4 a b c d =
     (case (hex_val a, hex_val b, hex_val c, hex_val d) of
        (Some p, Some q, Some r, Some s) \<Rightarrow> Some (4096 * p + 256 * q + 16 * r + s)
      | _ \<Rightarrow> None)"

definition push :: "char \<Rightarrow> string parse \<Rightarrow> string parse" where
  "push c m = py_bind m (\<lambda>(s, r). Inr (c # s, r))"

text \<open>The text after an opening quote.\<close>

fun scan_str :: "string \<Rightarrow> string parse" where
  "scan_str [] = json_err"
| "scan_str (c # r) =
     (if c = quot then Inr ([], r)
      else if c = bsl then
        (case r of
           [] \<Rightarrow> json_err
         | e # r1 \<Rightarrow>
             if e = CHR ''u'' then
               (case r1 of
                  x1 # x2 # x3 # x4 # r2 \<Rightarrow>
                    (case hex4 x1 x2 x3 x4 of
                       None \<Rightarrow> json_err
                     | Some n \<Rightarrow>
                         if n < 256 then push (char_of n) (scan_str r2) else Inl Unmodelled)
                | _ \<Rightarrow> json_err)
             else
               (case unesc e of
                  None \<Rightarrow> json_err
                | Some x \<Rightarrow> push x (scan_str r1)))
      else if codepoint c < 32 then json_err
      else push c (scan_str r))"

subsection \<open>Numbers\<close>

definition pow10 :: "rat \<Rightarrow> bool \<Rightarrow> nat \<Rightarrow> rat" where
  "pow10 q neg e = (if neg then q / 10 ^ e else q * 10 ^ e)"

text \<open>The optional fraction and exponent after an integer part, \<open>None\<close> where absent.\<close>

definition scan_frac :: "string \<Rightarrow> string option \<times> string" where
  "scan_frac s =
     (case s of
        c # r \<Rightarrow>
          if c = CHR ''.'' \<and> takeWhile is_digit r \<noteq> []
          then (Some (takeWhile is_digit r), dropWhile is_digit r) else (None, s)
      | [] \<Rightarrow> (None, s))"

definition scan_exp :: "string \<Rightarrow> (bool \<times> string) option \<times> string" where
  "scan_exp s =
     (case s of
        c # r \<Rightarrow>
          if c = CHR ''e'' \<or> c = CHR ''E'' then
            (let neg = startswith r ''-'';
                 t = (if neg \<or> startswith r ''+'' then tl r else r)
             in if takeWhile is_digit t \<noteq> []
                then (Some (neg, takeWhile is_digit t), dropWhile is_digit t) else (None, s))
          else (None, s)
      | [] \<Rightarrow> (None, s))"

definition number_value :: "bool \<Rightarrow> string \<Rightarrow> string option \<Rightarrow> (bool \<times> string) option \<Rightarrow> json" where
  "number_value neg ip fr ex =
     (case (fr, ex) of
        (None, None) \<Rightarrow> JInt ((if neg then -1 else 1) * int (dec_val ip))
      | _ \<Rightarrow>
          (let f = (case fr of None \<Rightarrow> [] | Some ds \<Rightarrow> ds);
               m = of_nat (dec_val (ip @ f)) / 10 ^ length f;
               v = (case ex of None \<Rightarrow> m | Some (eneg, ds) \<Rightarrow> pow10 m eneg (dec_val ds))
           in JFloat (Fin (if neg then - v else v))))"

definition scan_number :: "string \<Rightarrow> json parse" where
  "scan_number s =
     (let neg = startswith s ''-'';
          u = (if neg then tl s else s);
          ds = takeWhile is_digit u
      in if ds = [] then json_err
         else
           (let ip = (if hd ds = CHR ''0'' then ''0'' else ds);
                (fr, r1) = scan_frac (drop (length ip) u);
                (ex, r2) = scan_exp r1
            in Inr (number_value neg ip fr ex, r2)))"

subsection \<open>Values\<close>

definition scan_atom :: "string \<Rightarrow> json parse" where
  "scan_atom s =
     (if startswith s ''null'' then Inr (JNull, drop 4 s)
      else if startswith s ''true'' then Inr (JBool True, drop 4 s)
      else if startswith s ''false'' then Inr (JBool False, drop 5 s)
      else if startswith s ''NaN'' then Inr (JFloat NaN, drop 3 s)
      else if startswith s ''Infinity'' then Inr (JFloat PosInf, drop 8 s)
      else if startswith s ''-Infinity'' then Inr (JFloat NegInf, drop 9 s)
      else scan_number s)"

fun scan_value :: "nat \<Rightarrow> string \<Rightarrow> json parse"
  and scan_elems :: "nat \<Rightarrow> string \<Rightarrow> json list parse"
  and scan_members :: "nat \<Rightarrow> string \<Rightarrow> (string \<times> json) list parse" where
  "scan_value 0 s = Inl Unmodelled"
| "scan_value (Suc n) s =
     (case s of
        [] \<Rightarrow> json_err
      | c # r \<Rightarrow>
          if c = quot then py_bind (scan_str r) (\<lambda>(t, r1). Inr (JStr t, r1))
          else if c = CHR ''{'' then
            (case skip_ws r of
               [] \<Rightarrow> json_err
             | d # r1 \<Rightarrow>
                 if d = CHR ''}'' then Inr (JObj [], r1)
                 else py_bind (scan_members n (d # r1)) (\<lambda>(ms, r2). Inr (JObj (dict_of ms), r2)))
          else if c = CHR ''['' then
            (case skip_ws r of
               [] \<Rightarrow> json_err
             | d # r1 \<Rightarrow>
                 if d = CHR '']'' then Inr (JArr [], r1)
                 else py_bind (scan_elems n (d # r1)) (\<lambda>(vs, r2). Inr (JArr vs, r2)))
          else scan_atom s)"
| "scan_elems 0 s = Inl Unmodelled"
| "scan_elems (Suc n) s =
     py_bind (scan_value n s) (\<lambda>(v, r).
       case skip_ws r of
         [] \<Rightarrow> json_err
       | d # r1 \<Rightarrow>
           if d = CHR '']'' then Inr ([v], r1)
           else if d = CHR '','' then
             py_bind (scan_elems n (skip_ws r1)) (\<lambda>(vs, r2). Inr (v # vs, r2))
           else json_err)"
| "scan_members 0 s = Inl Unmodelled"
| "scan_members (Suc n) s =
     (case s of
        [] \<Rightarrow> json_err
      | c # r \<Rightarrow>
          if c \<noteq> quot then json_err
          else
            py_bind (scan_str r) (\<lambda>(k, r1).
              case skip_ws r1 of
                [] \<Rightarrow> json_err
              | d # r2 \<Rightarrow>
                  if d \<noteq> CHR '':'' then json_err
                  else
                    py_bind (scan_value n (skip_ws r2)) (\<lambda>(v, r3).
                      case skip_ws r3 of
                        [] \<Rightarrow> json_err
                      | e # r4 \<Rightarrow>
                          if e = CHR ''}'' then Inr ([(k, v)], r4)
                          else if e = CHR '','' then
                            py_bind (scan_members n (skip_ws r4))
                              (\<lambda>(ms, r5). Inr ((k, v) # ms, r5))
                          else json_err)))"

definition loads :: "string \<Rightarrow> json py" where
  "loads s =
     py_bind (scan_value (2 * length s + 2) (skip_ws s))
       (\<lambda>(v, r). if skip_ws r = [] then Inr v else json_err)"

subsection \<open>Each reader consumes\<close>

lemma push_eq_Inr [simp]: "push c m = Inr (t, r) \<longleftrightarrow> (\<exists>u. m = Inr (u, r) \<and> t = c # u)"
  by (cases m) (auto simp: push_def)

lemma length_skip_ws: "length (skip_ws s) \<le> length s"
  by (simp add: skip_ws_def length_dropWhile_le)

lemma scan_str_shorter: "scan_str s = Inr (t, r) \<Longrightarrow> length r < length s"
proof (induction s arbitrary: t r rule: length_induct)
  case (1 s)
  have IH: "length r' < length s'" if "scan_str s' = Inr (t', r')" "length s' < length s" for s' t' r'
    using that "1.IH" by blast
  show ?case
  proof (cases s)
    case Nil
    with "1.prems" show ?thesis by simp
  next
    case (Cons c s')
    then have "length r' < Suc (length s')" if "scan_str u = Inr (t', r')" "length u \<le> length s'"
      for u t' r'
      using IH [OF that(1)] that by simp
    with Cons "1.prems" show ?thesis
      by (auto split: if_splits list.splits option.splits)
  qed
qed

lemma length_scan_frac: "scan_frac s = (x, r) \<Longrightarrow> length r \<le> length s"
  by (auto simp: scan_frac_def length_dropWhile_le le_Suc_eq split: list.splits if_splits)

lemma length_scan_exp: "scan_exp s = (x, r) \<Longrightarrow> length r \<le> length s"
proof -
  have drop: "length (dropWhile is_digit (tl t)) \<le> Suc (length t)"
    "length (dropWhile is_digit t) \<le> Suc (length t)" for t
    using length_dropWhile_le [of is_digit "tl t"] length_dropWhile_le [of is_digit t] by simp_all
  show "scan_exp s = (x, r) \<Longrightarrow> length r \<le> length s"
    by (auto simp: scan_exp_def Let_def drop split: list.splits if_splits)
qed

lemma scan_number_shorter: "scan_number s = Inr (v, r) \<Longrightarrow> length r < length s"
proof -
  assume eq: "scan_number s = Inr (v, r)"
  let ?u = "if startswith s ''-'' then tl s else s"
  let ?ds = "takeWhile is_digit ?u"
  let ?ip = "if hd ?ds = CHR ''0'' then ''0'' else ?ds"
  from eq have ne: "?ds \<noteq> []" by (auto simp: scan_number_def Let_def split: if_splits)
  obtain fr r1 where f: "scan_frac (drop (length ?ip) ?u) = (fr, r1)" by fastforce
  obtain ex r2 where e: "scan_exp r1 = (ex, r2)" by fastforce
  from eq ne f e have "r = r2" by (simp add: scan_number_def Let_def split: prod.splits if_splits)
  moreover have "length r2 \<le> length ?u - length ?ip"
    using length_scan_frac [OF f] length_scan_exp [OF e] unfolding length_drop by (rule le_trans [rotated])
  moreover have "0 < length ?ip" "0 < length ?u"
    using ne by auto
  moreover have "length ?u \<le> length s"
    by simp
  moreover have "a \<le> u - i \<Longrightarrow> 0 < i \<Longrightarrow> 0 < u \<Longrightarrow> u \<le> l \<Longrightarrow> a < l" for a u i l :: nat
    by arith
  ultimately show ?thesis by metis
qed

lemma scan_atom_shorter: "scan_atom s = Inr (v, r) \<Longrightarrow> length r < length s"
  by (auto simp: scan_atom_def startswith_def prefix_def dest: scan_number_shorter split: if_splits)

lemma scan_shorter:
  "scan_value n s = Inr (v, r) \<Longrightarrow> length r < length s"
  "scan_elems n s = Inr (vs, r) \<Longrightarrow> length r < length s"
  "scan_members n s = Inr (ms, r) \<Longrightarrow> length r < length s"
proof (induction n arbitrary: s v r vs ms)
  case 0
  { case 1 then show ?case by simp }
  { case 2 then show ?case by simp }
  { case 3 then show ?case by simp }
next
  case (Suc n)
  have skip: "length t < length u" if "skip_ws u = c # t" for c t u
    using that length_skip_ws [of u] by simp
  { case 1
    then obtain c t where s: "s = c # t" by (cases s) auto
    have members: "length r' < Suc (length t)" if "skip_ws t = d # u" "scan_members n (d # u) = Inr (ms', r')"
      for d u ms' r'
      using that skip [of t d u] Suc.IH(3) [of "d # u" ms' r'] by simp
    have elems: "length r' < Suc (length t)" if "skip_ws t = d # u" "scan_elems n (d # u) = Inr (vs', r')"
      for d u vs' r'
      using that skip [of t d u] Suc.IH(2) [of "d # u" vs' r'] by simp
    have str: "length r' < Suc (length t)" if "scan_str t = Inr (x, r')" for x r'
      using scan_str_shorter [OF that] by simp
    have nil: "length u < Suc (length t)" if "skip_ws t = d # u" for d u
      using skip [OF that] by simp
    from 1 s show ?case
      by (auto simp: py_bind_eq_Inr split: list.splits if_splits
          intro: members elems str nil dest: scan_atom_shorter) }
  { case 2
    then obtain w t where w: "scan_value n s = Inr (w, t)"
      and k: "(case skip_ws t of [] \<Rightarrow> json_err | d # r1 \<Rightarrow>
           if d = CHR '']'' then Inr ([w], r1)
           else if d = CHR '','' then
             py_bind (scan_elems n (skip_ws r1)) (\<lambda>(vs, r2). Inr (w # vs, r2))
           else json_err) = Inr (vs, r)"
      by (auto simp: py_bind_eq_Inr)
    from k obtain d r1 where d: "skip_ws t = d # r1" by (cases "skip_ws t") auto
    have "length r \<le> length r1"
      using k d length_skip_ws [of r1]
      by (auto simp: py_bind_eq_Inr split: if_splits dest!: Suc.IH(2))
    with skip [OF d] Suc.IH(1) [OF w] show ?case by simp }
  { case 3
    then obtain r0 where s: "s = quot # r0" by (cases s) (auto split: if_splits)
    with 3 obtain k r1 where k: "scan_str r0 = Inr (k, r1)" by (auto simp: py_bind_eq_Inr)
    with 3 s obtain r2 where d: "skip_ws r1 = CHR '':'' # r2"
      by (cases "skip_ws r1") (auto split: if_splits)
    with 3 s k obtain w r3 where w: "scan_value n (skip_ws r2) = Inr (w, r3)"
      by (cases "scan_value n (skip_ws r2)") auto
    with 3 s k d obtain e r4 where e: "skip_ws r3 = e # r4" by (cases "skip_ws r3") auto
    from 3 s k d w e have res: "(if e = CHR ''}'' then Inr ([(k, w)], r4)
         else if e = CHR '','' then
           py_bind (scan_members n (skip_ws r4)) (\<lambda>(ms, r5). Inr ((k, w) # ms, r5))
         else json_err) = Inr (ms, r)" by simp
    have "length r \<le> length r4"
      using res length_skip_ws [of r4]
      by (auto simp: py_bind_eq_Inr split: if_splits dest!: Suc.IH(3))
    with s scan_str_shorter [OF k] skip [OF d] Suc.IH(1) [OF w] skip [OF e] length_skip_ws [of r2]
    show ?case by simp }
qed

subsection \<open>What is read is well-formed\<close>

lemma dict_of_items: "set (dict_of ps) \<subseteq> set ps"
proof -
  have "set (foldl (\<lambda>d (k, v). dict_set d k v) d ps) \<subseteq> set d \<union> set ps" for d :: "('a, 'b) dict"
  proof (induction ps arbitrary: d)
    case (Cons p ps)
    from Cons.IH [of "dict_set d (fst p) (snd p)"] dict_set_items [of d "fst p" "snd p"]
    show ?case by (auto simp: case_prod_unfold)
  qed simp
  from this [of "[]"] show ?thesis by (simp add: dict_of_def)
qed

lemma wf_dict_of: "\<forall>(k, v) \<in> set ms. wf_json v \<Longrightarrow> wf_json (JObj (dict_of ms))"
  using dict_of_items [of ms] by auto

lemma wf_number_value: "wf_json (number_value neg ip fr ex)"
  by (cases fr; cases ex) (simp_all add: number_value_def Let_def split: prod.split)

lemma wf_scan_atom: "scan_atom s = Inr (v, r) \<Longrightarrow> wf_json v"
  by (auto simp: scan_atom_def scan_number_def Let_def wf_number_value split: if_splits prod.splits)

lemma scan_wf:
  "scan_value n s = Inr (v, r) \<Longrightarrow> wf_json v"
  "scan_elems n s = Inr (vs, r) \<Longrightarrow> \<forall>v \<in> set vs. wf_json v"
  "scan_members n s = Inr (ms, r) \<Longrightarrow> \<forall>(k, v) \<in> set ms. wf_json v"
proof (induction n arbitrary: s v r vs ms)
  case 0
  { case 1 then show ?case by simp }
  { case 2 then show ?case by simp }
  { case 3 then show ?case by simp }
next
  case (Suc n)
  { case 1
    then obtain c t where s: "s = c # t" by (cases s) auto
    have members: "wf_json (JObj (dict_of ms'))" if "scan_members n u = Inr (ms', r')" for u ms' r'
      by (rule wf_dict_of) (rule Suc.IH(3) [OF that])
    have elems: "wf_json (JArr vs')" if "scan_elems n u = Inr (vs', r')" for u vs' r'
      using Suc.IH(2) [OF that] by simp
    have empty: "wf_json (JObj [])" by (simp add: is_dict_def)
    from 1 s show ?case
      by (auto simp: py_bind_eq_Inr simp del: wf_json.simps(1,2) split: list.splits if_splits
          intro: members elems empty dest: wf_scan_atom) (simp_all add: is_dict_def) }
  { case 2
    then obtain w t where w: "scan_value n s = Inr (w, t)"
      and k: "(case skip_ws t of [] \<Rightarrow> json_err | d # r1 \<Rightarrow>
           if d = CHR '']'' then Inr ([w], r1)
           else if d = CHR '','' then
             py_bind (scan_elems n (skip_ws r1)) (\<lambda>(vs, r2). Inr (w # vs, r2))
           else json_err) = Inr (vs, r)"
      by (auto simp: py_bind_eq_Inr)
    from k have "vs = [w] \<or> (\<exists>u vs' r'. scan_elems n u = Inr (vs', r') \<and> vs = w # vs')"
      by (auto simp: py_bind_eq_Inr split: list.splits if_splits)
    with Suc.IH(1) [OF w] Suc.IH(2) show ?case by (auto; blast) }
  { case 3
    then obtain r0 where s: "s = quot # r0" by (cases s) (auto split: if_splits)
    with 3 obtain k r1 where k: "scan_str r0 = Inr (k, r1)" by (auto simp: py_bind_eq_Inr)
    with 3 s obtain r2 where d: "skip_ws r1 = CHR '':'' # r2"
      by (cases "skip_ws r1") (auto split: if_splits)
    with 3 s k obtain w r3 where w: "scan_value n (skip_ws r2) = Inr (w, r3)"
      by (cases "scan_value n (skip_ws r2)") auto
    with 3 s k d obtain e r4 where e: "skip_ws r3 = e # r4" by (cases "skip_ws r3") auto
    from 3 s k d w e have res: "(if e = CHR ''}'' then Inr ([(k, w)], r4)
         else if e = CHR '','' then
           py_bind (scan_members n (skip_ws r4)) (\<lambda>(ms, r5). Inr ((k, w) # ms, r5))
         else json_err) = Inr (ms, r)" by simp
    then have "ms = [(k, w)] \<or> (\<exists>u ms' r'. scan_members n u = Inr (ms', r') \<and> ms = (k, w) # ms')"
      by (auto simp: py_bind_eq_Inr split: if_splits)
    with Suc.IH(1) [OF w] Suc.IH(3) show ?case by (auto; blast) }
qed

lemma loads_wf: "loads s = Inr j \<Longrightarrow> wf_json j"
  by (auto simp: loads_def py_bind_eq_Inr simp del: scan_value.simps split: if_splits dest: scan_wf(1))

subsection \<open>The fuel is enough\<close>

lemma scan_fuel:
  "2 * length s + 1 \<le> n \<Longrightarrow> n \<le> m \<Longrightarrow> scan_value m s = scan_value n s"
  "2 * length s + 2 \<le> n \<Longrightarrow> n \<le> m \<Longrightarrow> scan_elems m s = scan_elems n s"
  "2 * length s + 1 \<le> n \<Longrightarrow> n \<le> m \<Longrightarrow> scan_members m s = scan_members n s"
proof (induction n arbitrary: s m)
  case 0
  { case 1 then show ?case by simp }
  { case 2 then show ?case by simp }
  { case 3 then show ?case by simp }
next
  case (Suc n)
  have skip: "length t < length u" if "skip_ws u = c # t" for c t u
    using that length_skip_ws [of u] by simp
  have ws: "2 * length (skip_ws u) + 2 \<le> n" if "2 * length u + 2 \<le> n" for u
    using that length_skip_ws [of u] by simp
  { case 1
    then obtain m' where m: "m = Suc m'" "n \<le> m'" by (cases m) auto
    show ?case
    proof (cases s)
      case Nil
      then show ?thesis by (simp add: m)
    next
      case (Cons c r)
      have ms: "scan_members m' (d # u) = scan_members n (d # u)"
        and es: "scan_elems m' (d # u) = scan_elems n (d # u)" if "skip_ws r = d # u" for d u
        using that 1 Cons m skip [of r d u] by (auto intro!: Suc.IH(2,3))
      show ?thesis
        unfolding m Cons using ms es by (simp split: list.split)
    qed }
  { case 2
    then obtain m' where m: "m = Suc m'" "n \<le> m'" by (cases m) auto
    have v: "scan_value m' s = scan_value n s"
      using 2 m by (intro Suc.IH(1)) auto
    have e: "scan_elems m' (skip_ws u) = scan_elems n (skip_ws u)" if "length u < length s" for u
      using that 2 m length_skip_ws [of u] by (intro Suc.IH(2)) auto
    show ?case
      unfolding m(1) scan_elems.simps v
      by (rule py_bind_cong [OF refl])
        (auto split: list.split dest!: scan_shorter(1) skip intro!: arg_cong [where f = "\<lambda>x. py_bind x _"] e) }
  { case 3
    then obtain m' where m: "m = Suc m'" "n \<le> m'" by (cases m) auto
    show ?case
    proof (cases s)
      case Nil
      then show ?thesis by (simp add: m)
    next
      case (Cons c r)
      have v: "scan_value m' (skip_ws u) = scan_value n (skip_ws u)" if "length u < length s" for u
        using that 3 m length_skip_ws [of u] by (intro Suc.IH(1)) auto
      have ms: "scan_members m' (skip_ws u) = scan_members n (skip_ws u)" if "length u < length s" for u
        using that 3 m length_skip_ws [of u] by (intro Suc.IH(3)) auto
      have r1: "length r2 < length s" if "scan_str r = Inr (k, r1)" "skip_ws r1 = d # r2" for k r1 d r2
        using scan_str_shorter [OF that(1)] skip [OF that(2)] Cons by simp
      have r4: "length r4 < length s"
        if "scan_value n (skip_ws r2) = Inr (x, r3)" "skip_ws r3 = d # r4" "length r2 < length s"
        for r2 x r3 d r4
        using scan_shorter(1) [OF that(1)] skip [OF that(2)] that(3) length_skip_ws [of r2] by simp
      have ms': "scan_members m' (skip_ws r4) = scan_members n (skip_ws r4)"
        if "scan_value n (skip_ws r2) = Inr (x, r3)" "skip_ws r3 = d # r4" "length r2 < length s"
        for r2 x r3 d r4
        using ms r4 that by blast
      show ?thesis
        unfolding m(1) Cons by (auto split: list.split intro!: py_bind_cong v ms') (use r1 in blast)+
    qed }
qed

corollary loads_fuel:
  assumes "2 * length s + 2 \<le> n"
  shows "scan_value (2 * length s + 2) (skip_ws s) = scan_value n (skip_ws s)"
  using scan_fuel(1) [of "skip_ws s" "2 * length s + 2" n] length_skip_ws [of s] assms by simp

subsection \<open>Printing, then reading\<close>

text \<open>A printed number ends where no digit, point or exponent follows.\<close>

definition number_end :: "string \<Rightarrow> bool" where
  "number_end r = (r = [] \<or> hd r \<in> {CHR '','', CHR '']'', CHR ''}'', CHR '' '', CHR 0x09, CHR 0x0A, CHR 0x0D})"

lemma hex_val_hex_digit: "d < 16 \<Longrightarrow> hex_val (hex_digit d) = Some d"
  by (simp add: hex_val_def hex_digit_def Let_def)

lemma hex4_esc: "hex4 (CHR ''0'') (CHR ''0'') (hex_digit (codepoint c div 16)) (hex_digit (codepoint c mod 16))
    = Some (codepoint c)"
proof -
  have "hex_val (CHR ''0'') = Some 0" by (simp add: hex_val_def codepoint_def)
  then show ?thesis
    by (simp add: hex4_def hex_val_hex_digit codepoint_halves)
qed

lemma scan_str_esc: "scan_str (esc_char c @ r) = push c (scan_str r)"
proof -
  consider "c = quot" | "c = bsl" | "c = CHR 0x08" | "c = CHR 0x0C" | "c = CHR 0x0A" | "c = CHR 0x0D"
    | "c = CHR 0x09" | (other) "c \<notin> {quot, bsl, CHR 0x08, CHR 0x0C, CHR 0x0A, CHR 0x0D, CHR 0x09}"
    by auto
  then show ?thesis
  proof cases
    case other
    then show ?thesis
      by (auto simp: esc_char_def hex4_esc)
  qed (simp_all add: esc_char_def unesc_def)
qed

lemma scan_json_str: "scan_str (concat (map esc_char s) @ quot # r) = Inr (s, r)"
  by (induction s) (simp_all add: scan_str_esc push_def del: scan_str.simps(2), simp)

lemma takeWhile_dec: "(r = [] \<or> \<not> is_digit (hd r)) \<Longrightarrow> takeWhile is_digit (dec_nat n @ r) = dec_nat n"
  using dec_nat_digits [of _ n] by (cases r) auto

lemma number_end_facts:
  assumes "number_end r"
  shows "r = [] \<or> \<not> is_digit (hd r)" "scan_frac r = (None, r)" "scan_exp r = (None, r)"
  using assms by (cases r; auto simp: number_end_def is_digit_def codepoint_def scan_frac_def scan_exp_def)+

lemma scan_number_dec_nat:
  assumes "number_end r"
  shows "scan_number (dec_nat n @ r) = Inr (JInt (int n), r)"
proof -
  have hd: "hd (dec_nat n @ r) = hd (dec_nat n)" by simp
  have "is_digit (hd (dec_nat n))" by (rule dec_nat_digits [of _ n]) simp
  then have pos: "\<not> startswith (dec_nat n @ r) ''-''"
    by (cases "dec_nat n") (auto simp: startswith_def is_digit_def codepoint_def)
  have zero: "dec_nat n = ''0''" if "hd (dec_nat n) = CHR ''0''"
    using that hd_dec_nat [of n] by (subst dec_nat.simps) (simp add: digit_char_0)
  show ?thesis
    using zero takeWhile_dec [OF number_end_facts(1) [OF assms], of n] number_end_facts(2,3) [OF assms] pos
    by (auto simp: scan_number_def number_value_def Let_def)
qed

lemma scan_number_dec_int:
  assumes "number_end r"
  shows "scan_number (dec_int i @ r) = Inr (JInt i, r)"
proof (cases "i < 0")
  case False
  with scan_number_dec_nat [OF assms, of "nat i"] show ?thesis by (simp add: dec_int_def)
next
  case True
  have zero: "dec_nat n = ''0''" if "hd (dec_nat n) = CHR ''0''" for n
    using that hd_dec_nat [of n] by (subst dec_nat.simps) (simp add: digit_char_0)
  show ?thesis
    using True zero takeWhile_dec [OF number_end_facts(1) [OF assms], of "nat (- i)"]
      number_end_facts(2,3) [OF assms]
    by (auto simp: scan_number_def number_value_def Let_def dec_int_def startswith_def)
qed

text \<open>\<open>reads f t v\<close>: with enough fuel, \<open>f\<close> reads \<open>v\<close> from \<open>t\<close>, whatever follows.\<close>

definition reads :: "(nat \<Rightarrow> string \<Rightarrow> 'a parse) \<Rightarrow> string \<Rightarrow> 'a \<Rightarrow> bool" where
  "reads f t v = (\<exists>N. \<forall>n \<ge> N. \<forall>r. number_end r \<longrightarrow> f n (t @ r) = Inr (v, r))"

definition blank :: "string \<Rightarrow> bool" where
  "blank v = (\<forall>c \<in> set v. json_ws c)"

definition seps :: "string \<Rightarrow> string \<Rightarrow> bool" where
  "seps isep ksep = (\<exists>v w. isep = CHR '','' # v \<and> ksep = CHR '':'' # w \<and> blank v \<and> blank w)"

lemma reads_now:
  assumes "\<And>n r. number_end r \<Longrightarrow> f (Suc n) (t @ r) = Inr (v, r)"
  shows "reads f t v"
  unfolding reads_def using assms by (intro exI [of _ 1]) (metis Suc_le_D One_nat_def)

lemma reads_step:
  assumes "reads g t' v'"
    and "\<And>n r. number_end r \<Longrightarrow> (\<And>r'. number_end r' \<Longrightarrow> g n (t' @ r') = Inr (v', r')) \<Longrightarrow>
      f (Suc n) (t @ r) = Inr (v, r)"
  shows "reads f t v"
proof -
  from assms(1) obtain N where N: "\<forall>n \<ge> N. \<forall>r. number_end r \<longrightarrow> g n (t' @ r) = Inr (v', r)"
    by (auto simp: reads_def)
  then have "f n (t @ r) = Inr (v, r)" if "Suc N \<le> n" "number_end r" for n r
    using that assms(2) by (cases n) auto
  then show ?thesis unfolding reads_def by blast
qed

lemma reads_both: "reads f t v \<Longrightarrow> reads g u w \<Longrightarrow>
    \<exists>N. \<forall>n \<ge> N. (\<forall>r. number_end r \<longrightarrow> f n (t @ r) = Inr (v, r)) \<and>
      (\<forall>r. number_end r \<longrightarrow> g n (u @ r) = Inr (w, r))"
proof -
  assume "reads f t v" "reads g u w"
  then obtain M N where "\<forall>n \<ge> M. \<forall>r. number_end r \<longrightarrow> f n (t @ r) = Inr (v, r)"
    "\<forall>n \<ge> N. \<forall>r. number_end r \<longrightarrow> g n (u @ r) = Inr (w, r)"
    by (auto simp: reads_def)
  then show ?thesis by (intro exI [of _ "max M N"]) auto
qed

lemma reads_step2:
  assumes "reads g t' v'" "reads h u w"
    and "\<And>n r. number_end r \<Longrightarrow> (\<And>r'. number_end r' \<Longrightarrow> g n (t' @ r') = Inr (v', r')) \<Longrightarrow>
      (\<And>r'. number_end r' \<Longrightarrow> h n (u @ r') = Inr (w, r')) \<Longrightarrow> f (Suc n) (t @ r) = Inr (v, r)"
  shows "reads f t v"
proof -
  obtain N where N: "\<forall>n \<ge> N. (\<forall>r. number_end r \<longrightarrow> g n (t' @ r) = Inr (v', r)) \<and>
      (\<forall>r. number_end r \<longrightarrow> h n (u @ r) = Inr (w, r))"
    using reads_both [OF assms(1,2)] by blast
  then have "f n (t @ r) = Inr (v, r)" if "Suc N \<le> n" "number_end r" for n r
    using that assms(3) by (cases n) auto
  then show ?thesis unfolding reads_def by blast
qed

subsubsection \<open>What a printed value starts with\<close>

definition value_start :: "char \<Rightarrow> bool" where
  "value_start c = (\<not> json_ws c \<and> c \<noteq> CHR '']'' \<and> c \<noteq> CHR ''}'')"

lemma dec_int_start: "\<exists>c t. dec_int i = c # t \<and> (is_digit c \<or> (c = CHR ''-'' \<and> (\<exists>d u. t = d # u \<and> is_digit d)))"
proof -
  have "\<exists>d u. dec_nat n = d # u \<and> is_digit d" for n
    using dec_nat_digits [of _ n] dec_nat_not_Nil [of n] by (cases "dec_nat n") auto
  then obtain d u d' u' where "dec_nat (nat i) = d # u" "is_digit d" "dec_nat (nat (- i)) = d' # u'" "is_digit d'"
    by metis
  then show ?thesis by (simp add: dec_int_def)
qed

lemma is_digit_not: "\<forall>d \<in> set (quot # ''ntfNI-{[]},''). \<not> is_digit d"
  by code_simp

lemma digit_start:
  assumes "is_digit c \<or> (c = CHR ''-'' \<and> (\<exists>d u. t = d # u \<and> is_digit d))"
  shows "c \<noteq> quot \<and> c \<noteq> CHR ''{'' \<and> c \<noteq> CHR ''[''" "scan_atom (c # t @ r) = scan_number (c # t @ r)"
proof -
  consider "is_digit c" | d u where "c = CHR ''-''" "t = d # u" "is_digit d"
    using assms by blast
  then have "(c \<noteq> quot \<and> c \<noteq> CHR ''{'' \<and> c \<noteq> CHR ''['') \<and> scan_atom (c # t @ r) = scan_number (c # t @ r)"
  proof cases
    case 1
    then have "c \<notin> set (quot # ''ntfNI-{[]},'')" using is_digit_not by blast
    then show ?thesis by (simp add: scan_atom_def)
  next
    case 2
    then have "d \<notin> set (quot # ''ntfNI-{[]},'')" using is_digit_not by blast
    with 2 show ?thesis by (simp add: scan_atom_def)
  qed
  then show "c \<noteq> quot \<and> c \<noteq> CHR ''{'' \<and> c \<noteq> CHR ''[''" "scan_atom (c # t @ r) = scan_number (c # t @ r)"
    by blast+
qed

definition starts_value :: "string \<Rightarrow> bool" where
  "starts_value s = (\<exists>c t. s = c # t \<and> value_start c)"

lemma starts_value_simps [simp]:
  "starts_value (c # t) = value_start c"
  "starts_value s \<Longrightarrow> starts_value (s @ t)"
  by (auto simp: starts_value_def)

lemma dumps_start: "no_float j \<Longrightarrow> starts_value (dumps fr isep ksep j)"
proof (cases j)
  case (JInt i)
  then show ?thesis
    using dec_int_start [of i]
    by (auto simp: starts_value_def value_start_def json_ws_def is_digit_def codepoint_def)
qed (auto simp: starts_value_def value_start_def json_ws_def json_str_def)

lemma skip_ws_start: "starts_value s \<Longrightarrow> skip_ws s = s"
  by (auto simp: skip_ws_def starts_value_def value_start_def)

lemma skip_ws_blank [simp]: "blank v \<Longrightarrow> skip_ws (v @ s) = skip_ws s"
  by (simp add: skip_ws_def blank_def)

lemma scan_value_dec_int: "number_end r \<Longrightarrow> scan_value (Suc n) (dec_int i @ r) = Inr (JInt i, r)"
proof -
  assume r: "number_end r"
  obtain c t where c: "dec_int i = c # t"
    and digits: "is_digit c \<or> (c = CHR ''-'' \<and> (\<exists>d u. t = d # u \<and> is_digit d))"
    using dec_int_start [of i] by (elim exE conjE) (rule that)
  from digit_start [OF digits] show ?thesis
    using c scan_number_dec_int [OF r, of i] by simp
qed

subsubsection \<open>The round trip\<close>

lemma number_end_simps [simp]:
  "number_end []" "number_end (CHR '','' # r)" "number_end (CHR '']'' # r)" "number_end (CHR ''}'' # r)"
  by (simp_all add: number_end_def)

lemma skip_ws_mark [simp]:
  "skip_ws (CHR '']'' # r) = CHR '']'' # r" "skip_ws (CHR ''}'' # r) = CHR ''}'' # r"
  "skip_ws (CHR '':'' # r) = CHR '':'' # r"
  by (simp_all add: skip_ws_def json_ws_def)

lemma value_start_quot [simp]: "value_start quot"
  by (simp add: value_start_def json_ws_def)

lemma blank_number_end: "blank v \<Longrightarrow> number_end r \<Longrightarrow> number_end (v @ r)"
  by (cases v) (auto simp: blank_def number_end_def json_ws_def)

text \<open>
  The elements of an array, printed one by one with \<open>g\<close>, separated by a comma with white space and
  closed after white space; then the members of an object.
\<close>

lemma reads_elems:
  assumes isep: "isep = CHR '','' # v" "blank v" and cl: "blank cl" and "xs \<noteq> []"
    and "\<And>x. x \<in> set xs \<Longrightarrow> starts_value (g x) \<and> reads scan_value (g x) x"
  shows "reads scan_elems (join isep (map g xs) @ cl @ '']'') xs"
  using assms(4,5)
proof (induction xs)
  case (Cons x xs)
  have x: "starts_value (g x)" "reads scan_value (g x) x" using Cons.prems by auto
  show ?case
  proof (cases xs)
    case Nil
    show ?thesis
      by (rule reads_step [OF x(2)]) (simp add: Nil cl blank_number_end)
  next
    case (Cons y ys)
    let ?t = "join isep (map g xs) @ cl @ '']''"
    have y: "starts_value (?t @ r)" for r
      using Cons.prems Cons by (cases ys) auto
    have "reads scan_elems ?t xs"
      using Cons Cons.IH Cons.prems by auto
    from x(2) this show ?thesis
    proof (rule reads_step2)
      fix n r
      assume r: "number_end r" and first: "\<And>r'. number_end r' \<Longrightarrow> scan_value n (g x @ r') = Inr (x, r')"
        and others: "\<And>r'. number_end r' \<Longrightarrow> scan_elems n (?t @ r') = Inr (xs, r')"
      have "join isep (map g (x # xs)) @ cl @ '']'' = g x @ isep @ ?t"
        by (simp add: Cons)
      moreover have "skip_ws (isep @ ?t @ r) = CHR '','' # v @ ?t @ r"
        by (simp add: isep skip_ws_def json_ws_def)
      moreover have "skip_ws (v @ ?t @ r) = ?t @ r"
        using isep(2) skip_ws_start [OF y] by simp
      moreover have "number_end (isep @ ?t @ r)" by (simp add: isep)
      ultimately show "scan_elems (Suc n) ((join isep (map g (x # xs)) @ cl @ '']'') @ r) = Inr (x # xs, r)"
        using first [of "isep @ ?t @ r"] others [OF r] by simp
    qed
  qed
qed simp

lemma reads_members:
  assumes isep: "isep = CHR '','' # v" "blank v" and ksep: "ksep = CHR '':'' # w" "blank w"
    and cl: "blank cl" and "d \<noteq> []"
    and "\<And>k j. (k, j) \<in> set d \<Longrightarrow> starts_value (g j) \<and> reads scan_value (g j) j"
  shows "reads scan_members (join isep (map (\<lambda>(k, j). json_str k @ ksep @ g j) d) @ cl @ ''}'') d"
  using assms(6,7)
proof (induction d)
  case (Cons p d)
  obtain k j where p: "p = (k, j)" by (cases p)
  have j: "starts_value (g j)" "reads scan_value (g j) j" using Cons.prems p by auto
  have key: "scan_members (Suc n) (json_str k @ ksep @ g j @ r') =
      (case skip_ws r' of
         [] \<Rightarrow> json_err
       | e # r4 \<Rightarrow>
           if e = CHR ''}'' then Inr ([(k, j)], r4)
           else if e = CHR '','' then
             py_bind (scan_members n (skip_ws r4)) (\<lambda>(ms, r5). Inr ((k, j) # ms, r5))
           else json_err)"
    if "scan_value n (g j @ r') = Inr (j, r')" for n r'
    using that ksep(2) skip_ws_start [of "g j @ r'"] j(1)
    by (simp add: json_str_def scan_json_str ksep(1))
  let ?m = "\<lambda>(k, j). json_str k @ ksep @ g j"
  show ?case
  proof (cases d)
    case Nil
    show ?thesis
      by (rule reads_step [OF j(2)])
        (simp add: Nil p key cl blank_number_end del: scan_members.simps)
  next
    case (Cons q e)
    let ?t = "join isep (map ?m d) @ cl @ ''}''"
    have t: "starts_value (?t @ r)" for r
      using Cons by (cases q; cases e) (auto simp: json_str_def)
    have "reads scan_members ?t d"
      using Cons Cons.IH Cons.prems by auto
    from j(2) this show ?thesis
    proof (rule reads_step2)
      fix n r
      assume r: "number_end r" and first: "\<And>r'. number_end r' \<Longrightarrow> scan_value n (g j @ r') = Inr (j, r')"
        and others: "\<And>r'. number_end r' \<Longrightarrow> scan_members n (?t @ r') = Inr (d, r')"
      have "join isep (map ?m (p # d)) @ cl @ ''}'' = json_str k @ ksep @ g j @ isep @ ?t"
        by (simp add: Cons p)
      moreover have "skip_ws (isep @ ?t @ r) = CHR '','' # v @ ?t @ r"
        by (simp add: isep skip_ws_def json_ws_def)
      moreover have "skip_ws (v @ ?t @ r) = ?t @ r"
        using isep(2) skip_ws_start [OF t] by simp
      moreover have "number_end (isep @ ?t @ r)" by (simp add: isep)
      ultimately show "scan_members (Suc n) ((join isep (map ?m (p # d)) @ cl @ ''}'') @ r) = Inr (p # d, r)"
        using key [OF first, of "isep @ ?t @ r"] others [OF r] p by simp
    qed
  qed
qed simp

lemma reads_bracketed:
  assumes "blank op" "starts_value t"
  shows "reads scan_elems t xs \<Longrightarrow> reads scan_value (''['' @ op @ t) (JArr xs)"
    and "reads scan_members t d \<Longrightarrow> is_dict d \<Longrightarrow> reads scan_value (''{'' @ op @ t) (JObj d)"
proof -
  from assms(2) obtain c u where t: "t = c # u" "value_start c" by (auto simp: starts_value_def)
  then have skip: "skip_ws (op @ c # u @ r) = c # u @ r" for r
    using assms(1) skip_ws_start [of "c # u @ r"] by simp
  show "reads scan_elems t xs \<Longrightarrow> reads scan_value (''['' @ op @ t) (JArr xs)"
    by (erule reads_step) (use t skip in \<open>simp add: value_start_def\<close>)
  show "reads scan_members t d \<Longrightarrow> is_dict d \<Longrightarrow> reads scan_value (''{'' @ op @ t) (JObj d)"
    by (erule reads_step) (use t skip in \<open>simp add: value_start_def dict_of_id\<close>)
qed

lemma reads_array:
  assumes "isep = CHR '','' # v" "blank v" "blank op" "blank cl" "xs \<noteq> []"
    and "\<And>x. x \<in> set xs \<Longrightarrow> starts_value (g x) \<and> reads scan_value (g x) x"
  shows "reads scan_value (''['' @ op @ join isep (map g xs) @ cl @ '']'') (JArr xs)"
proof (rule reads_bracketed(1) [OF assms(3) _ reads_elems [OF assms(1,2,4,5,6)]])
  show "starts_value (join isep (map g xs) @ cl @ '']'')"
    using assms(5,6) by (cases xs; cases "tl xs") auto
qed

lemma reads_object:
  assumes "isep = CHR '','' # v" "blank v" "ksep = CHR '':'' # w" "blank w" "blank op" "blank cl" "d \<noteq> []"
    and "\<And>k j. (k, j) \<in> set d \<Longrightarrow> starts_value (g j) \<and> reads scan_value (g j) j" and "is_dict d"
  shows "reads scan_value (''{'' @ op @ join isep (map (\<lambda>(k, j). json_str k @ ksep @ g j) d) @ cl @ ''}'') (JObj d)"
proof (rule reads_bracketed(2) [OF assms(5) _ reads_members [OF assms(1-4,6-8)] assms(9)])
  show "starts_value (join isep (map (\<lambda>(k, j). json_str k @ ksep @ g j) d) @ cl @ ''}'')"
    using assms(7) by (cases d; cases "tl d") (auto simp: json_str_def)
qed

lemma reads_empty: "reads scan_value ''[]'' (JArr [])" "reads scan_value ''{}'' (JObj [])"
  by (rule reads_now, simp add: skip_ws_def json_ws_def)+

lemma reads_atom:
  "reads scan_value (dumps fr isep ksep JNull) JNull" "reads scan_value (dumps fr isep ksep (JBool b)) (JBool b)"
  "reads scan_value (dumps fr isep ksep (JInt i)) (JInt i)" "reads scan_value (dumps fr isep ksep (JStr s)) (JStr s)"
proof -
  show "reads scan_value (dumps fr isep ksep JNull) JNull" by (rule reads_now) (simp add: scan_atom_def)
  show "reads scan_value (dumps fr isep ksep (JBool b)) (JBool b)" by (rule reads_now) (simp add: scan_atom_def)
  show "reads scan_value (dumps fr isep ksep (JInt i)) (JInt i)"
    by (rule reads_now) (simp only: dumps.simps scan_value_dec_int)
  show "reads scan_value (dumps fr isep ksep (JStr s)) (JStr s)"
    by (rule reads_now) (simp add: json_str_def scan_json_str)
qed

lemma reads_dumps:
  assumes seps: "seps isep ksep"
  shows "wf_json j \<Longrightarrow> no_float j \<Longrightarrow> reads scan_value (dumps fr isep ksep j) j"
proof (induction j)
  case (JArr xs)
  from seps obtain v where "isep = CHR '','' # v" "blank v" by (auto simp: seps_def)
  with JArr show ?case
    using reads_array [of isep v "[]" "[]" xs "dumps fr isep ksep"] reads_empty(1)
    by (cases "xs = []") (auto simp: dumps_start blank_def)
next
  case (JObj d)
  from seps obtain v w where "isep = CHR '','' # v" "blank v" "ksep = CHR '':'' # w" "blank w"
    by (auto simp: seps_def)
  moreover have "starts_value (dumps fr isep ksep x) \<and> reads scan_value (dumps fr isep ksep x) x"
    if "(k, x) \<in> set d" for k x
    using that JObj by (force simp: dumps_start)
  ultimately show ?case
    using reads_object [of isep v ksep w "[]" "[]" d "dumps fr isep ksep"] reads_empty(2) JObj.prems
    by (cases "d = []") (auto simp: blank_def)
qed (use reads_atom in auto)

text \<open>A text that a value is read from is all of it.\<close>

lemma loads_reads:
  assumes "reads scan_value s j" "starts_value s"
  shows "loads s = Inr j"
proof -
  obtain N where N: "\<forall>n \<ge> N. \<forall>r. number_end r \<longrightarrow> scan_value n (s @ r) = Inr (j, r)"
    using assms(1) by (auto simp: reads_def)
  let ?n = "max N (2 * length s + 2)"
  have "scan_value (2 * length s + 2) (skip_ws s) = scan_value ?n (skip_ws s)"
    by (rule loads_fuel) simp
  also have "\<dots> = scan_value ?n (s @ [])"
    using skip_ws_start [OF assms(2)] by simp
  also have "scan_value ?n (s @ []) = Inr (j, [])"
    using N max.cobounded1 number_end_simps(1) by blast
  finally have "scan_value (2 * length s + 2) (skip_ws s) = Inr (j, [])" .
  then show ?thesis
    unfolding loads_def by (simp only: py_bind_simps) (simp add: skip_ws_def)
qed

theorem loads_dumps:
  assumes "seps isep ksep" "wf_json j" "no_float j"
  shows "loads (dumps fr isep ksep j) = Inr j"
  by (rule loads_reads [OF reads_dumps [OF assms] dumps_start [OF assms(3)]])

text \<open>The indented text.\<close>

lemma blank_line [simp]: "blank (line_at level)"
  by (simp add: blank_def line_at_def json_ws_def)

lemma dumps_indent_start: "no_float j \<Longrightarrow> starts_value (dumps_indent fr level j)"
  using dumps_start [of j fr "'',''" "'': ''"] by (cases j) (auto simp: value_start_def json_ws_def)

lemma reads_dumps_indent:
  "wf_json j \<Longrightarrow> no_float j \<Longrightarrow> reads scan_value (dumps_indent fr level j) j"
proof (induction j arbitrary: level)
  case (JArr xs)
  then have "starts_value (dumps_indent fr (Suc level) x) \<and> reads scan_value (dumps_indent fr (Suc level) x) x"
    if "x \<in> set xs" for x
    using that by (auto simp: dumps_indent_start)
  then show ?case
    using reads_array [OF refl blank_line blank_line blank_line] reads_empty(1) by (cases "xs = []") auto
next
  case (JObj d)
  have "starts_value (dumps_indent fr (Suc level) x) \<and> reads scan_value (dumps_indent fr (Suc level) x) x"
    if "(k, x) \<in> set d" for k x
    using that JObj by (force simp: dumps_indent_start)
  moreover have "blank '' ''" by (simp add: blank_def json_ws_def)
  ultimately show ?case
    using reads_object [OF refl blank_line refl _ blank_line blank_line, where w = "'' ''" and d = d and g = "dumps_indent fr (Suc level)"]
      reads_empty(2) JObj.prems by (cases "d = []") auto
qed (use reads_atom in auto)

corollary loads_dumps_indent: "wf_json j \<Longrightarrow> no_float j \<Longrightarrow> loads (dumps_indent fr level j) = Inr j"
  by (simp add: loads_reads reads_dumps_indent dumps_indent_start)

lemma seps_default [simp]: "seps '', '' '': ''" "seps '','' '':''"
  by (auto simp: seps_def blank_def json_ws_def)

corollary loads_dumps_default: "wf_json j \<Longrightarrow> no_float j \<Longrightarrow> loads (dumps_default fr j) = Inr j"
  by (simp add: dumps_default_def loads_dumps)

corollary loads_dumps_sorted: "wf_json j \<Longrightarrow> no_float j \<Longrightarrow> loads (dumps_sorted fr j) = Inr (canon j)"
  by (simp add: dumps_sorted_def loads_dumps wf_canon no_float_canon)

text \<open>Two float-free documents with the same sorted text differ in the order of their keys only.\<close>

corollary dumps_sorted_inject:
  assumes "wf_json i" "no_float i" "wf_json j" "no_float j" "dumps_sorted fr i = dumps_sorted fr j"
  shows "canon i = canon j"
  using loads_dumps_sorted [of i fr] loads_dumps_sorted [of j fr] assms by simp

end
