(* ===== verification/Base64.thy ===== *)
theory Base64
  imports JsonParse
begin

section \<open>Base64 and the codecs of a token\<close>

text \<open>
  Python's \<open>base64\<close> module: \<open>b64encode\<close>, the lenient \<open>b64decode\<close> of \<open>binascii.a2b_base64\<close> (which
  skips characters outside the alphabet and stops at a complete padding), and the URL-safe variants.
  \<open>codec\<close> is the contract an encoder and a decoder share; codecs compose, and the two that a
  token's segment is built from, JSON text and unpadded URL-safe base64, satisfy it.
\<close>

definition b64_char :: "nat \<Rightarrow> char" where
  "b64_char v =
     (if v < 26 then char_of (65 + v) else if v < 52 then char_of (71 + v)
      else if v < 62 then char_of (v - 4) else if v = 62 then CHR ''+'' else CHR ''/'')"

definition b64_val :: "char \<Rightarrow> nat option" where
  "b64_val c = (let n = codepoint c in
     if 65 \<le> n \<and> n \<le> 90 then Some (n - 65)
     else if 97 \<le> n \<and> n \<le> 122 then Some (n - 71)
     else if 48 \<le> n \<and> n \<le> 57 then Some (n + 4)
     else if c = CHR ''+'' then Some 62
     else if c = CHR ''/'' then Some 63
     else None)"

fun b2a :: "string \<Rightarrow> string" where
  "b2a [] = []"
| "b2a [a] = [b64_char (codepoint a div 4), b64_char (codepoint a mod 4 * 16), CHR ''='', CHR ''='']"
| "b2a [a, b] =
     [b64_char (codepoint a div 4), b64_char (codepoint a mod 4 * 16 + codepoint b div 16),
      b64_char (codepoint b mod 16 * 4), CHR ''='']"
| "b2a (a # b # c # r) =
     b64_char (codepoint a div 4) # b64_char (codepoint a mod 4 * 16 + codepoint b div 16) #
     b64_char (codepoint b mod 16 * 4 + codepoint c div 64) # b64_char (codepoint c mod 64) # b2a r"

text \<open>\<open>q\<close>: position in the group of four; \<open>l\<close>: bits left over; \<open>p\<close>: padding seen.\<close>

fun a2b :: "nat \<Rightarrow> nat \<Rightarrow> nat \<Rightarrow> string \<Rightarrow> string option" where
  "a2b q l p [] = (if q = 0 then Some [] else None)"
| "a2b q l p (c # s) =
     (if c = CHR ''='' then
        (if 2 \<le> q then if 4 \<le> q + Suc p then Some [] else a2b q l (Suc p) s
         else a2b q l p s)
      else
        (case b64_val c of
           None \<Rightarrow> a2b q l p s
         | Some v \<Rightarrow>
             if q = 0 then a2b 1 v 0 s
             else if q = 1 then map_option (Cons (char_of (l * 4 + v div 16))) (a2b 2 (v mod 16) 0 s)
             else if q = 2 then map_option (Cons (char_of (l * 16 + v div 4))) (a2b 3 (v mod 4) 0 s)
             else map_option (Cons (char_of (l * 64 + v))) (a2b 0 0 0 s)))"

definition ascii :: "string \<Rightarrow> bool" where
  "ascii s = (\<forall>c \<in> set s. codepoint c < 128)"

definition b64encode :: "string \<Rightarrow> string" where
  "b64encode bs = b2a bs"

definition b64decode :: "string \<Rightarrow> string py" where
  "b64decode s =
     (if ascii s then (case a2b 0 0 0 s of None \<Rightarrow> Inl ValueError | Some bs \<Rightarrow> Inr bs)
      else Inl ValueError)"

definition to_urlsafe :: "char \<Rightarrow> char" where
  "to_urlsafe c = (if c = CHR ''+'' then CHR ''-'' else if c = CHR ''/'' then CHR ''_'' else c)"

definition from_urlsafe :: "char \<Rightarrow> char" where
  "from_urlsafe c = (if c = CHR ''-'' then CHR ''+'' else if c = CHR ''_'' then CHR ''/'' else c)"

definition urlsafe_b64encode :: "string \<Rightarrow> string" where
  "urlsafe_b64encode bs = map to_urlsafe (b2a bs)"

definition urlsafe_b64decode :: "string \<Rightarrow> string py" where
  "urlsafe_b64decode s = (if ascii s then b64decode (map from_urlsafe s) else Inl ValueError)"

text \<open>\<open>s.rstrip("=")\<close>, and \<open>s + "=" * ((4 - len(s) % 4) % 4)\<close>.\<close>

definition rstrip_eq :: "string \<Rightarrow> string" where
  "rstrip_eq s = rev (dropWhile (\<lambda>c. c = CHR ''='') (rev s))"

definition repad :: "string \<Rightarrow> string" where
  "repad s = s @ replicate ((4 - length s mod 4) mod 4) (CHR ''='')"

subsection \<open>Decoding what was encoded\<close>

lemma codepoint_b64_char: "v < 64 \<Longrightarrow> codepoint (b64_char v) =
    (if v < 26 then 65 + v else if v < 52 then 71 + v else if v < 62 then v - 4
     else if v = 62 then 43 else 47)"
  by (simp add: b64_char_def codepoint_def [of "CHR ''+''"] codepoint_def [of "CHR ''/''"])

lemma char_eqD: "c = d \<Longrightarrow> codepoint c = codepoint d"
  by simp

lemma b64_marks: "codepoint (CHR ''='') = 61" "codepoint (CHR ''+'') = 43" "codepoint (CHR ''/'') = 47"
  "codepoint (CHR ''-'') = 45" "codepoint (CHR ''_'') = 95" "codepoint (CHR ''.'') = 46"
  by (simp_all add: codepoint_def)

lemma b64_char_not:
  assumes "v < 64"
  shows "b64_char v \<noteq> CHR ''=''" "b64_char v \<noteq> CHR ''-''" "b64_char v \<noteq> CHR ''_''"
    "b64_char v \<noteq> CHR ''.''"
  using codepoint_b64_char [OF assms] assms by (auto dest!: char_eqD simp: b64_marks split: if_splits)

lemma b64_val_b64_char: "v < 64 \<Longrightarrow> b64_val (b64_char v) = Some v"
proof -
  assume v: "v < 64"
  consider "v < 26" | "26 \<le> v" "v < 52" | "52 \<le> v" "v < 62" | "v = 62" | "v = 63"
    using v by linarith
  then show ?thesis
    by cases (auto simp: b64_val_def Let_def codepoint_b64_char b64_char_def b64_marks)
qed

lemma ascii_b64_char: "v < 64 \<Longrightarrow> codepoint (b64_char v) < 128"
  by (auto simp: codepoint_b64_char)

lemma urlsafe_b64_char:
  assumes "v < 64"
  shows "from_urlsafe (to_urlsafe (b64_char v)) = b64_char v"
    "to_urlsafe (b64_char v) \<noteq> CHR ''=''" "to_urlsafe (b64_char v) \<noteq> CHR ''.''"
    "codepoint (to_urlsafe (b64_char v)) < 128"
  using b64_char_not [OF assms] ascii_b64_char [OF assms]
  by (auto simp: to_urlsafe_def from_urlsafe_def b64_marks)

text \<open>The sextets of a group of bytes.\<close>

lemma sextets:
  "codepoint a div 4 < 64" "codepoint a mod 4 * 16 + codepoint b div 16 < 64"
  "codepoint b mod 16 * 4 + codepoint c div 64 < 64" "codepoint c mod 64 < 64"
  "codepoint a mod 4 * 16 < 64" "codepoint b mod 16 * 4 < 64"
proof -
  have d: "codepoint x div 4 < 64" "codepoint x div 16 < 16" "codepoint x div 64 < 4" for x
    using codepoint_less [of x] by (auto intro!: less_mult_imp_div_less)
  have m: "codepoint x mod 4 < 4" "codepoint x mod 16 < 16" "codepoint x mod 64 < 64" for x
    by simp_all
  show "codepoint a div 4 < 64" "codepoint c mod 64 < 64" using d m by simp_all
  show "codepoint a mod 4 * 16 + codepoint b div 16 < 64" "codepoint a mod 4 * 16 < 64"
    using d(2) [of b] m(1) [of a] by linarith+
  show "codepoint b mod 16 * 4 + codepoint c div 64 < 64" "codepoint b mod 16 * 4 < 64"
    using d(3) [of c] m(2) [of b] by linarith+
qed

lemma bytes_again:
  fixes a b c :: nat
  assumes "b < 256" "c < 256"
  shows "a div 4 * 4 + (a mod 4 * 16 + b div 16) div 16 = a"
    and "(a mod 4 * 16 + b div 16) mod 16 * 16 + (b mod 16 * 4 + c div 64) div 4 = b"
    and "(b mod 16 * 4 + c div 64) mod 4 * 64 + c mod 64 = c"
proof -
  have "b div 16 < 16" "c div 64 < 4" using assms by (simp_all add: less_mult_imp_div_less)
  then have "(a mod 4 * 16 + b div 16) div 16 = a mod 4" "(a mod 4 * 16 + b div 16) mod 16 = b div 16"
    "(b mod 16 * 4 + c div 64) div 4 = b mod 16" "(b mod 16 * 4 + c div 64) mod 4 = c div 64"
    by simp_all
  then show "a div 4 * 4 + (a mod 4 * 16 + b div 16) div 16 = a"
    and "(a mod 4 * 16 + b div 16) mod 16 * 16 + (b mod 16 * 4 + c div 64) div 4 = b"
    and "(b mod 16 * 4 + c div 64) mod 4 * 64 + c mod 64 = c"
    by simp_all
qed

lemma bytes_again_end:
  fixes a b :: nat
  shows "a div 4 * 4 + a mod 4 * 16 div 16 = a"
    and "b < 256 \<Longrightarrow> (a mod 4 * 16 + b div 16) mod 16 * 16 + b mod 16 * 4 div 4 = b"
  using bytes_again(2) [of b 0 a] by simp_all

theorem a2b_b2a: "a2b 0 0 0 (b2a bs) = Some bs"
proof (induction bs rule: b2a.induct)
  case 1
  show ?case by simp
next
  case (2 a)
  show ?case
    by (simp add: b64_val_b64_char b64_char_not sextets bytes_again_end)
next
  case (3 a b)
  have "codepoint b div 16 < 16" by (simp add: less_mult_imp_div_less)
  then show ?case
    by (simp add: b64_val_b64_char b64_char_not sextets bytes_again bytes_again_end)
next
  case (4 a b c r)
  moreover have "codepoint b div 16 < 16" "codepoint c div 64 < 4"
    by (simp_all add: less_mult_imp_div_less)
  ultimately show ?case
    by (simp add: b64_val_b64_char b64_char_not sextets bytes_again)
qed

text \<open>The text of an encoding: a multiple of four alphabet characters, then up to two \<open>=\<close>.\<close>

definition is_b64 :: "char \<Rightarrow> bool" where
  "is_b64 c = (\<exists>v < 64. c = b64_char v)"

lemma is_b64_char [simp]: "v < 64 \<Longrightarrow> is_b64 (b64_char v)"
  by (auto simp: is_b64_def)

lemma is_b64_facts:
  "is_b64 c \<Longrightarrow> to_urlsafe c \<noteq> CHR ''='' \<and> to_urlsafe c \<noteq> CHR ''.'' \<and> codepoint (to_urlsafe c) < 128
    \<and> codepoint c < 128 \<and> from_urlsafe (to_urlsafe c) = c"
  by (auto simp: is_b64_def urlsafe_b64_char ascii_b64_char)

definition b64_text :: "string \<Rightarrow> bool" where
  "b64_text t = (\<forall>c \<in> set t. is_b64 c)"

lemma b64_text_simps [simp]:
  "b64_text []"
  "b64_text (c # t) = (is_b64 c \<and> b64_text t)"
  by (auto simp: b64_text_def)

lemma b2a_shape:
  "\<exists>t k. b2a bs = t @ replicate k (CHR ''='') \<and> b64_text t \<and> k = (4 - length t mod 4) mod 4"
proof (induction bs rule: b2a.induct)
  case 1
  show ?case by (intro exI [of _ "[]"]) simp
next
  case (2 a)
  show ?case
    by (intro exI [of _ "take 2 (b2a [a])"] exI [of _ 2]) (simp add: sextets numeral_2_eq_2)
next
  case (3 a b)
  show ?case
    by (intro exI [of _ "take 3 (b2a [a, b])"] exI [of _ 1]) (simp add: sextets)
next
  case (4 a b c r)
  then obtain t k where r: "b2a r = t @ replicate k (CHR ''='')" "b64_text t"
    "k = (4 - length t mod 4) mod 4" by blast
  show ?case
    by (intro exI [of _ "take 4 (b2a [a, b, c]) @ t"] exI [of _ k]) (simp add: r sextets)
qed

lemma rstrip_replicate: "t = [] \<or> last t \<noteq> CHR ''='' \<Longrightarrow> rstrip_eq (t @ replicate k (CHR ''='')) = t"
  by (cases t rule: rev_cases) (auto simp: rstrip_eq_def dropWhile_append)

lemma repad_rstrip: "repad (rstrip_eq (urlsafe_b64encode bs)) = urlsafe_b64encode bs"
proof -
  obtain t k where b: "b2a bs = t @ replicate k (CHR ''='')" "b64_text t"
    "k = (4 - length t mod 4) mod 4"
    using b2a_shape by blast
  have "c \<noteq> CHR ''=''" if "c \<in> set (map to_urlsafe t)" for c
    using that b(2) is_b64_facts by (auto simp: b64_text_def)
  then have "map to_urlsafe t = [] \<or> last (map to_urlsafe t) \<noteq> CHR ''=''"
    by (metis last_in_set)
  moreover have u: "urlsafe_b64encode bs = map to_urlsafe t @ replicate k (CHR ''='')"
    by (simp add: urlsafe_b64encode_def b to_urlsafe_def)
  ultimately have "rstrip_eq (urlsafe_b64encode bs) = map to_urlsafe t"
    by (simp only: u rstrip_replicate)
  then show ?thesis by (simp add: repad_def u b(3))
qed

lemma b2a_chars: "c \<in> set (b2a bs) \<Longrightarrow> c = CHR ''='' \<or> is_b64 c"
  using b2a_shape [of bs] by (auto simp: b64_text_def)

lemma b2a_char_facts:
  assumes "c \<in> set (b2a bs)"
  shows "codepoint c < 128" "codepoint (to_urlsafe c) < 128" "to_urlsafe c \<noteq> CHR ''.''"
    "from_urlsafe (to_urlsafe c) = c"
  using b2a_chars [OF assms] is_b64_facts [of c]
  by (auto simp: to_urlsafe_def from_urlsafe_def b64_marks)

lemma urlsafe_chars: "c \<in> set (urlsafe_b64encode bs) \<Longrightarrow> codepoint c < 128 \<and> c \<noteq> CHR ''.''"
  using b2a_char_facts by (auto simp: urlsafe_b64encode_def)

lemma ascii_b2a: "ascii (b2a bs)"
  using b2a_char_facts by (auto simp: ascii_def)

lemma from_to_urlsafe: "map from_urlsafe (urlsafe_b64encode bs) = b2a bs"
  using b2a_char_facts(4) [of _ bs] by (simp add: urlsafe_b64encode_def comp_def map_idI)

lemma b64decode_b64encode: "b64decode (b64encode bs) = Inr bs"
  by (simp add: b64decode_def b64encode_def ascii_b2a a2b_b2a)

lemma urlsafe_round_trip: "urlsafe_b64decode (urlsafe_b64encode bs) = Inr bs"
  using urlsafe_chars [of _ bs] b64decode_b64encode [of bs]
  by (simp add: urlsafe_b64decode_def from_to_urlsafe b64encode_def ascii_def)

subsection \<open>Codecs\<close>

locale codec =
  fixes enc :: "'a \<Rightarrow> string" and dec :: "string \<Rightarrow> 'a py" and ok :: "'a \<Rightarrow> bool"
  assumes dec_enc: "ok x \<Longrightarrow> dec (enc x) = Inr x"
begin

lemma enc_inject: "ok x \<Longrightarrow> ok y \<Longrightarrow> enc x = enc y \<Longrightarrow> x = y"
  by (metis dec_enc sum.inject(2))

end

locale codec_chain =
  outer: codec enc1 dec1 "\<lambda>_. True" + inner: codec enc2 dec2 ok2
  for enc1 :: "string \<Rightarrow> string" and dec1 and enc2 :: "'a \<Rightarrow> string" and dec2 and ok2
begin

lemma dec_enc_chain: "ok2 x \<Longrightarrow> py_bind (dec1 (enc1 (enc2 x))) dec2 = Inr x"
  by (simp add: outer.dec_enc inner.dec_enc)

end

sublocale codec_chain \<subseteq> chain: codec "\<lambda>x. enc1 (enc2 x)" "\<lambda>s. py_bind (dec1 s) dec2" ok2
  by unfold_locales (rule dec_enc_chain)

definition segment_enc :: "string \<Rightarrow> string" where
  "segment_enc s = rstrip_eq (urlsafe_b64encode s)"

definition segment_dec :: "string \<Rightarrow> string py" where
  "segment_dec s = urlsafe_b64decode (repad s)"

definition plain_json :: "json \<Rightarrow> bool" where
  "plain_json j = (wf_json j \<and> no_float j)"

interpretation seg: codec_chain segment_enc segment_dec "dumps_default fr" loads plain_json
  for fr :: "rat \<Rightarrow> string"
proof unfold_locales
  show "segment_dec (segment_enc s) = Inr s" for s
    by (simp only: segment_enc_def segment_dec_def repad_rstrip urlsafe_round_trip)
  show "loads (dumps_default fr j) = Inr j" if "plain_json j" for j
    using that by (simp only: plain_json_def loads_dumps_default)
qed

lemma segment_no_dot: "CHR ''.'' \<notin> set (segment_enc s)"
proof -
  have "set (segment_enc s) \<subseteq> set (urlsafe_b64encode s)"
    unfolding segment_enc_def rstrip_eq_def using set_dropWhileD by fastforce
  then show ?thesis using urlsafe_chars by blast
qed

end
