(* ===== verification/Http.thy ===== *)
theory Http
  imports Base64
begin

section \<open>Requests, responses and the services' surroundings\<close>

text \<open>
  What the Flask handlers see and return, the replies of the services they call, the files they
  read and the parts of the platform that stay parameters: the text of a float and the HMAC digest.
  Header names compare without case; setting a header replaces it. A response body is the JSON
  value given to \<open>jsonify\<close>, the text of a page as a JSON string, or \<open>null\<close> for an empty body.
\<close>

type_synonym headers = "(string \<times> string) list"

definition header :: "headers \<Rightarrow> string \<Rightarrow> string option" where
  "header hs name = map_option snd (List.find (\<lambda>(k, v). lower k = lower name) hs)"

definition header_or :: "headers \<Rightarrow> string \<Rightarrow> string \<Rightarrow> string" where
  "header_or hs name dflt = (case header hs name of None \<Rightarrow> dflt | Some v \<Rightarrow> v)"

record request =
  req_method :: string
  req_path :: string
  req_headers :: headers
  req_remote :: "string option"
  req_json :: "json option"
  req_form :: "(string, string) dict"

record response =
  resp_status :: nat
  resp_headers :: headers
  resp_body :: json

definition set_header :: "string \<Rightarrow> string \<Rightarrow> response \<Rightarrow> response" where
  "set_header k v r = r\<lparr>resp_headers := filter (\<lambda>(k', _). lower k' \<noteq> lower k) (resp_headers r) @ [(k, v)]\<rparr>"

definition resp_header :: "response \<Rightarrow> string \<Rightarrow> string option" where
  "resp_header r name = header (resp_headers r) name"

definition json_response :: "nat \<Rightarrow> json \<Rightarrow> response" where
  "json_response st j = \<lparr>resp_status = st, resp_headers = [], resp_body = j\<rparr>"

definition error_body :: "string \<Rightarrow> json" where
  "error_body msg = JObj [(''error'', JStr msg)]"

text \<open>
  \<open>Response(status, headers=..)\<close>: a header value becomes text by \<open>str\<close>, and text with a line break
  is a ValueError.
\<close>

definition line_breaks :: "string \<Rightarrow> bool" where
  "line_breaks s = (CHR 0x0A \<in> set s \<or> CHR 0x0D \<in> set s)"

definition empty_response :: "nat \<Rightarrow> headers \<Rightarrow> response py" where
  "empty_response st hs =
     (if list_ex (\<lambda>(_, v). line_breaks v) hs then Inl ValueError
      else Inr \<lparr>resp_status = st, resp_headers = hs, resp_body = JNull\<rparr>)"

text \<open>
  What the client receives: the response after the \<open>after_request\<close> hooks; an exception that leaves
  the handler becomes a 500 response, which passes the hooks too.
\<close>

definition serve :: "(response \<Rightarrow> response) \<Rightarrow> response py \<Rightarrow> response py" where
  "serve hooks m =
     (case m of
        Inr r \<Rightarrow> Inr (hooks r)
      | Inl Unmodelled \<Rightarrow> Inl Unmodelled
      | Inl _ \<Rightarrow> Inr (hooks \<lparr>resp_status = 500, resp_headers = [], resp_body = JNull\<rparr>))"

text \<open>The reply of an HTTP service, or the \<open>RequestException\<close> of a failed call.\<close>

datatype reply = RequestFailed | Reply nat headers string

text \<open>A JSON file: what \<open>open\<close> and \<open>json.load\<close> do with it.\<close>

datatype json_file = Missing | Unreadable | BadText | BadJson | Doc json

fun read_json :: "json_file \<Rightarrow> json py" where
  "read_json Missing = Inl FileNotFoundError"
| "read_json Unreadable = Inl OSError"
| "read_json BadText = Inl ValueError"
| "read_json BadJson = Inl JSONDecodeError"
| "read_json (Doc j) = Inr j"

text \<open>
  The outcome of \<open>subprocess.run\<close>: what the program printed, or an exception. \<open>CalledProcessError\<close> is raised
  only under \<open>check=True\<close>; without it a program that ends with another status than 0 has completed too.
\<close>

datatype run_result = Completed string | CalledProcessError | TimeoutExpired | NoCommand

text \<open>\<open>json.loads\<close> on bytes that are ASCII text; other encodings are outside the model.\<close>

definition loads_bytes :: "string \<Rightarrow> json py" where
  "loads_bytes bs = (if ascii bs \<and> CHR 0x00 \<notin> set bs then loads bs else Inl Unmodelled)"

record platform =
  float_repr :: "rat \<Rightarrow> string"
  hmac_sha256 :: "string \<Rightarrow> string \<Rightarrow> string"

text \<open>A platform and settings for the worked examples: the "digest" appends the message to the key.\<close>

definition sample_platform :: platform where
  "sample_platform = \<lparr>float_repr = (\<lambda>_. ''0.5''), hmac_sha256 = (\<lambda>k m. k @ m)\<rparr>"

text \<open>The module constants of the bridge, read from its environment.\<close>

record settings =
  posture_signing_secret :: string
  max_posture_age :: int
  risk_threshold :: int
  admin_token :: string
  opa_auth_token :: string
  opa_url :: string
  wg_interface :: string
  wg_subnet :: string

definition sample_settings :: settings where
  "sample_settings =
     \<lparr>posture_signing_secret = ''key'', max_posture_age = 300, risk_threshold = 70,
      admin_token = ''tok'', opa_auth_token = ''opa'', opa_url = ''http://opa:8181/v1/data/ztlab/authz'',
      wg_interface = ''wg0'', wg_subnet = ''10.8.0''\<rparr>"

subsection \<open>Facts on headers and printed documents\<close>

lemma header_simps [simp]:
  "header [] name = None"
  "header ((k, v) # hs) name = (if lower k = lower name then Some v else header hs name)"
  by (simp_all add: header_def)

lemma header_filter_append:
  "header (filter (\<lambda>(k', _). lower k' \<noteq> lower k) hs @ [(k, v)]) name =
     (if lower k = lower name then Some v else header hs name)"
  by (induction hs) auto

lemma resp_header_set [simp]:
  "resp_header (set_header k v r) name = (if lower k = lower name then Some v else resp_header r name)"
  by (simp add: resp_header_def set_header_def header_filter_append)

lemma set_header_frame [simp]:
  "resp_status (set_header k v r) = resp_status r"
  "resp_body (set_header k v r) = resp_body r"
  by (simp_all add: set_header_def)

lemma empty_response_Inr:
  "empty_response st hs = Inr r \<Longrightarrow> r = \<lparr>resp_status = st, resp_headers = hs, resp_body = JNull\<rparr>"
  by (simp add: empty_response_def split: if_splits)

lemma serve_simps [simp]:
  "serve hooks (Inr r) = Inr (hooks r)"
  by (simp add: serve_def)

lemma dumps_no_float: "no_float j \<Longrightarrow> dumps fr isep ksep j = dumps fr' isep ksep j"
proof (induction j)
  case (JArr xs)
  then show ?case by (auto intro!: arg_cong [where f = "join isep"])
next
  case (JObj d)
  have "map (\<lambda>(k, v). json_str k @ ksep @ dumps fr isep ksep v) d =
      map (\<lambda>(k, v). json_str k @ ksep @ dumps fr' isep ksep v) d"
    using JObj by (intro map_cong) force+
  then show ?case by (simp only: dumps.simps)
qed auto

lemma printable_dumps_no_float:
  "no_float j \<Longrightarrow> printable isep \<Longrightarrow> printable ksep \<Longrightarrow> printable (dumps fr isep ksep j)"
  using dumps_no_float [of j fr isep ksep "\<lambda>_. []"] printable_dumps [of "\<lambda>_. []" isep ksep j] by simp

lemma printable_dumps_default: "no_float j \<Longrightarrow> printable (dumps_default fr j)"
  unfolding dumps_default_def by (rule printable_dumps_no_float) (simp_all add: codepoint_def)

lemma printable_dumps_sorted: "no_float j \<Longrightarrow> printable (dumps_sorted fr j)"
  unfolding dumps_sorted_def
  by (rule printable_dumps_no_float) (simp_all add: codepoint_def no_float_canon)

lemma printable_bytes: "printable s \<Longrightarrow> ascii s \<and> CHR 0x00 \<notin> set s"
  by (fastforce simp: printable_def ascii_def codepoint_def [of "CHR 0x00"])

lemma loads_bytes_dumps_default: "plain_json j \<Longrightarrow> loads_bytes (dumps_default fr j) = Inr j"
  using printable_bytes [OF printable_dumps_default [of j fr]]
  by (simp add: loads_bytes_def plain_json_def loads_dumps_default)

end
