(* ===== verification/Identity.thy ===== *)
theory Identity
  imports Http
begin

section \<open>Who the caller is\<close>

text \<open>
  \<open>gateway/authz-bridge/app.py\<close>, \<open>_decode_id_token\<close> and \<open>check_identity\<close>: the claims of the token
  that oauth2-proxy passes in its reply, and the identity dictionary built from them. The proxy is
  the parameter \<open>oauth\<close>, from the session cookie to its reply.
\<close>

definition decode_id_token :: "string \<Rightarrow> json py" where
  "decode_id_token header_value =
     (if \<not> startswith header_value ''Bearer '' then Inr (JObj [])
      else
        (let parts = split_on (CHR ''.'') (drop 7 header_value)
         in if length parts \<noteq> 3 then Inr (JObj [])
            else py_catch [ValueError, JSONDecodeError]
              (py_bind (urlsafe_b64decode (repad (parts ! 1))) loads_bytes)
              (Inr (JObj []))))"

definition mfa_in_amr :: "platform \<Rightarrow> json \<Rightarrow> bool py" where
  "mfa_in_amr P amr =
     py_bind (str_in ''webauthn'' amr) (\<lambda>w.
       Inr (w \<or> str_contains (lower (py_str (float_repr P) amr)) ''mfa''))"

definition not_authenticated :: jdict where
  "not_authenticated = [(''authenticated'', JBool False)]"

definition check_identity :: "platform \<Rightarrow> (string \<Rightarrow> reply) \<Rightarrow> headers \<Rightarrow> jdict py" where
  "check_identity P oauth incoming =
     (case oauth (header_or incoming ''Cookie'' []) of
        RequestFailed \<Rightarrow> Inr not_authenticated
      | Reply status hs _ \<Rightarrow>
          if status \<noteq> 202 then Inr not_authenticated
          else
            py_bind (decode_id_token (header_or hs ''Authorization'' [])) (\<lambda>claims.
            py_bind (as_dict claims) (\<lambda>id_token.
              let email = get_or id_token ''email'' (JStr (header_or hs ''X-Auth-Request-Email'' []));
                  auth_time = get_or id_token ''auth_time'' (JInt 0);
                  amr = get_or id_token ''amr'' (JArr []);
                  groups = get_or id_token ''groups'' (JArr [])
              in
              py_bind (str_in ''admins'' groups) (\<lambda>is_admin.
              py_bind (mfa_in_amr P amr) (\<lambda>mfa.
              py_bind (py_int (if truthy auth_time then auth_time else JInt 0)) (\<lambda>t.
                Inr [(''authenticated'', JBool True),
                     (''email'', email),
                     (''mfa_verified'', JBool mfa),
                     (''auth_time'', JInt t),
                     (''groups'', groups),
                     (''is_admin'', JBool is_admin)]))))))"

subsection \<open>The token\<close>

lemma decode_other_scheme [simp]:
  "\<not> startswith h ''Bearer '' \<Longrightarrow> decode_id_token h = Inr (JObj [])"
  by (simp add: decode_id_token_def)

lemma decode_bearer:
  assumes "CHR ''.'' \<notin> set hdr" "CHR ''.'' \<notin> set payload" "CHR ''.'' \<notin> set sig"
  shows "decode_id_token (''Bearer '' @ hdr @ ''.'' @ payload @ ''.'' @ sig) =
    py_catch [ValueError, JSONDecodeError]
      (py_bind (urlsafe_b64decode (repad payload)) loads_bytes) (Inr (JObj []))"
proof -
  have "split_on (CHR ''.'') (hdr @ ''.'' @ payload @ ''.'' @ sig) = [hdr, payload, sig]"
    using assms by (simp add: split_on_append split_on_absent)
  then show ?thesis
    by (simp add: decode_id_token_def)
qed

lemma decode_error:
  "decode_id_token h = Inl e \<Longrightarrow> e \<noteq> ValueError \<and> e \<noteq> JSONDecodeError"
  by (auto simp: decode_id_token_def py_catch_def Let_def split: if_splits sum.splits)

lemma decode_token:
  assumes "plain_json claims" "CHR ''.'' \<notin> set hdr" "CHR ''.'' \<notin> set sig"
  shows "decode_id_token (''Bearer '' @ hdr @ ''.'' @ segment_enc (dumps_default fr claims) @ ''.'' @ sig)
    = Inr claims"
proof -
  have "urlsafe_b64decode (repad (segment_enc s)) = Inr s" for s
    using seg.outer.dec_enc by (simp add: segment_dec_def)
  then show ?thesis
    unfolding decode_bearer [OF assms(2) segment_no_dot assms(3)]
    by (simp add: loads_bytes_dumps_default [OF assms(1)])
qed

text \<open>
  C17: claims that were printed as JSON and encoded as a token's middle segment are exactly what the
  bridge reads back, whatever the (dot-free) header and signature segments are.
\<close>

theorem token_round_trip:
  assumes "plain_json claims" "CHR ''.'' \<notin> set hdr" "CHR ''.'' \<notin> set sig"
  shows "decode_id_token (''Bearer '' @ hdr @ ''.'' @ segment_enc (dumps_default fr claims) @ ''.'' @ sig)
    = Inr claims"
  by (rule decode_token [OF assms])

lemma token_round_trip_witness:
  "decode_id_token (''Bearer '' @ ''h'' @ ''.'' @
     segment_enc (dumps_default (\<lambda>_. []) (JObj [(''email'', JStr ''a@b.c'')])) @ ''.'' @ ''s'')
    = Inr (JObj [(''email'', JStr ''a@b.c'')])"
  by (rule token_round_trip) (simp_all add: plain_json_def is_dict_def)

subsection \<open>The identity dictionary\<close>

text \<open>The two shapes of an identity.\<close>

definition identity_of :: "json \<Rightarrow> bool \<Rightarrow> int \<Rightarrow> json \<Rightarrow> bool \<Rightarrow> jdict" where
  "identity_of email mfa t groups adm =
     [(''authenticated'', JBool True), (''email'', email), (''mfa_verified'', JBool mfa),
      (''auth_time'', JInt t), (''groups'', groups), (''is_admin'', JBool adm)]"

lemma check_identity_cases:
  assumes "check_identity P oauth hs = Inr d"
  obtains (anonymous) "d = not_authenticated"
  | (user) rh body email mfa t groups adm where
      "oauth (header_or hs ''Cookie'' []) = Reply 202 rh body"
      "d = identity_of email mfa t groups adm" "str_in ''admins'' groups = Inr adm"
proof (cases "oauth (header_or hs ''Cookie'' [])")
  case RequestFailed
  with assms show ?thesis by (auto simp: check_identity_def intro: anonymous)
next
  case (Reply st rh body)
  show ?thesis
  proof (cases "st = 202")
    case False
    with assms Reply show ?thesis by (auto simp: check_identity_def intro: anonymous)
  next
    case True
    with assms Reply have "\<exists>email mfa t groups adm.
        d = identity_of email mfa t groups adm \<and> str_in ''admins'' groups = Inr adm"
      unfolding identity_of_def
      by (simp add: check_identity_def py_bind_eq_Inr Let_def)
        (elim exE conjE, intro exI conjI, erule sym, assumption)
    with Reply True show ?thesis using user by blast
  qed
qed

lemma identity_of_get [simp]:
  "get_or (identity_of email mfa t groups adm) ''authenticated'' x = JBool True"
  "get_or (identity_of email mfa t groups adm) ''email'' x = email"
  "get_or (identity_of email mfa t groups adm) ''mfa_verified'' x = JBool mfa"
  "get_or (identity_of email mfa t groups adm) ''auth_time'' x = JInt t"
  "get_or (identity_of email mfa t groups adm) ''groups'' x = groups"
  "get_or (identity_of email mfa t groups adm) ''is_admin'' x = JBool adm"
  "get_or (identity_of email mfa t groups adm) ''role'' x = x"
  by (simp_all add: identity_of_def)

lemma not_authenticated_get [simp]:
  "get_or not_authenticated ''authenticated'' x = JBool False"
  "get_or not_authenticated ''email'' x = x"
  "get_or not_authenticated ''mfa_verified'' x = x"
  "get_or not_authenticated ''auth_time'' x = x"
  "get_or not_authenticated ''is_admin'' x = x"
  "get_or not_authenticated ''role'' x = x"
  by (simp_all add: not_authenticated_def)

lemma identity_types:
  assumes "check_identity P oauth hs = Inr d"
  shows "(\<exists>b. get_or d ''authenticated'' (JBool False) = JBool b) \<and>
    (\<exists>b. get_or d ''mfa_verified'' (JBool False) = JBool b) \<and>
    (\<exists>b. get_or d ''is_admin'' (JBool False) = JBool b) \<and>
    (\<exists>t. get_or d ''auth_time'' (JInt 0) = JInt t)"
  using assms by (cases rule: check_identity_cases) auto

lemma identity_no_role: "check_identity P oauth hs = Inr d \<Longrightarrow> get_or d ''role'' x = x"
  by (erule check_identity_cases) simp_all

text \<open>
  C18: the identity check fails closed. Whatever the proxy does, an identity that counts as
  authenticated, MFA-verified or administrator comes from a proxy reply with status 202, and
  administrators are exactly the callers whose group claim contains \<open>admins\<close>.
\<close>

theorem check_identity_fails_closed:
  assumes "check_identity P oauth hs = Inr d"
  shows "(get_or d ''authenticated'' (JBool False) = JBool True \<or>
      get_or d ''mfa_verified'' (JBool False) = JBool True \<or>
      get_or d ''is_admin'' (JBool False) = JBool True \<longrightarrow>
        (\<exists>rh body. oauth (header_or hs ''Cookie'' []) = Reply 202 rh body)) \<and>
    (get_or d ''is_admin'' (JBool False) = JBool True \<longleftrightarrow>
      str_in ''admins'' (get_or d ''groups'' (JArr [])) = Inr True)"
  using assms by (cases rule: check_identity_cases) (auto simp: not_authenticated_def)

text \<open>A reply without a token: authenticated, with no further claim.\<close>

lemma check_identity_no_token:
  "check_identity P (\<lambda>_. Reply 202 [] []) hs = Inr (identity_of (JStr []) False 0 (JArr []) False)"
proof -
  have "\<not> str_contains (lower ''[]'') ''mfa''"
    by code_simp
  then show ?thesis
    by (simp add: check_identity_def header_or_def mfa_in_amr_def identity_of_def)
qed

lemma check_identity_fails_closed_witness:
  "check_identity sample_platform (\<lambda>_. Reply 202 [] []) [] =
     Inr (identity_of (JStr []) False 0 (JArr []) False) \<and>
   (\<exists>rh body. Reply 202 [] [] = Reply 202 rh body)"
  using check_identity_fails_closed [OF check_identity_no_token [of sample_platform "[]"]]
  by (simp add: check_identity_no_token)

end
