(* ===== verification/Posture.thy ===== *)
theory Posture
  imports Http
begin

section \<open>Device posture: signed records and their reader\<close>

text \<open>
  \<open>gateway/authz-bridge/app.py\<close>, \<open>_verify_posture_sig\<close> and \<open>get_posture\<close>. The store is a JSON file
  written by the agents; the bridge believes a record only when its signature verifies and it is
  recent, and answers \<open>unhealthy\<close> otherwise. \<open>signature_scheme\<close> is the contract between the agent
  that signs and the bridge that verifies.
\<close>

locale signature_scheme =
  fixes sign :: "'d \<Rightarrow> 's" and verify :: "'d \<Rightarrow> 's \<Rightarrow> bool" and digest :: "'d \<Rightarrow> 'h"
    and keyed :: bool and signable :: "'d \<Rightarrow> bool"
  assumes verify_sign: "signable d \<Longrightarrow> verify d (sign d)"
    and verify_digest: "keyed \<Longrightarrow> verify d s \<Longrightarrow> verify d' s \<Longrightarrow> digest d = digest d'"
begin

lemma tampering_detected:
  "keyed \<Longrightarrow> signable d \<Longrightarrow> digest d' \<noteq> digest d \<Longrightarrow> \<not> verify d' (sign d)"
  using verify_digest [of d' "sign d" d] verify_sign [of d] by blast

lemma signature_reused: "keyed \<Longrightarrow> signable d \<Longrightarrow> verify d' (sign d) \<Longrightarrow> digest d' = digest d"
  using tampering_detected by blast

end

subsection \<open>The bridge's side\<close>

definition posture_digest :: "platform \<Rightarrow> string \<Rightarrow> json \<Rightarrow> string" where
  "posture_digest P secret data = hmac_sha256 P secret (dumps_sorted (float_repr P) data)"

fun b64decode_value :: "json \<Rightarrow> string py" where
  "b64decode_value (JStr s) = b64decode s"
| "b64decode_value _ = Inl TypeError"

definition verify_posture_sig :: "platform \<Rightarrow> string \<Rightarrow> json \<Rightarrow> json \<Rightarrow> bool" where
  "verify_posture_sig P secret data sig_b64 =
     (if secret = [] then True
      else if \<not> truthy sig_b64 then False
      else (case b64decode_value sig_b64 of
              Inl _ \<Rightarrow> False
            | Inr actual \<Rightarrow> posture_digest P secret data = actual))"

definition unhealthy :: "string \<Rightarrow> jdict" where
  "unhealthy reason = [(''posture'', JStr ''unhealthy''), (''reason'', JStr reason)]"

text \<open>\<open>data\<close> and \<open>sig\<close> of an envelope; a record that is not an envelope is its own data.\<close>

fun open_envelope :: "json \<Rightarrow> json \<times> json" where
  "open_envelope (JObj e) = (get_or e ''data'' (JObj e), get_or e ''sig'' (JStr []))"
| "open_envelope j = (j, JStr [])"

text \<open>\<open>now\<close> is the reading of \<open>time.time()\<close>. Logging the age of a stale record converts it by \<open>int\<close>.\<close>

definition get_posture :: "platform \<Rightarrow> settings \<Rightarrow> json_file \<Rightarrow> rat \<Rightarrow> string \<Rightarrow> jdict py" where
  "get_posture P cfg file now source_ip =
     (case read_json file of
        Inl e \<Rightarrow>
          if e \<in> set [FileNotFoundError, JSONDecodeError] then Inr (unhealthy ''no posture data'')
          else Inl e
      | Inr doc \<Rightarrow>
          py_bind (as_dict doc) (\<lambda>store.
            let envelope = get_or store source_ip JNull in
            if \<not> truthy envelope then Inr (unhealthy ''no posture record for source'')
            else
              (let (data, sig) = open_envelope envelope in
               if \<not> verify_posture_sig P (posture_signing_secret cfg) data sig
               then Inr (unhealthy ''invalid posture signature'')
               else
                 py_bind (as_dict data) (\<lambda>d.
                 py_bind (num_of (get_or d ''checked_at'' (JInt 0))) (\<lambda>checked_at.
                   let posture_age = minus_num now checked_at in
                   if num_gt posture_age (of_int (max_posture_age cfg))
                   then py_bind (py_int (JFloat posture_age)) (\<lambda>_. Inr (unhealthy ''stale posture data''))
                   else Inr d)))))"

lemma unhealthy_get [simp]:
  "get_or (unhealthy r) ''posture'' x = JStr ''unhealthy''"
  "get_or (unhealthy r) ''reason'' x = JStr r"
  "get_or (unhealthy r) ''checked_at'' x = x"
  "get_or (unhealthy r) ''signals'' x = x"
  by (simp_all add: unhealthy_def)

text \<open>
  What the reader is to accept, said without its own tests. A signature is good when no secret is set, or
  when it is text that decodes to the HMAC, under the secret, of the data printed with sorted keys. A time
  is recent when it is a number at most the limit in the past; infinity and NaN count as recent too, minus
  infinity does not. An accepted record of an address is the object under \<open>data\<close> in the entry of the
  address, or the entry itself when it has no such field, with a good signature under \<open>sig\<close> and a recent
  time.
\<close>

definition good_signature :: "platform \<Rightarrow> string \<Rightarrow> json \<Rightarrow> json \<Rightarrow> bool" where
  "good_signature P secret data sig \<longleftrightarrow>
     secret = [] \<or>
     (\<exists>s. sig = JStr s \<and> s \<noteq> [] \<and>
        b64decode s = Inr (hmac_sha256 P secret (dumps_sorted (float_repr P) data)))"

fun recent :: "rat \<Rightarrow> int \<Rightarrow> pyfloat \<Rightarrow> bool" where
  "recent now limit (Fin t) = (now - t \<le> of_int limit)"
| "recent now limit NegInf = False"
| "recent now limit PosInf = True"
| "recent now limit NaN = True"

definition accepted_record ::
    "platform \<Rightarrow> settings \<Rightarrow> json_file \<Rightarrow> rat \<Rightarrow> string \<Rightarrow> jdict \<Rightarrow> bool" where
  "accepted_record P cfg file now ip d =
     (\<exists>store fields t.
        file = Doc (JObj store) \<and> dict_get store ip = Some (JObj fields) \<and> fields \<noteq> [] \<and>
        (dict_get fields ''data'' = Some (JObj d) \<or> dict_get fields ''data'' = None \<and> d = fields) \<and>
        good_signature P (posture_signing_secret cfg) (JObj d) (get_or fields ''sig'' (JStr [])) \<and>
        num_of (get_or d ''checked_at'' (JInt 0)) = Inr t \<and> recent now (max_posture_age cfg) t)"

lemma verify_good: "verify_posture_sig P secret data sig \<longleftrightarrow> good_signature P secret data sig"
  by (cases sig) (auto simp: verify_posture_sig_def good_signature_def posture_digest_def split: sum.splits)

lemma recent_iff: "recent now limit t \<longleftrightarrow> \<not> num_gt (minus_num now t) (of_int limit)"
  by (cases t) (auto simp: not_less)

lemma envelope_iff:
  "truthy env \<and> open_envelope env = (JObj d, sig) \<longleftrightarrow>
    (\<exists>fields. env = JObj fields \<and> fields \<noteq> [] \<and>
       (dict_get fields ''data'' = Some (JObj d) \<or> dict_get fields ''data'' = None \<and> d = fields) \<and>
       sig = get_or fields ''sig'' (JStr []))"
  by (cases env) (auto simp: get_or_def split: option.splits)

text \<open>In the terms of the reader.\<close>

lemma accepted_record_alt:
  "accepted_record P cfg file now ip d \<longleftrightarrow>
     (\<exists>store env sig t.
        file = Doc (JObj store) \<and> dict_get store ip = Some env \<and> truthy env \<and>
        open_envelope env = (JObj d, sig) \<and>
        verify_posture_sig P (posture_signing_secret cfg) (JObj d) sig \<and>
        num_of (get_or d ''checked_at'' (JInt 0)) = Inr t \<and>
        \<not> num_gt (minus_num now t) (of_int (max_posture_age cfg)))"
    (is "_ \<longleftrightarrow> ?alt")
proof
  assume "accepted_record P cfg file now ip d"
  then obtain store fields t where a: "file = Doc (JObj store)" "dict_get store ip = Some (JObj fields)" "fields \<noteq> []"
    "dict_get fields ''data'' = Some (JObj d) \<or> dict_get fields ''data'' = None \<and> d = fields"
    "good_signature P (posture_signing_secret cfg) (JObj d) (get_or fields ''sig'' (JStr []))"
    "num_of (get_or d ''checked_at'' (JInt 0)) = Inr t" "\<not> num_gt (minus_num now t) (of_int (max_posture_age cfg))"
    unfolding accepted_record_def recent_iff by (elim exE conjE) (rule that)
  have "truthy (JObj fields) \<and> open_envelope (JObj fields) = (JObj d, get_or fields ''sig'' (JStr []))"
    using a(3,4) by (auto simp: get_or_def)
  with a(1,2,5-7) show ?alt unfolding verify_good by blast
next
  assume ?alt
  then obtain store env sig t where a: "file = Doc (JObj store)" "dict_get store ip = Some env"
    "truthy env \<and> open_envelope env = (JObj d, sig)"
    "verify_posture_sig P (posture_signing_secret cfg) (JObj d) sig"
    "num_of (get_or d ''checked_at'' (JInt 0)) = Inr t" "\<not> num_gt (minus_num now t) (of_int (max_posture_age cfg))"
    by (elim exE conjE) (rule that, simp_all)
  from a(3) obtain fields where f: "env = JObj fields" "fields \<noteq> []"
    "dict_get fields ''data'' = Some (JObj d) \<or> dict_get fields ''data'' = None \<and> d = fields"
    "sig = get_or fields ''sig'' (JStr [])"
    unfolding envelope_iff by (elim exE conjE) (rule that)
  show "accepted_record P cfg file now ip d"
    unfolding accepted_record_def recent_iff
    by (intro exI [of _ store] exI [of _ fields] exI [of _ t] conjI a(1) f(2,3) a(5,6))
      (use a(2,4) f(1,4) in \<open>simp_all add: verify_good\<close>)
qed

lemma get_or_null_truthy:
  "truthy (get_or d k JNull) \<Longrightarrow> dict_get d k = Some (get_or d k JNull)"
  by (simp add: get_or_def split: option.splits)

lemma get_posture_cases:
  assumes "get_posture P cfg file now ip = Inr d"
  shows "(\<exists>r. d = unhealthy r) \<or> accepted_record P cfg file now ip d"
proof (cases "file")
  case (Doc doc)
  with assms obtain store where doc: "doc = JObj store"
    by (cases doc) (auto simp: get_posture_def)
  let ?env = "get_or store ip JNull"
  obtain data sig where env: "open_envelope ?env = (data, sig)" by fastforce
  show ?thesis
  proof (cases "truthy ?env \<and> verify_posture_sig P (posture_signing_secret cfg) data sig")
    case False
    with assms Doc doc env show ?thesis by (auto simp: get_posture_def Let_def split: if_splits)
  next
    case True
    with assms Doc doc env have
      "py_bind (as_dict data) (\<lambda>d.
         py_bind (num_of (get_or d ''checked_at'' (JInt 0))) (\<lambda>t.
           if num_gt (minus_num now t) (of_int (max_posture_age cfg))
           then py_bind (py_int (JFloat (minus_num now t))) (\<lambda>_. Inr (unhealthy ''stale posture data''))
           else Inr d)) = Inr d"
      by (simp add: get_posture_def Let_def)
    then obtain d' t where data: "data = JObj d'" and t: "num_of (get_or d' ''checked_at'' (JInt 0)) = Inr t"
      and d: "(\<exists>r. d = unhealthy r) \<or> d = d' \<and> \<not> num_gt (minus_num now t) (of_int (max_posture_age cfg))"
      by (auto simp: py_bind_eq_Inr split: if_splits)
    with True Doc doc env show ?thesis
      unfolding accepted_record_alt using get_or_null_truthy [of store ip] by blast
  qed
qed (use assms in \<open>auto simp: get_posture_def\<close>)

lemma get_posture_accepted:
  assumes "accepted_record P cfg file now ip d"
  shows "get_posture P cfg file now ip = Inr d"
  using assms by (auto simp: accepted_record_alt get_posture_def get_or_def Let_def)

subsection \<open>Properties\<close>

text \<open>
  C7: the posture gate fails closed, exactly. The bridge reports a device healthy if and only if the
  store holds a record for its address that is accepted, with a good signature and a recent \<open>checked_at\<close>
  in the sense above, and whose own verdict is healthy. Without a secret every signature is good, and a
  time in the future is recent.
\<close>

theorem healthy_iff_accepted:
  "(\<exists>d. get_posture P cfg file now ip = Inr d \<and> get_or d ''posture'' JNull = JStr ''healthy'') \<longleftrightarrow>
   (\<exists>d. accepted_record P cfg file now ip d \<and> get_or d ''posture'' JNull = JStr ''healthy'')"
proof -
  have "accepted_record P cfg file now ip d"
    if "get_posture P cfg file now ip = Inr d" "get_or d ''posture'' JNull = JStr ''healthy''" for d
    using get_posture_cases [OF that(1)] that(2) by auto
  then show ?thesis using get_posture_accepted by blast
qed

text \<open>
  The freshness test only looks back. A record whose \<open>checked_at\<close> is NaN or lies in the future
  is accepted at every reading of the clock up to that time, so it never goes stale.
\<close>

theorem future_record_never_stale:
  assumes "dict_get store ip = Some (JObj d)" and "dict_get d ''data'' = None"
    and "posture_signing_secret cfg = []" and "0 \<le> max_posture_age cfg"
    and "dict_get d ''checked_at'' = Some c" "num_of c = Inr t"
    and "t = NaN \<or> t = PosInf \<or> (\<exists>q \<ge> now. t = Fin q)"
  shows "get_posture P cfg (Doc (JObj store)) now ip = Inr d"
proof (rule get_posture_accepted)
  have "d \<noteq> []"
    using assms(5) by auto
  moreover have "\<not> num_gt (minus_num now t) (of_int (max_posture_age cfg))"
  proof -
    have "0 \<le> rat_of_int (max_posture_age cfg)" using assms(4) by simp
    then show ?thesis using assms(7) by (auto simp: not_less intro: order_trans)
  qed
  ultimately show "accepted_record P cfg (Doc (JObj store)) now ip d"
    using assms by (auto simp: accepted_record_alt verify_posture_sig_def get_or_def)
qed

lemma future_record_never_stale_witness:
  "get_posture sample_platform (sample_settings\<lparr>posture_signing_secret := []\<rparr>)
     (Doc (JObj [(''10.8.0.2'', JObj [(''posture'', JStr ''healthy''), (''checked_at'', JFloat NaN)])]))
     2000000000 ''10.8.0.2''
   = Inr [(''posture'', JStr ''healthy''), (''checked_at'', JFloat NaN)]"
  by (rule future_record_never_stale [where t = NaN and c = "JFloat NaN"]) (simp_all add: sample_settings_def)

end
