(* ===== verification/PostureCheck.thy ===== *)
theory PostureCheck
  imports Posture
begin

section \<open>The posture agent\<close>

text \<open>
  \<open>scripts/posture_check.py\<close>: the three checks of a client machine, their verdict, its signature
  and the write into the shared store. The outputs of osquery and \<open>stat\<close>, the clock and the host
  name are the fields of \<open>agent\<close>. Every failure of a check counts as unhealthy.
\<close>

definition MAX_PATCH_AGE_DAYS :: rat where
  "MAX_PATCH_AGE_DAYS = 30"

definition BLOCKLISTED_PROCESSES :: "string list" where
  "BLOCKLISTED_PROCESSES =
     [''nc'', ''ncat'', ''mimikatz'', ''sliver'', ''sliver-server'', ''sliver-client'',
      ''cobaltstrike'', ''teamserver'', ''beacon'', ''brute_ratel'', ''havoc'']"

definition sign_entry :: "platform \<Rightarrow> string \<Rightarrow> json \<Rightarrow> string" where
  "sign_entry P secret data =
     (if secret = [] then []
      else b64encode (hmac_sha256 P secret (dumps_sorted (float_repr P) data)))"

text \<open>\<open>None\<close> is a failed query; a result that JSON reads as \<open>null\<close> is Python's \<open>None\<close> too.\<close>

definition run_osquery :: "run_result \<Rightarrow> json option py" where
  "run_osquery result =
     py_catch [JSONDecodeError, FileNotFoundError]
       (case result of
          Completed out \<Rightarrow> py_bind (loads out) (\<lambda>j. Inr (if j = JNull then None else Some j))
        | _ \<Rightarrow> Inr None)
       (Inr None)"

fun py_len :: "json \<Rightarrow> nat py" where
  "py_len (JStr s) = Inr (length s)"
| "py_len (JArr xs) = Inr (length xs)"
| "py_len (JObj d) = Inr (length d)"
| "py_len _ = Inl TypeError"

definition check_disk_encryption :: "run_result \<Rightarrow> bool py" where
  "check_disk_encryption result =
     py_bind (run_osquery result) (\<lambda>rows.
       case rows of
         None \<Rightarrow> Inr False
       | Some r \<Rightarrow> py_bind (py_len r) (\<lambda>n. Inr (0 < n)))"

text \<open>\<open>except Exception\<close>: whatever goes wrong, the answer is \<open>False\<close>.\<close>

definition check_patch_age :: "run_result \<Rightarrow> rat \<Rightarrow> bool" where
  "check_patch_age result now =
     (case result of
        Completed out \<Rightarrow>
          (case int_of_str (strip out) of
             Inl _ \<Rightarrow> False
           | Inr last_modified \<Rightarrow> (now - of_int last_modified) / 86400 \<le> MAX_PATCH_AGE_DAYS)
      | _ \<Rightarrow> False)"

definition process_name :: "json \<Rightarrow> string py" where
  "process_name row =
     py_bind (as_dict row) (\<lambda>d. py_bind (as_str (get_or d ''name'' (JStr []))) (\<lambda>s. Inr (lower s)))"

text \<open>Iterating over the rows: the items of a list; the keys of a dict and the characters of a
  string are strings, which have no \<open>get\<close>.\<close>

fun py_iter :: "json \<Rightarrow> json list py" where
  "py_iter (JArr xs) = Inr xs"
| "py_iter (JObj d) = Inr (map (\<lambda>(k, _). JStr k) d)"
| "py_iter (JStr s) = Inr (map (\<lambda>c. JStr [c]) s)"
| "py_iter _ = Inl TypeError"

definition check_blocklisted_processes :: "run_result \<Rightarrow> bool py" where
  "check_blocklisted_processes result =
     py_bind (run_osquery result) (\<lambda>rows.
       case rows of
         None \<Rightarrow> Inr False
       | Some r \<Rightarrow>
           py_bind (py_iter r) (\<lambda>items.
           py_bind (py_mapM process_name items) (\<lambda>running.
             Inr (filter (\<lambda>p. p \<in> set (map lower BLOCKLISTED_PROCESSES)) running = []))))"

record agent =
  disk_query :: run_result
  patch_stat :: run_result
  process_query :: run_result
  stat_time :: rat
  check_time :: rat
  host_name :: string
  host_address :: "string option"
  agent_secret :: string

text \<open>\<open>socket.gethostbyname\<close>, and the fallback when it fails.\<close>

definition my_ip :: "agent \<Rightarrow> string" where
  "my_ip A =
     (case host_address A of
        Some ip \<Rightarrow> ip
      | None \<Rightarrow>
          if CHR '':'' \<in> set (host_name A) \<or> CHR ''.'' \<in> set (host_name A) then host_name A
          else ''127.0.0.1'')"

definition posture_entry :: "bool \<Rightarrow> bool \<Rightarrow> bool \<Rightarrow> rat \<Rightarrow> jdict" where
  "posture_entry disk_ok patch_ok process_ok now =
     (let healthy = (disk_ok \<and> patch_ok \<and> process_ok) in
      [(''posture'', JStr (if healthy then ''healthy'' else ''unhealthy'')),
       (''healthy'', JBool healthy),
       (''signals'', JObj [(''disk_encrypted'', JBool disk_ok),
                           (''patch_within_window'', JBool patch_ok),
                           (''no_blocklisted_process'', JBool process_ok)]),
       (''checked_at'', JInt (trunc_rat now))])"

definition seal :: "platform \<Rightarrow> string \<Rightarrow> jdict \<Rightarrow> json" where
  "seal P secret entry = JObj [(''data'', JObj entry), (''sig'', JStr (sign_entry P secret (JObj entry)))]"

text \<open>\<open>store[my_ip] = ..\<close> on a document that is not a dict raises TypeError.\<close>

fun store_item :: "json \<Rightarrow> string \<Rightarrow> json \<Rightarrow> json py" where
  "store_item (JObj d) k v = Inr (JObj (dict_set d k v))"
| "store_item _ k v = Inl TypeError"

definition agent_main :: "platform \<Rightarrow> agent \<Rightarrow> json_file \<Rightarrow> json_file py" where
  "agent_main P A file =
     py_bind (check_disk_encryption (disk_query A)) (\<lambda>disk_ok.
     let patch_ok = check_patch_age (patch_stat A) (stat_time A) in
     py_bind (check_blocklisted_processes (process_query A)) (\<lambda>process_ok.
     py_bind (py_catch [FileNotFoundError, JSONDecodeError] (read_json file) (Inr (JObj []))) (\<lambda>store.
     let entry = posture_entry disk_ok patch_ok process_ok (check_time A) in
     py_bind (store_item store (my_ip A) (seal P (agent_secret A) entry)) (\<lambda>store'.
       Inr (Doc store')))))"

text \<open>A healthy machine, for the worked examples.\<close>

definition sample_agent :: agent where
  "sample_agent =
     \<lparr>disk_query = Completed ''[{}]'', patch_stat = Completed ''1000'', process_query = Completed ''[]'',
      stat_time = 2000, check_time = 2000, host_name = ''laptop'', host_address = Some ''10.8.0.2'',
      agent_secret = ''key''\<rparr>"

lemma sample_loads: "loads ''[{}]'' = Inr (JArr [JObj []])" "loads ''[]'' = Inr (JArr [])"
  by code_simp+

lemma sample_checks:
  "check_disk_encryption (Completed ''[{}]'') = Inr True"
  "check_blocklisted_processes (Completed ''[]'') = Inr True"
  by (simp_all add: check_disk_encryption_def check_blocklisted_processes_def run_osquery_def
      sample_loads)

lemma sample_run:
  "agent_main P sample_agent (Doc (JObj store)) = Inr (Doc (JObj (dict_set store ''10.8.0.2''
     (seal P ''key'' (posture_entry True (check_patch_age (Completed ''1000'') 2000) True 2000)))))"
  by (simp add: agent_main_def sample_agent_def sample_checks my_ip_def)

subsection \<open>Agent and bridge share one signature scheme\<close>

lemma b64encode_not_Nil: "bs \<noteq> [] \<Longrightarrow> b64encode bs \<noteq> []"
  by (cases bs rule: b2a.cases) (simp_all add: b64encode_def)

lemma verify_sign_entry:
  assumes "posture_digest P secret data \<noteq> []"
  shows "verify_posture_sig P secret data (JStr (sign_entry P secret data))"
  using assms b64encode_not_Nil [of "hmac_sha256 P secret (dumps_sorted (float_repr P) data)"]
  by (simp add: verify_posture_sig_def sign_entry_def posture_digest_def b64decode_b64encode)

interpretation hs: signature_scheme "\<lambda>d. JStr (sign_entry P secret d)" "verify_posture_sig P secret"
    "posture_digest P secret" "secret \<noteq> []" "\<lambda>d. posture_digest P secret d \<noteq> []"
  for P secret
proof unfold_locales
  show "verify_posture_sig P secret d (JStr (sign_entry P secret d))" if "posture_digest P secret d \<noteq> []" for d
    using that by (rule verify_sign_entry)
  show "posture_digest P secret d = posture_digest P secret d'"
    if "secret \<noteq> []" "verify_posture_sig P secret d s" "verify_posture_sig P secret d' s" for d s d'
    using that by (auto simp: verify_posture_sig_def split: if_splits sum.splits)
qed

subsection \<open>The written record\<close>

lemma posture_entry_get [simp]:
  "get_or (posture_entry d p b t) ''posture'' x = JStr (if d \<and> p \<and> b then ''healthy'' else ''unhealthy'')"
  "get_or (posture_entry d p b t) ''checked_at'' x = JInt (trunc_rat t)"
  "get_or (posture_entry d p b t) ''healthy'' x = JBool (d \<and> p \<and> b)"
  by (simp_all add: posture_entry_def Let_def)

lemma open_seal [simp]:
  "open_envelope (seal P secret e) = (JObj e, JStr (sign_entry P secret (JObj e)))"
  "truthy (seal P secret e)"
  by (simp_all add: seal_def)

lemma agent_main_writes:
  assumes "agent_main P A file = Inr file'"
  obtains disk_ok process_ok store where
    "check_disk_encryption (disk_query A) = Inr disk_ok"
    "check_blocklisted_processes (process_query A) = Inr process_ok"
    "file = Doc (JObj store) \<or> (file = Missing \<or> file = BadJson) \<and> store = []"
    "file' = Doc (JObj (dict_set store (my_ip A) (seal P (agent_secret A)
        (posture_entry disk_ok (check_patch_age (patch_stat A) (stat_time A)) process_ok (check_time A)))))"
proof -
  from assms obtain disk_ok process_ok doc store' where
    ok: "check_disk_encryption (disk_query A) = Inr disk_ok"
      "check_blocklisted_processes (process_query A) = Inr process_ok"
    and doc: "py_catch [FileNotFoundError, JSONDecodeError] (read_json file) (Inr (JObj [])) = Inr doc"
    and store': "store_item doc (my_ip A) (seal P (agent_secret A)
        (posture_entry disk_ok (check_patch_age (patch_stat A) (stat_time A)) process_ok (check_time A)))
        = Inr store'" "file' = Doc store'"
    by (auto simp: agent_main_def py_bind_eq_Inr Let_def)
  from store' obtain store where "doc = JObj store" by (cases doc) auto
  with doc have "file = Doc (JObj store) \<or> (file = Missing \<or> file = BadJson) \<and> store = []"
    by (cases "file") auto
  with ok store' \<open>doc = JObj store\<close> show ?thesis by (intro that) auto
qed

lemma check_not_completed:
  assumes "\<forall>out. r \<noteq> Completed out"
  shows "check_disk_encryption r = Inr False" "check_blocklisted_processes r = Inr False" "\<not> check_patch_age r t"
proof -
  have "check_disk_encryption r = Inr False \<and> check_blocklisted_processes r = Inr False \<and> \<not> check_patch_age r t"
    using assms
    by (cases r) (simp_all add: check_disk_encryption_def check_blocklisted_processes_def run_osquery_def check_patch_age_def)
  then show "check_disk_encryption r = Inr False" "check_blocklisted_processes r = Inr False" "\<not> check_patch_age r t"
    by simp_all
qed

text \<open>A run ends with a store whenever the checks do and the file is no document of another shape.\<close>

lemma agent_main_runs:
  assumes "check_disk_encryption (disk_query A) = Inr disk_ok"
    and "check_blocklisted_processes (process_query A) = Inr process_ok"
    and "f = Missing \<or> f = BadJson \<or> f = Doc (JObj store)"
  shows "\<exists>store'. agent_main P A f = Inr (Doc (JObj store'))"
  using assms by (auto simp: agent_main_def Let_def)

text \<open>
  C13: the agent fails closed. If any of the three commands behind the checks does not complete, because
  it is missing, fails or hangs, a run still ends and has written, for its own address, a record that says
  \<open>unhealthy\<close>. The store must be missing, malformed or an object, and the output of a query that does
  complete of a shape that its check can read.
\<close>

theorem agent_fails_closed:
  assumes "f = Missing \<or> f = BadJson \<or> f = Doc (JObj store)"
    and "\<forall>out. disk_query A = Completed out \<longrightarrow> (\<exists>b. check_disk_encryption (Completed out) = Inr b)"
    and "\<forall>out. process_query A = Completed out \<longrightarrow> (\<exists>b. check_blocklisted_processes (Completed out) = Inr b)"
    and "(\<forall>out. disk_query A \<noteq> Completed out) \<or> (\<forall>out. patch_stat A \<noteq> Completed out) \<or>
      (\<forall>out. process_query A \<noteq> Completed out)"
  shows "\<exists>store' e. agent_main P A f = Inr (Doc (JObj store')) \<and>
    dict_get store' (my_ip A) = Some (seal P (agent_secret A) e) \<and>
    get_or e ''posture'' JNull = JStr ''unhealthy''"
proof -
  obtain disk_ok where disk: "check_disk_encryption (disk_query A) = Inr disk_ok"
    using assms(2) check_not_completed(1) [of "disk_query A"] by (cases "disk_query A") auto
  obtain process_ok where process: "check_blocklisted_processes (process_query A) = Inr process_ok"
    using assms(3) check_not_completed(2) [of "process_query A"] by (cases "process_query A") auto
  obtain store' where run: "agent_main P A f = Inr (Doc (JObj store'))"
    using agent_main_runs [OF disk process assms(1)] by blast
  then show ?thesis
  proof (cases rule: agent_main_writes)
    case (1 disk_ok' process_ok' old)
    then have "\<not> (disk_ok' \<and> check_patch_age (patch_stat A) (stat_time A) \<and> process_ok')"
      using assms(4) check_not_completed by auto
    then show ?thesis
      using 1 run by (auto simp: pd.lookup_store)
  qed
qed

lemma written_record_read:
  assumes run: "agent_main P A file = Inr file'"
    and disk: "check_disk_encryption (disk_query A) = Inr disk_ok"
    and procs: "check_blocklisted_processes (process_query A) = Inr process_ok"
    and secret: "posture_signing_secret cfg = agent_secret A"
    and digest: "\<forall>e. posture_digest P (agent_secret A) e \<noteq> []"
    and fresh: "now - of_int (trunc_rat (check_time A)) \<le> of_int (max_posture_age cfg)"
  shows "get_posture P cfg file' now (my_ip A) =
    Inr (posture_entry disk_ok (check_patch_age (patch_stat A) (stat_time A)) process_ok (check_time A))"
proof (rule get_posture_accepted)
  let ?e = "posture_entry disk_ok (check_patch_age (patch_stat A) (stat_time A)) process_ok (check_time A)"
  from run obtain store where "file' = Doc (JObj (dict_set store (my_ip A) (seal P (agent_secret A) ?e)))"
    using disk procs by (cases rule: agent_main_writes) auto
  moreover have "verify_posture_sig P (posture_signing_secret cfg) (JObj ?e)
      (JStr (sign_entry P (agent_secret A) (JObj ?e)))"
    using hs.verify_sign [of P "agent_secret A" "JObj ?e"] digest secret by simp
  ultimately show "accepted_record P cfg file' now (my_ip A) ?e"
    using fresh by (auto simp: accepted_record_alt pd.lookup_store)
qed

text \<open>
  C12: what the agent signs, the bridge believes. After a run of the agent, the bridge with the same
  secret reads exactly the verdict of the three checks for that address, as long as the record is
  not older than the limit; the keyed digest of the record must not be empty.
\<close>

theorem agent_to_bridge:
  assumes run: "agent_main P A file = Inr file'"
    and disk: "check_disk_encryption (disk_query A) = Inr disk_ok"
    and procs: "check_blocklisted_processes (process_query A) = Inr process_ok"
    and secret: "posture_signing_secret cfg = agent_secret A"
    and digest: "\<forall>e. posture_digest P (agent_secret A) e \<noteq> []"
    and fresh: "now - of_int (trunc_rat (check_time A)) \<le> of_int (max_posture_age cfg)"
  shows "get_posture P cfg file' now (my_ip A) =
    Inr (posture_entry disk_ok (check_patch_age (patch_stat A) (stat_time A)) process_ok (check_time A))"
  by (rule written_record_read [OF assms])

text \<open>
  A run of the agent leaves every other device's record as it was.
\<close>

lemma other_records_kept:
  assumes "agent_main P A (Doc (JObj store)) = Inr file'" "ip \<noteq> my_ip A"
  shows "get_posture P cfg file' now ip = get_posture P cfg (Doc (JObj store)) now ip"
  using assms(1)
proof (cases rule: agent_main_writes)
  case (1 disk_ok process_ok store')
  then show ?thesis using assms(2) by (auto simp: get_posture_def)
qed

lemma other_records_kept_example:
  "get_posture sample_platform sample_settings (Doc (JObj (dict_set [] ''10.8.0.2''
       (seal sample_platform ''key'' (posture_entry True (check_patch_age (Completed ''1000'') 2000) True 2000)))))
     2300 ''10.8.0.3''
   = get_posture sample_platform sample_settings (Doc (JObj [])) 2300 ''10.8.0.3''"
  by (rule other_records_kept [OF sample_run]) (simp add: sample_agent_def my_ip_def)

lemma written_store:
  assumes "agent_main P A f = Inr (Doc j)" "\<forall>i. f = Doc i \<longrightarrow> wf_json i \<and> no_float i"
  shows "wf_json j \<and> no_float j"
  using assms(1)
proof (cases rule: agent_main_writes)
  case (1 disk_ok process_ok store)
  let ?env = "seal P (agent_secret A)
    (posture_entry disk_ok (check_patch_age (patch_stat A) (stat_time A)) process_ok (check_time A))"
  have "wf_json (JObj store) \<and> no_float (JObj store)" using 1(3) assms(2) by (auto simp: is_dict_def)
  moreover have "wf_json ?env \<and> no_float ?env" by (simp add: seal_def posture_entry_def is_dict_def Let_def)
  ultimately show ?thesis
    using 1(4) wf_dict_set [of store ?env "my_ip A"] by simp
qed

subsection \<open>The file as text\<close>

text \<open>What \<open>open\<close> and \<open>json.load\<close> make of a file that is missing or holds a text, and the text that a run writes.\<close>

definition file_of_text :: "string option \<Rightarrow> json_file py" where
  "file_of_text content =
     (case content of
        None \<Rightarrow> Inr Missing
      | Some t \<Rightarrow>
          (case loads t of
             Inr j \<Rightarrow> Inr (Doc j)
           | Inl e \<Rightarrow> if e = JSONDecodeError then Inr BadJson else Inl e))"

definition agent_writes :: "platform \<Rightarrow> agent \<Rightarrow> string option \<Rightarrow> string py" where
  "agent_writes P A content =
     py_bind (file_of_text content) (\<lambda>f.
     py_bind (agent_main P A f) (\<lambda>f'.
     py_bind (read_json f') (\<lambda>store.
       Inr (dumps_indent (float_repr P) 0 store))))"

lemma agent_writes_cases:
  assumes "agent_writes P A content = Inr t" "\<forall>s j. content = Some s \<and> loads s = Inr j \<longrightarrow> no_float j"
  obtains f j where "file_of_text content = Inr f" "agent_main P A f = Inr (Doc j)" "no_float j"
    "file_of_text (Some t) = Inr (Doc j)"
proof -
  from assms(1) obtain f f' j where f: "file_of_text content = Inr f" and run: "agent_main P A f = Inr f'"
    and j: "read_json f' = Inr j" "t = dumps_indent (float_repr P) 0 j"
    by (auto simp: agent_writes_def py_bind_eq_Inr)
  from j(1) have f': "f' = Doc j" by (cases f') auto
  have "\<forall>i. f = Doc i \<longrightarrow> wf_json i \<and> no_float i"
    using f assms(2) loads_wf by (auto simp: file_of_text_def split: option.splits sum.splits if_splits)
  with run f' have "wf_json j \<and> no_float j" using written_store by blast
  then show ?thesis using that [OF f] run f' j(2) by (simp add: file_of_text_def loads_dumps_indent)
qed

text \<open>
  C15: the verdict survives the file. When a run has read the text of the store, if there was one, and
  written the indented text of the new one, the bridge that parses this text with the same secret reads
  for the machine's address the results of the three checks, the verdict \<open>healthy\<close> exactly when all three
  passed, and the time of the run, as long as the record is not older than the limit, and for every other
  address what it would have read before. The store found must be
  free of floats, and the keyed digest not empty; the store written is free of floats again.
\<close>

theorem verdict_survives_file:
  assumes "agent_writes P A content = Inr t"
    and "\<forall>s j. content = Some s \<and> loads s = Inr j \<longrightarrow> no_float j"
    and "check_disk_encryption (disk_query A) = Inr disk_ok"
    and "check_blocklisted_processes (process_query A) = Inr process_ok"
    and "posture_signing_secret cfg = agent_secret A" "\<forall>e. posture_digest P (agent_secret A) e \<noteq> []"
    and "now - of_int (trunc_rat (check_time A)) \<le> of_int (max_posture_age cfg)"
  shows "\<exists>j d. file_of_text (Some t) = Inr (Doc j) \<and> no_float j \<and>
    get_posture P cfg (Doc j) now (my_ip A) = Inr d \<and>
    get_or d ''posture'' JNull =
      JStr (if disk_ok \<and> check_patch_age (patch_stat A) (stat_time A) \<and> process_ok then ''healthy'' else ''unhealthy'') \<and>
    get_or d ''signals'' JNull = JObj [(''disk_encrypted'', JBool disk_ok),
      (''patch_within_window'', JBool (check_patch_age (patch_stat A) (stat_time A))),
      (''no_blocklisted_process'', JBool process_ok)] \<and>
    get_or d ''checked_at'' JNull = JInt (trunc_rat (check_time A)) \<and>
    (\<forall>store ip. file_of_text content = Inr (Doc (JObj store)) \<and> ip \<noteq> my_ip A \<longrightarrow>
       get_posture P cfg (Doc j) now ip = get_posture P cfg (Doc (JObj store)) now ip)"
proof -
  obtain f j where f: "file_of_text content = Inr f" "agent_main P A f = Inr (Doc j)" "no_float j"
    "file_of_text (Some t) = Inr (Doc j)"
    using assms(1,2) by (rule agent_writes_cases)
  moreover have "get_posture P cfg (Doc j) now ip = get_posture P cfg (Doc (JObj store)) now ip"
    if "file_of_text content = Inr (Doc (JObj store))" "ip \<noteq> my_ip A" for store ip
    using other_records_kept [OF _ that(2), of P store "Doc j"] f(1,2) that(1) by simp
  moreover have "get_or (posture_entry a b c u) ''signals'' JNull = JObj [(''disk_encrypted'', JBool a),
      (''patch_within_window'', JBool b), (''no_blocklisted_process'', JBool c)]" for a b c u
    by (simp add: posture_entry_def Let_def)
  ultimately show ?thesis
    using written_record_read [OF f(2) assms(3-7)] f(3)
    by (intro exI [of _ j] exI [of _ "posture_entry disk_ok (check_patch_age (patch_stat A) (stat_time A)) process_ok
      (check_time A)"] conjI) simp_all
qed

text \<open>
  C14: a record cannot be edited. With a secret set, the signature that the agent made for a record is
  valid for other data exactly when the data are the same up to the order of keys, and for any other data
  under it the bridge reports an invalid signature. The data are documents without floats and without
  duplicate keys, the digest is not empty, and HMAC tells the texts of the two documents apart when they
  differ.
\<close>

theorem tampered_record_rejected:
  assumes "posture_signing_secret cfg = secret" "secret \<noteq> []"
    and "plain_json (JObj e)" "plain_json data"
    and "hmac_sha256 P secret (dumps_sorted (float_repr P) (JObj e)) \<noteq> []"
    and "hmac_sha256 P secret (dumps_sorted (float_repr P) data) =
        hmac_sha256 P secret (dumps_sorted (float_repr P) (JObj e)) \<longrightarrow>
      dumps_sorted (float_repr P) data = dumps_sorted (float_repr P) (JObj e)"
    and "dict_get store ip = Some (JObj [(''data'', data), (''sig'', JStr (sign_entry P secret (JObj e)))])"
  shows "(verify_posture_sig P secret data (JStr (sign_entry P secret (JObj e))) \<longleftrightarrow> canon data = canon (JObj e)) \<and>
    (canon data \<noteq> canon (JObj e) \<longrightarrow>
       get_posture P cfg (Doc (JObj store)) now ip = Inr (unhealthy ''invalid posture signature''))"
proof -
  have made: "verify_posture_sig P secret (JObj e) (JStr (sign_entry P secret (JObj e)))"
    using hs.verify_sign [of P secret "JObj e"] assms(5) by (simp add: posture_digest_def)
  have iff: "verify_posture_sig P secret data (JStr (sign_entry P secret (JObj e))) \<longleftrightarrow> canon data = canon (JObj e)"
  proof
    assume "canon data = canon (JObj e)"
    then have "posture_digest P secret data = posture_digest P secret (JObj e)"
      by (simp add: posture_digest_def dumps_sorted_def)
    with made show "verify_posture_sig P secret data (JStr (sign_entry P secret (JObj e)))"
      by (simp only: verify_posture_sig_def)
  next
    assume "verify_posture_sig P secret data (JStr (sign_entry P secret (JObj e)))"
    then have "posture_digest P secret data = posture_digest P secret (JObj e)"
      using hs.verify_digest [OF assms(2) _ made] by blast
    then have "dumps_sorted (float_repr P) data = dumps_sorted (float_repr P) (JObj e)"
      using assms(6) by (simp add: posture_digest_def)
    with assms(3,4) show "canon data = canon (JObj e)"
      unfolding plain_json_def by (blast intro: dumps_sorted_inject)
  qed
  then show ?thesis
    using assms(1,7) by (auto simp: get_posture_def get_or_def Let_def)
qed

subsection \<open>Worked examples\<close>

lemma sample_digest: "posture_digest sample_platform ''key'' e \<noteq> []"
  by (simp add: posture_digest_def sample_platform_def)

lemma agent_fails_closed_witness:
  "\<exists>store e. agent_main sample_platform (sample_agent\<lparr>patch_stat := TimeoutExpired\<rparr>) Missing =
      Inr (Doc (JObj store)) \<and> get_or e ''posture'' JNull = JStr ''unhealthy'' \<and>
    dict_get store ''10.8.0.2'' = Some (seal sample_platform ''key'' e)"
proof -
  let ?A = "sample_agent\<lparr>patch_stat := TimeoutExpired\<rparr>"
  have ip: "my_ip ?A = ''10.8.0.2''" "agent_secret ?A = ''key''" by (simp_all add: sample_agent_def my_ip_def)
  have "\<exists>store' e. agent_main sample_platform ?A Missing = Inr (Doc (JObj store')) \<and>
      dict_get store' (my_ip ?A) = Some (seal sample_platform (agent_secret ?A) e) \<and>
      get_or e ''posture'' JNull = JStr ''unhealthy''"
    by (rule agent_fails_closed) (auto simp: sample_agent_def sample_checks)
  then show ?thesis unfolding ip by blast
qed

lemma agent_to_bridge_witness:
  "get_posture sample_platform sample_settings
     (Doc (JObj (dict_set [] ''10.8.0.2''
       (seal sample_platform ''key'' (posture_entry True (check_patch_age (Completed ''1000'') 2000) True 2000)))))
     2300 ''10.8.0.2''
   = Inr (posture_entry True (check_patch_age (Completed ''1000'') 2000) True 2000)"
  using agent_to_bridge [OF sample_run, of True True sample_settings sample_platform 2300 "[]"]
  by (simp add: sample_agent_def sample_checks sample_settings_def sample_digest my_ip_def trunc_rat_def)

text \<open>A record signed as unhealthy, with its verdict replaced.\<close>

definition failed_record :: jdict where
  "failed_record = [(''posture'', JStr ''unhealthy''), (''checked_at'', JInt 1000)]"

definition forged_record :: jdict where
  "forged_record = [(''posture'', JStr ''healthy''), (''checked_at'', JInt 1000)]"

lemma tampered_record_rejected_witness:
  "get_posture sample_platform sample_settings
     (Doc (JObj [(''10.8.0.2'', JObj [(''data'', JObj forged_record),
        (''sig'', JStr (sign_entry sample_platform ''key'' (JObj failed_record)))])]))
     1000 ''10.8.0.2'' = Inr (unhealthy ''invalid posture signature'')"
proof -
  have "canon (JObj forged_record) \<noteq> canon (JObj failed_record)" by code_simp
  moreover have "plain_json (JObj failed_record)" "plain_json (JObj forged_record)"
    by (simp_all add: plain_json_def failed_record_def forged_record_def is_dict_def)
  ultimately show ?thesis
    using tampered_record_rejected [of sample_settings "''key''" failed_record "JObj forged_record" sample_platform
        "[(''10.8.0.2'', JObj [(''data'', JObj forged_record),
          (''sig'', JStr (sign_entry sample_platform ''key'' (JObj failed_record)))])]" "''10.8.0.2''" 1000]
    by (simp add: sample_settings_def sample_platform_def)
qed

text \<open>A store with another device, and the run of the sample agent on its text.\<close>

definition other_store :: jdict where
  "other_store = [(''10.8.0.3'', JObj forged_record)]"

lemma verdict_survives_file_witness:
  "\<exists>t j d. agent_writes sample_platform sample_agent
      (Some (dumps_indent (float_repr sample_platform) 0 (JObj other_store))) = Inr t \<and>
    file_of_text (Some t) = Inr (Doc j) \<and>
    get_posture sample_platform sample_settings (Doc j) 2300 ''10.8.0.2'' = Inr d \<and>
    get_or d ''posture'' JNull = JStr ''healthy''"
proof -
  let ?old = "dumps_indent (float_repr sample_platform) 0 (JObj other_store)"
  have plain: "wf_json (JObj other_store)" "no_float (JObj other_store)"
    by (simp_all add: other_store_def forged_record_def is_dict_def)
  then have old: "loads ?old = Inr (JObj other_store)" by (rule loads_dumps_indent)
  obtain t where run: "agent_writes sample_platform sample_agent (Some ?old) = Inr t"
    by (simp add: agent_writes_def file_of_text_def old sample_run del: dumps_indent.simps)
  have ip: "my_ip sample_agent = ''10.8.0.2''" by (simp add: sample_agent_def my_ip_def)
  let ?patch = "check_patch_age (patch_stat sample_agent) (stat_time sample_agent)"
  have "check_patch_age (Completed ''1000'') 2000" by code_simp
  then have patch: "?patch" by (simp add: sample_agent_def)
  have "\<exists>j d. file_of_text (Some t) = Inr (Doc j) \<and> no_float j \<and>
      get_posture sample_platform sample_settings (Doc j) 2300 (my_ip sample_agent) = Inr d \<and>
      get_or d ''posture'' JNull = JStr (if True \<and> ?patch \<and> True then ''healthy'' else ''unhealthy'') \<and>
      get_or d ''signals'' JNull = JObj [(''disk_encrypted'', JBool True), (''patch_within_window'', JBool ?patch),
        (''no_blocklisted_process'', JBool True)] \<and>
      get_or d ''checked_at'' JNull = JInt (trunc_rat (check_time sample_agent)) \<and>
      (\<forall>store ip. file_of_text (Some ?old) = Inr (Doc (JObj store)) \<and> ip \<noteq> my_ip sample_agent \<longrightarrow>
        get_posture sample_platform sample_settings (Doc j) 2300 ip =
          get_posture sample_platform sample_settings (Doc (JObj store)) 2300 ip)"
    using run by (rule verdict_survives_file)
      (use old plain(2) in \<open>simp_all add: sample_agent_def sample_checks sample_settings_def sample_digest trunc_rat_def del: dumps_indent.simps\<close>)
  then obtain j d where "file_of_text (Some t) = Inr (Doc j)"
    "get_posture sample_platform sample_settings (Doc j) 2300 (my_ip sample_agent) = Inr d"
    "get_or d ''posture'' JNull = JStr (if True \<and> ?patch \<and> True then ''healthy'' else ''unhealthy'')"
    by (elim exE conjE)
  with run patch ip show ?thesis
    by (intro exI [of _ t] exI [of _ j] exI [of _ d]) simp
qed

end
