(* ===== verification/Policy.thy ===== *)
theory Policy
  imports Http
begin

section \<open>The authorization policy\<close>

text \<open>
  \<open>gateway/opa/policy.rego\<close>, rule by rule. A Rego rule is a condition on the input document and the
  clock (\<open>time.now_ns() / 10^9\<close>, the parameter \<open>now\<close>); a reference to an absent field is undefined,
  which fails a condition and satisfies its negation. \<open>reason\<close> is a complete rule with several
  definitions: it has a value when all the definitions that apply agree, and is in conflict otherwise.

  \<open>policy_decision_point\<close> is what the bridge relies on: the guarantees of a positive decision.
\<close>

subsection \<open>References and conditions\<close>

fun ref :: "json \<Rightarrow> string list \<Rightarrow> json option" where
  "ref j [] = Some j"
| "ref (JObj d) (k # ks) = (case dict_get d k of None \<Rightarrow> None | Some v \<Rightarrow> ref v ks)"
| "ref _ (k # ks) = None"

text \<open>An expression holds when it is defined and not \<open>false\<close>.\<close>

definition holds :: "json option \<Rightarrow> bool" where
  "holds v = (v \<noteq> None \<and> v \<noteq> Some (JBool False))"

fun rego_num :: "json \<Rightarrow> rat option" where
  "rego_num (JInt i) = Some (of_int i)"
| "rego_num (JFloat (Fin q)) = Some q"
| "rego_num _ = None"

text \<open>\<open>x > 0\<close> in Rego's order of types: null, booleans, numbers, strings, arrays, objects.\<close>

fun positive :: "json \<Rightarrow> bool" where
  "positive JNull = False"
| "positive (JBool _) = False"
| "positive (JInt i) = (0 < i)"
| "positive (JFloat x) = num_gt x 0"
| "positive _ = True"

definition path_starts :: "json \<Rightarrow> string \<Rightarrow> bool" where
  "path_starts inp p = (case ref inp [''path''] of Some (JStr s) \<Rightarrow> startswith s p | _ \<Rightarrow> False)"

subsection \<open>Age of the session\<close>

definition sensitive_reauth_window_seconds :: rat where
  "sensitive_reauth_window_seconds = 300"

definition valid_auth_time :: "json \<Rightarrow> bool" where
  "valid_auth_time inp = (case ref inp [''user'', ''auth_time''] of None \<Rightarrow> False | Some v \<Rightarrow> positive v)"

definition seconds_since_auth :: "rat \<Rightarrow> json \<Rightarrow> rat option" where
  "seconds_since_auth now inp =
     (if valid_auth_time inp
      then map_option (\<lambda>t. now - t) (Option.bind (ref inp [''user'', ''auth_time'']) rego_num)
      else None)"

definition fresh_auth :: "rat \<Rightarrow> json \<Rightarrow> bool" where
  "fresh_auth now inp =
     (case seconds_since_auth now inp of
        None \<Rightarrow> False
      | Some s \<Rightarrow> s \<le> sensitive_reauth_window_seconds)"

definition session_age_hours :: "rat \<Rightarrow> json \<Rightarrow> rat option" where
  "session_age_hours now inp = map_option (\<lambda>s. s / 3600) (seconds_since_auth now inp)"

definition stale_session :: "rat \<Rightarrow> json \<Rightarrow> bool" where
  "stale_session now inp = (case session_age_hours now inp of None \<Rightarrow> False | Some h \<Rightarrow> 8 < h)"

definition very_stale_session :: "rat \<Rightarrow> json \<Rightarrow> bool" where
  "very_stale_session now inp = (case session_age_hours now inp of None \<Rightarrow> False | Some h \<Rightarrow> 24 < h)"

subsection \<open>Identity, posture and clearance\<close>

definition base_ok :: "json \<Rightarrow> bool" where
  "base_ok inp =
     (ref inp [''user'', ''authenticated''] = Some (JBool True) \<and>
      ref inp [''user'', ''mfa_verified''] = Some (JBool True) \<and>
      ref inp [''device'', ''posture''] = Some (JStr ''healthy''))"

definition is_admin_user :: "json \<Rightarrow> bool" where
  "is_admin_user inp = (ref inp [''user'', ''is_admin''] = Some (JBool True))"

definition not_admin_user :: "json \<Rightarrow> bool" where
  "not_admin_user inp = (ref inp [''user'', ''is_admin''] = Some (JBool False))"

definition clearance_level :: "json \<Rightarrow> nat option" where
  "clearance_level role =
     map_of [(JStr ''admin'', 3), (JStr ''devops'', 2), (JStr ''user'', 1), (JStr ''anonymous'', 0)] role"

definition required_clearance :: "json \<Rightarrow> nat option" where
  "required_clearance cls =
     map_of [(JStr ''critical'', 3), (JStr ''restricted'', 2), (JStr ''internal'', 1), (JStr ''public'', 0)] cls"

definition classified :: "json \<Rightarrow> bool" where
  "classified inp = holds (ref inp [''data'', ''classification''])"

definition clearance_pair :: "json \<Rightarrow> (nat \<times> nat) option" where
  "clearance_pair inp =
     Option.bind (Option.bind (ref inp [''user'', ''role'']) clearance_level) (\<lambda>c.
     Option.bind (Option.bind (ref inp [''data'', ''classification'']) required_clearance) (\<lambda>r.
       Some (c, r)))"

definition data_access_ok :: "json \<Rightarrow> bool" where
  "data_access_ok inp =
     (\<not> classified inp \<or>
      (classified inp \<and> (case clearance_pair inp of None \<Rightarrow> False | Some (c, r) \<Rightarrow> r \<le> c)))"

definition clearance_insufficient :: "json \<Rightarrow> bool" where
  "clearance_insufficient inp = (case clearance_pair inp of None \<Rightarrow> False | Some (c, r) \<Rightarrow> c < r)"

subsection \<open>\<open>allow\<close>\<close>

text \<open>The bodies of the rules named \<open>allow\<close>, in the order of the file; any one suffices.\<close>

definition allow_rules :: "rat \<Rightarrow> json \<Rightarrow> bool list" where
  "allow_rules now inp =
     [base_ok inp \<and> path_starts inp ''/admin'' \<and> is_admin_user inp \<and> \<not> very_stale_session now inp,
      base_ok inp \<and> path_starts inp ''/api/peers'' \<and> is_admin_user inp \<and> \<not> very_stale_session now inp,
      base_ok inp \<and> \<not> path_starts inp ''/sensitive'' \<and> \<not> path_starts inp ''/admin'' \<and>
        \<not> path_starts inp ''/api/peers'' \<and> \<not> very_stale_session now inp,
      base_ok inp \<and> path_starts inp ''/sensitive'' \<and> fresh_auth now inp,
      base_ok inp \<and> path_starts inp ''/public'' \<and> \<not> very_stale_session now inp \<and> data_access_ok inp,
      base_ok inp \<and> path_starts inp ''/sensitive'' \<and> fresh_auth now inp \<and> data_access_ok inp,
      base_ok inp \<and> path_starts inp ''/admin'' \<and> is_admin_user inp \<and>
        \<not> very_stale_session now inp \<and> data_access_ok inp,
      base_ok inp \<and> path_starts inp ''/api/peers'' \<and> is_admin_user inp \<and>
        \<not> very_stale_session now inp \<and> data_access_ok inp]"

definition allow :: "rat \<Rightarrow> json \<Rightarrow> bool" where
  "allow now inp = list_ex (\<lambda>b. b) (allow_rules now inp)"

subsection \<open>\<open>reason\<close>\<close>

definition reason_rules :: "rat \<Rightarrow> json \<Rightarrow> (string \<times> bool) list" where
  "reason_rules now inp =
     [(''denied: insufficient clearance for data classification'',
         base_ok inp \<and> classified inp \<and> clearance_insufficient inp),
      (''denied: session too old (>24h), full re-authentication required'',
         base_ok inp \<and> very_stale_session now inp),
      (''denied: session stale (>8h), step-up re-auth required for sensitive'',
         base_ok inp \<and> stale_session now inp \<and> \<not> very_stale_session now inp \<and>
         \<not> fresh_auth now inp \<and> path_starts inp ''/sensitive''),
      (''denied: user not authenticated'',
         \<not> holds (ref inp [''user'', ''authenticated''])),
      (''denied: mfa not verified'',
         holds (ref inp [''user'', ''authenticated'']) \<and> \<not> holds (ref inp [''user'', ''mfa_verified''])),
      (''denied: device posture unhealthy'',
         holds (ref inp [''user'', ''authenticated'']) \<and> holds (ref inp [''user'', ''mfa_verified'']) \<and>
         ref inp [''device'', ''posture''] \<noteq> None \<and>
         ref inp [''device'', ''posture''] \<noteq> Some (JStr ''healthy'')),
      (''denied: sensitive path requires re-auth within 5 minutes'',
         base_ok inp \<and> path_starts inp ''/sensitive'' \<and> \<not> fresh_auth now inp \<and>
         \<not> stale_session now inp),
      (''denied: admin access requires admin role'',
         base_ok inp \<and> path_starts inp ''/admin'' \<and> not_admin_user inp),
      (''denied: peer API requires admin role'',
         base_ok inp \<and> path_starts inp ''/api/peers'' \<and> not_admin_user inp),
      (''allowed'', allow now inp)]"

datatype decision_reason = Reason string | Conflict

definition reason :: "rat \<Rightarrow> json \<Rightarrow> decision_reason" where
  "reason now inp =
     (case remdups (map fst (filter snd (reason_rules now inp))) of
        [] \<Rightarrow> Reason ''denied: no matching allow rule''
      | [r] \<Rightarrow> Reason r
      | _ \<Rightarrow> Conflict)"


subsection \<open>The contract of a decision\<close>

text \<open>The paths for administrators, as the policy sees them.\<close>

definition admin_path :: "json \<Rightarrow> bool" where
  "admin_path inp = (path_starts inp ''/admin'' \<or> path_starts inp ''/api/peers'')"

locale policy_decision_point =
  fixes decide :: "rat \<Rightarrow> json \<Rightarrow> bool"
  assumes default_deny: "decide now inp \<Longrightarrow> base_ok inp"
    and admin_only: "decide now inp \<Longrightarrow> admin_path inp \<Longrightarrow> is_admin_user inp"
    and step_up: "decide now inp \<Longrightarrow> path_starts inp ''/sensitive'' \<Longrightarrow> fresh_auth now inp"
    and session_limit: "decide now inp \<Longrightarrow> \<not> very_stale_session now inp"
begin

lemma permit_needs:
  "decide now inp \<Longrightarrow>
    ref inp [''user'', ''authenticated''] = Some (JBool True) \<and>
    ref inp [''user'', ''mfa_verified''] = Some (JBool True) \<and>
    ref inp [''device'', ''posture''] = Some (JStr ''healthy'')"
  using default_deny [of now inp] by (simp add: base_ok_def)

lemma no_document: "\<not> decide now JNull"
  using permit_needs [of now JNull] by auto

lemma non_admin_kept_out:
  "ref inp [''user'', ''is_admin''] \<noteq> Some (JBool True) \<Longrightarrow> admin_path inp \<Longrightarrow> \<not> decide now inp"
  using admin_only [of now inp] by (auto simp: is_admin_user_def)

end

lemma path_starts_append:
  "path_starts inp (p @ q) \<Longrightarrow> path_starts inp p"
  by (auto simp: path_starts_def startswith_def prefix_def split: option.splits json.splits)

lemma path_starts_exclusive:
  "path_starts inp p \<Longrightarrow> path_starts inp q \<Longrightarrow> prefix p q \<or> prefix q p"
  by (auto simp: path_starts_def startswith_def split: option.splits json.splits
      dest: prefix_same_cases)

lemma path_starts_sensitive:
  "path_starts inp ''/sensitive'' \<Longrightarrow> \<not> path_starts inp ''/admin'' \<and> \<not> path_starts inp ''/api/peers''"
  using path_starts_exclusive [of inp "''/sensitive''" "''/admin''"]
    path_starts_exclusive [of inp "''/sensitive''" "''/api/peers''"] by auto

lemma path_starts_public:
  "path_starts inp ''/public'' \<Longrightarrow>
    \<not> path_starts inp ''/sensitive'' \<and> \<not> path_starts inp ''/admin'' \<and> \<not> path_starts inp ''/api/peers''"
  using path_starts_exclusive [of inp "''/public''" "''/admin''"]
    path_starts_exclusive [of inp "''/public''" "''/sensitive''"]
    path_starts_exclusive [of inp "''/public''" "''/api/peers''"] by auto

lemma fresh_not_very_stale: "fresh_auth now inp \<Longrightarrow> \<not> very_stale_session now inp"
  by (auto simp: fresh_auth_def very_stale_session_def session_age_hours_def
      sensitive_reauth_window_seconds_def split: option.splits)

lemma very_stale_imp_stale: "very_stale_session now inp \<Longrightarrow> stale_session now inp"
  by (auto simp: stale_session_def very_stale_session_def split: option.splits)

text \<open>The decision, as one condition per kind of path.\<close>

definition allow_spec :: "rat \<Rightarrow> json \<Rightarrow> bool" where
  "allow_spec now inp \<longleftrightarrow>
     base_ok inp \<and> (path_starts inp ''/sensitive'' \<longrightarrow> fresh_auth now inp) \<and>
     (admin_path inp \<longrightarrow> is_admin_user inp) \<and> \<not> very_stale_session now inp"

lemma allow_eq_spec: "allow now inp = allow_spec now inp"
  using path_starts_sensitive [of inp] path_starts_public [of inp] fresh_not_very_stale [of now inp]
  by (simp add: allow_def allow_rules_def allow_spec_def admin_path_def) argo

lemma seconds_since_auth_later:
  "seconds_since_auth now inp = Some s \<Longrightarrow> seconds_since_auth now' inp = Some (s + (now' - now))"
  by (auto simp: seconds_since_auth_def split: if_splits)

lemma seconds_since_auth_none: "seconds_since_auth now inp = None \<Longrightarrow> seconds_since_auth now' inp = None"
  by (auto simp: seconds_since_auth_def split: if_splits)

interpretation rego: policy_decision_point allow
  by unfold_locales (simp_all add: allow_eq_spec allow_spec_def)


text \<open>What holds of the reasons when the decision is positive.\<close>

lemma only_first_and_last:
  assumes "list_all (\<lambda>r. \<not> snd r) rs" "q"
  shows "filter snd ((a, p) # rs @ [(b, q)]) = (if p then [(a, True), (b, True)] else [(b, True)])"
proof -
  have "filter snd rs = []" using assms(1) by (induction rs) auto
  then show ?thesis using assms(2) by simp
qed

lemma reasons_when_allowed:
  assumes "allow now inp"
  shows "filter snd (reason_rules now inp) =
    (if base_ok inp \<and> classified inp \<and> clearance_insufficient inp
     then [(''denied: insufficient clearance for data classification'', True), (''allowed'', True)]
     else [(''allowed'', True)])"
proof -
  have spec: "base_ok inp" "\<not> very_stale_session now inp"
    "path_starts inp ''/sensitive'' \<Longrightarrow> fresh_auth now inp"
    "path_starts inp ''/admin'' \<Longrightarrow> \<not> not_admin_user inp"
    "path_starts inp ''/api/peers'' \<Longrightarrow> \<not> not_admin_user inp"
    using assms by (auto simp: allow_eq_spec allow_spec_def admin_path_def is_admin_user_def not_admin_user_def)
  have gate: "holds (ref inp [''user'', ''authenticated''])" "holds (ref inp [''user'', ''mfa_verified''])"
    "ref inp [''device'', ''posture''] = Some (JStr ''healthy'')"
    using spec(1) by (simp_all add: base_ok_def holds_def del: ref.simps)
  have deny: "list_all (\<lambda>r. \<not> snd r) (tl (butlast (reason_rules now inp)))"
    by (simp only: reason_rules_def butlast.simps list.sel list.pred_inject list.distinct if_False if_True simp_thms(6) snd_conv)
      (use spec gate in blast)
  have "reason_rules now inp = (''denied: insufficient clearance for data classification'',
        base_ok inp \<and> classified inp \<and> clearance_insufficient inp) #
      tl (butlast (reason_rules now inp)) @ [(''allowed'', allow now inp)]"
    by (simp only: reason_rules_def butlast.simps list.sel append.simps list.distinct if_False if_True simp_thms(6))
  then show ?thesis
    using only_first_and_last [OF deny assms] by (rule ssubst)
qed

lemma reason_allowed_fired: "reason now inp = Reason ''allowed'' \<Longrightarrow> allow now inp"
proof -
  assume r: "reason now inp = Reason ''allowed''"
  let ?rs = "remdups (map fst (filter snd (reason_rules now inp)))"
  from r have "?rs = [''allowed'']"
    by (auto simp: reason_def split: list.splits)
  then have "''allowed'' \<in> fst ` set (filter snd (reason_rules now inp))"
    by (metis list.set_intros(1) set_map set_remdups)
  then have "(''allowed'', True) \<in> set (reason_rules now inp)"
    by auto
  then show "allow now inp"
    by (simp add: reason_rules_def)
qed

subsection \<open>Properties\<close>

text \<open>
  C8: the eight rules of the policy decide exactly this: the identity and posture gate, a fresh
  authentication for \<open>/sensitive\<close>, the administrator claim for \<open>/admin\<close> and \<open>/api/peers\<close>, and no
  session older than a day.
\<close>

theorem allow_exact: "allow now inp \<longleftrightarrow> allow_spec now inp"
  by (rule allow_eq_spec)

text \<open>
  C9: data classification takes no part in the decision. Whatever the \<open>data\<close> section of the input
  says, \<open>allow\<close> gives the same answer, although the comments of the policy describe it as an
  additional gate.
\<close>

theorem classification_ignored:
  "allow now (JObj (dict_set inp ''data'' x)) = allow now (JObj inp)"
proof -
  have "ref (JObj (dict_set inp ''data'' x)) (k # ks) = ref (JObj inp) (k # ks)" if "k \<noteq> ''data''" for k ks
    using that by (simp add: pd.lookup_store_other)
  then show ?thesis
    by (simp add: allow_eq_spec allow_spec_def base_ok_def admin_path_def is_admin_user_def path_starts_def
        fresh_auth_def very_stale_session_def session_age_hours_def seconds_since_auth_def valid_auth_time_def
        del: ref.simps)
qed

text \<open>
  C10: the published reason agrees with the decision, with one exception: it is \<open>allowed\<close> exactly
  when access is allowed and no clearance rule fires, and it is in conflict when access is allowed to
  a caller whose clearance is below the classification.
\<close>

theorem reason_agrees_with_allow:
  "(reason now inp = Reason ''allowed'' \<longleftrightarrow>
      allow now inp \<and> \<not> (classified inp \<and> clearance_insufficient inp)) \<and>
   (allow now inp \<and> classified inp \<and> clearance_insufficient inp \<longrightarrow> reason now inp = Conflict)"
  using reason_allowed_fired [of now inp]
    rego.default_deny [of now inp]
  by (cases "allow now inp") (auto simp: reason_def reasons_when_allowed)

text \<open>
  Time only takes access away: what is allowed at some time was allowed with the same document
  at every earlier time.
\<close>

theorem allow_expires:
  assumes "now \<le> now'" "allow now' inp"
  shows "allow now inp"
proof (cases "seconds_since_auth now inp")
  case None
  then show ?thesis
    using assms seconds_since_auth_none [OF None, of now']
    by (simp add: allow_eq_spec allow_spec_def fresh_auth_def very_stale_session_def session_age_hours_def)
next
  case (Some s)
  have "s / 3600 \<le> (s + (now' - now)) / 3600" using assms(1) by simp
  then show ?thesis
    using assms seconds_since_auth_later [OF Some, of now'] Some
    by (auto simp: allow_eq_spec allow_spec_def fresh_auth_def very_stale_session_def session_age_hours_def)
qed

text \<open>A document the policy allows: an administrator, a minute after authentication.\<close>

definition sample_input :: "string \<Rightarrow> json" where
  "sample_input path =
     JObj [(''user'', JObj [(''authenticated'', JBool True), (''mfa_verified'', JBool True),
                            (''auth_time'', JInt 1000), (''is_admin'', JBool True), (''role'', JStr ''user'')]),
           (''device'', JObj [(''posture'', JStr ''healthy'')]),
           (''data'', JObj [(''classification'', JStr ''critical'')]),
           (''path'', JStr path)]"

lemmas policy_eval = allow_eq_spec allow_spec_def base_ok_def admin_path_def is_admin_user_def
  path_starts_def fresh_auth_def very_stale_session_def session_age_hours_def seconds_since_auth_def
  valid_auth_time_def sensitive_reauth_window_seconds_def

lemma allow_expires_witness:
  "allow 1060 (sample_input ''/sensitive'') \<and> allow 1030 (sample_input ''/sensitive'')"
proof -
  have "allow 1060 (sample_input ''/sensitive'')"
    by (simp add: policy_eval sample_input_def)
  then show ?thesis using allow_expires [of 1030 1060] by simp
qed


text \<open>An administrator whose role is sent as \<open>user\<close> and a critical path: allowed, with a conflict.\<close>

lemma reason_agrees_with_allow_witness:
  "allow 1060 (sample_input ''/admin'') \<and> reason 1060 (sample_input ''/admin'') = Conflict"
proof -
  have "allow 1060 (sample_input ''/admin'')"
    by (simp add: policy_eval sample_input_def)
  moreover have "classified (sample_input ''/admin'')" "clearance_insufficient (sample_input ''/admin'')"
    by (simp_all add: sample_input_def classified_def clearance_insufficient_def clearance_pair_def holds_def
        clearance_level_def required_clearance_def)
  ultimately show ?thesis
    using reason_agrees_with_allow [of 1060 "sample_input ''/admin''"] by blast
qed

end
