(* ===== verification/AuditLog.thy ===== *)
theory AuditLog
  imports Http
begin

section \<open>The audit log\<close>

text \<open>
  \<open>gateway/authz-bridge/app.py\<close>, \<open>_write_audit_log\<close>. The log is the text of the file
  \<open>AUDIT_LOG_PATH\<close>, opened for appending; when it cannot be written the event is dropped and the
  request goes on. \<open>append_log\<close> is the contract between the writers and whoever reads the log line
  by line.
\<close>

text \<open>The clock and the file, as one call finds them: the formatted time, and whether \<open>open\<close> succeeds.\<close>

record log_file =
  lf_stamp :: string
  lf_writable :: bool

definition stamped :: "log_file \<Rightarrow> jdict \<Rightarrow> json" where
  "stamped lf event = JObj (dict_set event ''timestamp'' (JStr (lf_stamp lf)))"

definition write_audit_log :: "platform \<Rightarrow> log_file \<Rightarrow> jdict \<Rightarrow> string \<Rightarrow> string" where
  "write_audit_log P lf event written =
     (if lf_writable lf then written @ dumps_default (float_repr P) (stamped lf event) @ [newline]
      else written)"

subsection \<open>Reading the log\<close>

text \<open>The lines of a file whose last line is complete, and the documents on them.\<close>

definition log_lines :: "string \<Rightarrow> string list" where
  "log_lines written = butlast (split_on newline written)"

definition log_entries :: "string \<Rightarrow> json py list" where
  "log_entries written = map loads (log_lines written)"

definition complete_lines :: "string \<Rightarrow> bool" where
  "complete_lines written = (written = [] \<or> last written = newline)"

locale append_log =
  fixes append :: "'e \<Rightarrow> 'l \<Rightarrow> 'l" and entries :: "'l \<Rightarrow> 'r list" and view :: "'e \<Rightarrow> 'r"
    and intact :: "'l \<Rightarrow> bool" and loggable :: "'e \<Rightarrow> bool"
  assumes entries_append: "intact l \<Longrightarrow> loggable e \<Longrightarrow> entries (append e l) = entries l @ [view e]"
    and intact_append: "intact l \<Longrightarrow> loggable e \<Longrightarrow> intact (append e l)"
begin

lemma intact_fold: "intact l \<Longrightarrow> list_all loggable es \<Longrightarrow> intact (fold append es l)"
  by (induction es arbitrary: l) (auto simp: intact_append)

lemma entries_fold:
  "intact l \<Longrightarrow> list_all loggable es \<Longrightarrow> entries (fold append es l) = entries l @ map view es"
  by (induction es arbitrary: l) (auto simp: intact_append entries_append)

text \<open>Nothing that is logged later changes or hides an earlier entry.\<close>

lemma entries_kept:
  "intact l \<Longrightarrow> list_all loggable es \<Longrightarrow> take (length (entries l)) (entries (fold append es l)) = entries l"
  by (simp add: entries_fold)

lemma entries_count:
  "intact l \<Longrightarrow> list_all loggable es \<Longrightarrow> length (entries (fold append es l)) = length (entries l) + length es"
  by (simp add: entries_fold)

end

subsection \<open>The log file keeps the contract\<close>

lemma split_on_snoc_sep:
  "split_on c (a @ [c]) = split_on c a @ [[]]"
proof (induction a)
  case (Cons x a)
  then show ?case
    by (cases "split_on c a") auto
qed simp

lemma split_on_line:
  assumes "complete_lines l" "newline \<notin> set s"
  shows "split_on newline (l @ s @ [newline]) = butlast (split_on newline l) @ [s, []]"
proof (cases "l = []")
  case True
  with assms(2) show ?thesis
    using split_on_snoc_sep [of newline s] by (simp add: split_on_absent)
next
  case False
  with assms(1) obtain l' where l: "l = l' @ [newline]"
    by (metis append_butlast_last_id complete_lines_def)
  have "split_on newline (l' @ newline # s @ [newline]) = split_on newline l' @ split_on newline (s @ [newline])"
  proof (induction l')
    case (Cons x l')
    then show ?case by (cases "split_on newline l'") auto
  qed simp
  with assms(2) show ?thesis
    by (simp add: l split_on_snoc_sep split_on_absent)
qed

lemma log_lines_append:
  assumes "complete_lines l" "newline \<notin> set s"
  shows "log_lines (l @ s @ [newline]) = log_lines l @ [s]"
  unfolding log_lines_def split_on_line [OF assms] by (simp add: butlast_append)

text \<open>An event is loggable when it is a dictionary without floats: what the handlers write.\<close>

definition loggable_event :: "jdict \<Rightarrow> bool" where
  "loggable_event event = plain_json (JObj event)"

lemma plain_stamped:
  assumes "loggable_event event"
  shows "plain_json (stamped lf event)"
  using assms wf_dict_set [of event "JStr (lf_stamp lf)" "''timestamp''"]
  by (simp add: loggable_event_def plain_json_def stamped_def)

lemma stamped_line:
  assumes "loggable_event event"
  shows "newline \<notin> set (dumps_default fr (stamped lf event))"
  using plain_stamped [OF assms, of lf] printable_dumps_default [of "stamped lf event" fr]
  by (auto simp: plain_json_def dest: printable_no_newline)

text \<open>A write to the log: the state of the file, and the event.\<close>

type_synonym log_write = "log_file \<times> jdict"

definition write_event :: "platform \<Rightarrow> log_write \<Rightarrow> string \<Rightarrow> string" where
  "write_event P w = write_audit_log P (fst w) (snd w)"

definition logged :: "log_write \<Rightarrow> json py" where
  "logged w = Inr (stamped (fst w) (snd w))"

definition succeeds :: "log_write \<Rightarrow> bool" where
  "succeeds w = (lf_writable (fst w) \<and> loggable_event (snd w))"

interpretation audit: append_log "write_event P" log_entries logged complete_lines succeeds for P
proof unfold_locales
  fix l w
  assume l: "complete_lines l" and w: "succeeds w"
  then have e: "loggable_event (snd w)" and ok: "lf_writable (fst w)" by (simp_all add: succeeds_def)
  show "log_entries (write_event P w l) = log_entries l @ [logged w]"
    using log_lines_append [OF l stamped_line [OF e]] plain_stamped [OF e] ok
    by (simp add: write_event_def write_audit_log_def log_entries_def plain_json_def logged_def
        loads_dumps_default)
  show "complete_lines (write_event P w l)"
    using ok by (simp add: write_event_def write_audit_log_def complete_lines_def)
qed

lemma fold_write_failed:
  "fold (write_event P) ws l = fold (write_event P) (filter (\<lambda>w. lf_writable (fst w)) ws) l"
  by (induction ws arbitrary: l) (auto simp: write_event_def write_audit_log_def)

subsection \<open>Property\<close>

text \<open>
  C33: the audit log cannot be forged through the logged values. After any sequence of writes, each
  line of the file parses back to exactly one event, in order, whatever characters the paths,
  addresses and emails contain; writes that find the file closed leave no trace, and earlier lines
  stay. The events contain no floats, and the last line of the file before the writes is complete.
\<close>

theorem audit_log_faithful:
  assumes "complete_lines l" "\<forall>w \<in> set ws. loggable_event (snd w)"
  shows "log_entries (fold (write_event P) ws l) =
    log_entries l @ map logged (filter (\<lambda>w. lf_writable (fst w)) ws)"
proof -
  have "list_all succeeds (filter (\<lambda>w. lf_writable (fst w)) ws)"
    using assms(2) by (auto simp: list_all_iff succeeds_def)
  then show ?thesis
    using audit.entries_fold [OF assms(1)] fold_write_failed [of P ws l] by simp
qed

lemma audit_log_faithful_witness:
  "log_entries (fold (write_event sample_platform)
     [(\<lparr>lf_stamp = ''t'', lf_writable = False\<rparr>, [(''path'', JStr ''/x'')]),
      (\<lparr>lf_stamp = ''t'', lf_writable = True\<rparr>, [(''path'', JStr [newline, quot])])] [])
   = [Inr (JObj [(''path'', JStr [newline, quot]), (''timestamp'', JStr ''t'')])]"
proof -
  have start: "complete_lines []" "log_entries [] = []"
    by (simp_all add: complete_lines_def log_entries_def log_lines_def)
  show ?thesis
    by (subst audit_log_faithful)
      (simp_all add: start loggable_event_def plain_json_def is_dict_def logged_def stamped_def dict_set_def)
qed

end
