(* ===== verification/Validate.thy ===== *)
theory Validate
  imports Identity Posture Policy AuditLog
begin

section \<open>The enforcement decision\<close>

text \<open>
  \<open>gateway/authz-bridge/app.py\<close>, \<open>validate\<close>: the endpoint nginx asks before it forwards a request.
  It gathers identity and posture, sends one document to OPA, writes one audit event and answers
  200, 401 or 403. The record \<open>world\<close> holds what lies outside the bridge: oauth2-proxy, OPA, the
  posture store, the clock and the audit file. A handler returns its response together with the text
  of the audit log afterwards.
\<close>

record world =
  w_oauth :: "string \<Rightarrow> reply"
  w_opa :: "string \<Rightarrow> json \<Rightarrow> headers \<Rightarrow> reply"
  w_store :: json_file
  w_now :: rat
  w_log :: log_file

definition single_quoted :: "string \<Rightarrow> string" where
  "single_quoted s = CHR 0x27 # s @ [CHR 0x27]"

definition content_security_policy :: string where
  "content_security_policy =
     ''default-src '' @ single_quoted ''self'' @
     ''; style-src '' @ single_quoted ''self'' @ '' '' @ single_quoted ''unsafe-inline'' @
     ''; script-src '' @ single_quoted ''self'' @ '' '' @ single_quoted ''unsafe-inline''"

definition set_security_headers :: "response \<Rightarrow> response" where
  "set_security_headers r =
     set_header ''Content-Security-Policy'' content_security_policy
     (set_header ''X-XSS-Protection'' ''1; mode=block''
     (set_header ''X-Frame-Options'' ''DENY''
     (set_header ''X-Content-Type-Options'' ''nosniff'' r)))"

subsection \<open>The input document\<close>

definition data_classification :: "string \<Rightarrow> string" where
  "data_classification original_uri =
     (let path_lower = lower original_uri in
      if list_ex (startswith path_lower) [''/admin'', ''/api/peers''] then ''critical''
      else if startswith path_lower ''/sensitive'' then ''restricted''
      else if startswith path_lower ''/api/data'' then ''restricted''
      else ''public'')"

definition user_role :: "jdict \<Rightarrow> string" where
  "user_role identity = (if truthy (get_or identity ''is_admin'' JNull) then ''admin'' else ''user'')"

text \<open>The value under \<open>input\<close>.\<close>

definition opa_input :: "string \<Rightarrow> string \<Rightarrow> jdict \<Rightarrow> jdict \<Rightarrow> json" where
  "opa_input original_uri source_ip identity posture =
     JObj [(''user'', JObj
              [(''authenticated'', get_or identity ''authenticated'' (JBool False)),
               (''mfa_verified'', get_or identity ''mfa_verified'' (JBool False)),
               (''auth_time'', get_or identity ''auth_time'' (JInt 0)),
               (''email'', get_or identity ''email'' (JStr [])),
               (''is_admin'', get_or identity ''is_admin'' (JBool False)),
               (''role'', JStr (user_role identity))]),
           (''device'', JObj
              [(''ip'', JStr source_ip),
               (''posture'', get_or posture ''posture'' (JStr ''unhealthy''))]),
           (''data'', JObj [(''classification'', JStr (data_classification original_uri))]),
           (''path'', JStr original_uri)]"

subsection \<open>Asking OPA\<close>

text \<open>
  \<open>requests.post(json=..)\<close> refuses a document with NaN or an infinity, and \<open>.json()\<close> a body that is
  no JSON, both with a RequestException. Both requests are made before either body is read.
\<close>

fun finite_json :: "json \<Rightarrow> bool" where
  "finite_json (JFloat (Fin _)) = True"
| "finite_json (JFloat _) = False"
| "finite_json (JArr xs) = (\<forall>x \<in> set xs. finite_json x)"
| "finite_json (JObj d) = (\<forall>(k, v) \<in> set d. finite_json v)"
| "finite_json _ = True"

definition opa_headers :: "settings \<Rightarrow> headers" where
  "opa_headers cfg =
     (if opa_auth_token cfg = [] then [] else [(''Authorization'', ''Bearer '' @ opa_auth_token cfg)])"

definition opa_post :: "settings \<Rightarrow> world \<Rightarrow> string \<Rightarrow> json \<Rightarrow> string option" where
  "opa_post cfg W rule inp =
     (if \<not> finite_json inp then None
      else case w_opa W (opa_url cfg @ rule) (JObj [(''input'', inp)]) (opa_headers cfg) of
        RequestFailed \<Rightarrow> None
      | Reply _ _ body \<Rightarrow> Some body)"

definition opa_result :: "string \<Rightarrow> json \<Rightarrow> json py" where
  "opa_result body dflt =
     py_bind (loads_bytes body) (\<lambda>j. py_bind (as_dict j) (\<lambda>d. Inr (get_or d ''result'' dflt)))"

definition unreachable :: string where
  "unreachable = ''denied: policy engine unreachable''"

text \<open>The pair \<open>allowed\<close>, \<open>reason\<close> after the \<open>try\<close> statement.\<close>

definition ask_opa :: "settings \<Rightarrow> world \<Rightarrow> json \<Rightarrow> (json \<times> json) py" where
  "ask_opa cfg W inp =
     (case (opa_post cfg W ''/allow'' inp, opa_post cfg W ''/reason'' inp) of
        (Some allow_body, Some reason_body) \<Rightarrow>
          (case opa_result allow_body (JBool False) of
             Inl e \<Rightarrow> if e = JSONDecodeError then Inr (JBool False, JStr unreachable) else Inl e
           | Inr allowed \<Rightarrow>
               (case opa_result reason_body (JStr ''unknown'') of
                  Inl e \<Rightarrow> if e = JSONDecodeError then Inr (allowed, JStr unreachable) else Inl e
                | Inr why \<Rightarrow> Inr (allowed, why)))
      | _ \<Rightarrow> Inr (JBool False, JStr unreachable))"

subsection \<open>The handler\<close>

definition access_event :: "string \<Rightarrow> string \<Rightarrow> jdict \<Rightarrow> json \<Rightarrow> json \<Rightarrow> jdict" where
  "access_event original_uri source_ip identity allowed why =
     [(''event'', JStr ''access_decision''), (''path'', JStr original_uri), (''source_ip'', JStr source_ip),
      (''email'', get_or identity ''email'' (JStr [])), (''allowed'', allowed), (''reason'', why)]"

definition decision_response :: "platform \<Rightarrow> jdict \<Rightarrow> json \<Rightarrow> json \<Rightarrow> response py" where
  "decision_response P identity allowed why =
     (let str = py_str (float_repr P);
          clearance_header = ''clearance='' @ str (get_or identity ''role'' (JStr ''user''))
      in
      if truthy allowed then
        empty_response 200 [(''X-ZTLab-Reason'', str why), (''X-ZTLab-Clearance'', clearance_header)]
      else if \<not> truthy (get_or identity ''authenticated'' (JBool False)) then
        empty_response 401 [(''X-ZTLab-Reason'', str why), (''Location'', ''/oauth2/sign_in'')]
      else empty_response 403 [(''X-ZTLab-Reason'', str why)])"

definition original_uri :: "request \<Rightarrow> string" where
  "original_uri req = header_or (req_headers req) ''X-Original-URI'' ''/''"

definition source_ip :: "request \<Rightarrow> string" where
  "source_ip req =
     header_or (req_headers req) ''X-Forwarded-For'' (case req_remote req of None \<Rightarrow> [] | Some a \<Rightarrow> a)"

definition validate :: "platform \<Rightarrow> settings \<Rightarrow> world \<Rightarrow> request \<Rightarrow> string \<Rightarrow> response py \<times> string" where
  "validate P cfg W req written =
     (case check_identity P (w_oauth W) (req_headers req) of
        Inl e \<Rightarrow> (Inl e, written)
      | Inr identity \<Rightarrow>
     (case get_posture P cfg (w_store W) (w_now W) (source_ip req) of
        Inl e \<Rightarrow> (Inl e, written)
      | Inr posture \<Rightarrow>
     (case ask_opa cfg W (opa_input (original_uri req) (source_ip req) identity posture) of
        Inl e \<Rightarrow> (Inl e, written)
      | Inr (allowed, why) \<Rightarrow>
          (decision_response P identity allowed why,
           write_audit_log P (w_log W)
             (access_event (original_uri req) (source_ip req) identity allowed why) written))))"


subsection \<open>What a decision rests on\<close>

lemma validate_cases:
  assumes "validate P cfg W req l = (Inr r, l')"
  obtains identity posture allowed why where
    "check_identity P (w_oauth W) (req_headers req) = Inr identity"
    "get_posture P cfg (w_store W) (w_now W) (source_ip req) = Inr posture"
    "ask_opa cfg W (opa_input (original_uri req) (source_ip req) identity posture) = Inr (allowed, why)"
    "decision_response P identity allowed why = Inr r"
    "l' = write_audit_log P (w_log W)
       (access_event (original_uri req) (source_ip req) identity allowed why) l"
  using assms by (auto simp: validate_def split: sum.splits prod.splits)

lemma decision_status:
  assumes "decision_response P identity allowed why = Inr r"
  shows "resp_status r =
    (if truthy allowed then 200
     else if truthy (get_or identity ''authenticated'' (JBool False)) then 403 else 401)"
  using assms by (auto simp: decision_response_def Let_def dest!: empty_response_Inr split: if_splits)


lemma clearance_header:
  assumes "check_identity P oauth hs = Inr identity" "decision_response P identity allowed why = Inr r"
    and "resp_status r = 200"
  shows "resp_header r ''X-ZTLab-Clearance'' = Some ''clearance=user''"
proof -
  have "lower ''X-ZTLab-Reason'' \<noteq> lower ''X-ZTLab-Clearance''"
    by code_simp
  moreover have "truthy allowed"
    using decision_status [OF assms(2)] assms(3) by (auto split: if_splits)
  ultimately show ?thesis
    using assms(2) identity_no_role [OF assms(1)]
    by (simp add: decision_response_def Let_def) (drule empty_response_Inr, simp add: resp_header_def)
qed

lemma ask_opa_allowed:
  assumes "ask_opa cfg W inp = Inr (allowed, why)" "truthy allowed"
  shows "\<exists>body d. opa_post cfg W ''/allow'' inp = Some body \<and> opa_post cfg W ''/reason'' inp \<noteq> None \<and>
    loads_bytes body = Inr (JObj d) \<and> get_or d ''result'' (JBool False) = allowed"
  using assms
  by (auto simp: ask_opa_def opa_result_def py_bind_eq_Inr
      split: option.splits sum.splits if_splits)

lemma opa_post_Some:
  "opa_post cfg W rule inp = Some body \<Longrightarrow>
    finite_json inp \<and>
    (\<exists>st rh. w_opa W (opa_url cfg @ rule) (JObj [(''input'', inp)]) (opa_headers cfg) = Reply st rh body)"
  by (auto simp: opa_post_def split: if_splits reply.splits)

subsection \<open>The policy on the bridge's documents\<close>

definition admin_uri :: "string \<Rightarrow> bool" where
  "admin_uri uri = (startswith uri ''/admin'' \<or> startswith uri ''/api/peers'')"

lemma opa_input_ref [simp]:
  "ref (opa_input uri ip identity posture) [''user'', ''authenticated''] =
     Some (get_or identity ''authenticated'' (JBool False))"
  "ref (opa_input uri ip identity posture) [''user'', ''mfa_verified''] =
     Some (get_or identity ''mfa_verified'' (JBool False))"
  "ref (opa_input uri ip identity posture) [''user'', ''auth_time''] =
     Some (get_or identity ''auth_time'' (JInt 0))"
  "ref (opa_input uri ip identity posture) [''user'', ''is_admin''] =
     Some (get_or identity ''is_admin'' (JBool False))"
  "ref (opa_input uri ip identity posture) [''device'', ''posture''] =
     Some (get_or posture ''posture'' (JStr ''unhealthy''))"
  "ref (opa_input uri ip identity posture) [''path''] = Some (JStr uri)"
  by (simp_all add: opa_input_def)

lemma path_starts_opa_input [simp]: "path_starts (opa_input uri ip identity posture) p = startswith uri p"
  by (simp add: path_starts_def)

lemma admin_path_opa_input [simp]: "admin_path (opa_input uri ip identity posture) = admin_uri uri"
  by (simp add: admin_path_def admin_uri_def)

context policy_decision_point
begin

lemma permitted_request:
  assumes "decide now (opa_input uri ip identity posture)"
  shows "get_or identity ''authenticated'' (JBool False) = JBool True \<and>
    get_or identity ''mfa_verified'' (JBool False) = JBool True \<and>
    get_or posture ''posture'' (JStr ''unhealthy'') = JStr ''healthy'' \<and>
    (admin_uri uri \<longrightarrow> get_or identity ''is_admin'' (JBool False) = JBool True)"
  using permit_needs [OF assms] admin_only [OF assms] by (simp add: is_admin_user_def)

lemma anonymous_refused: "\<not> decide now (opa_input uri ip not_authenticated posture)"
  using permitted_request [of now uri ip not_authenticated posture] by auto

lemma unhealthy_refused: "\<not> decide now (opa_input uri ip identity (unhealthy why))"
  using permitted_request [of now uri ip identity "unhealthy why"] by auto

end

text \<open>The session part of the policy, on an authentication time in seconds.\<close>

definition session_ok :: "rat \<Rightarrow> int \<Rightarrow> string \<Rightarrow> bool" where
  "session_ok now t uri =
     (if startswith uri ''/sensitive'' then 0 < t \<and> now - of_int t \<le> 300
      else 0 < t \<longrightarrow> now - of_int t \<le> 86400)"

lemma allow_opa_input:
  "allow now (opa_input uri ip (identity_of email mfa t groups adm) posture) \<longleftrightarrow>
     mfa \<and> get_or posture ''posture'' (JStr ''unhealthy'') = JStr ''healthy'' \<and>
     session_ok now t uri \<and> (admin_uri uri \<longrightarrow> adm)"
proof -
  have "24 < (now - of_int t) / 3600 \<longleftrightarrow> 86400 < now - rat_of_int t"
    by (simp add: field_simps)
  then show ?thesis
    by (auto simp: policy_eval session_ok_def admin_uri_def)
qed


text \<open>
  OPA's REST interface: a POST of a document to \<open>/allow\<close> returns an object whose \<open>result\<close> is the
  value of \<open>allow\<close> for it, at OPA's reading \<open>now\<close> of the clock.
\<close>

definition serves_policy :: "settings \<Rightarrow> world \<Rightarrow> rat \<Rightarrow> bool" where
  "serves_policy cfg W now \<longleftrightarrow>
     (\<forall>inp. finite_json inp \<longrightarrow>
       (\<exists>st rh body d. w_opa W (opa_url cfg @ ''/allow'') (JObj [(''input'', inp)]) (opa_headers cfg) = Reply st rh body \<and>
          loads_bytes body = Inr (JObj d) \<and> get_or d ''result'' (JBool False) = JBool (allow now inp)))"

lemma served_decision:
  assumes "serves_policy cfg W now" "ask_opa cfg W inp = Inr (allowed, why)" "truthy allowed"
  shows "allow now inp"
proof -
  from ask_opa_allowed [OF assms(2,3)] obtain body d where
    post: "opa_post cfg W ''/allow'' inp = Some body" and d: "loads_bytes body = Inr (JObj d)"
      "get_or d ''result'' (JBool False) = allowed"
    by blast
  from opa_post_Some [OF post] obtain st rh where "finite_json inp"
    "w_opa W (opa_url cfg @ ''/allow'') (JObj [(''input'', inp)]) (opa_headers cfg) = Reply st rh body"
    by blast
  with assms(1) d have "allowed = JBool (allow now inp)"
    unfolding serves_policy_def by fastforce
  with assms(3) show ?thesis by simp
qed

lemma served_answer:
  assumes "serves_policy cfg W now" "finite_json inp"
    and "opa_post cfg W ''/reason'' inp = Some rb" "opa_result rb (JStr ''unknown'') = Inr why"
  shows "ask_opa cfg W inp = Inr (JBool (allow now inp), why)"
proof -
  from assms(1,2) obtain st rh body d where
    "w_opa W (opa_url cfg @ ''/allow'') (JObj [(''input'', inp)]) (opa_headers cfg) = Reply st rh body"
    and d: "loads_bytes body = Inr (JObj d)" "get_or d ''result'' (JBool False) = JBool (allow now inp)"
    unfolding serves_policy_def by blast
  then have "opa_post cfg W ''/allow'' inp = Some body"
    using assms(2) by (simp add: opa_post_def)
  then show ?thesis
    using d assms(3,4) by (simp add: ask_opa_def opa_result_def)
qed

lemma no_breaks [simp]: "\<not> line_breaks ''clearance=user''" "\<not> line_breaks ''/oauth2/sign_in''"
  by (simp_all add: line_breaks_def)

text \<open>The whole handler, for an authenticated caller and an OPA that answers.\<close>

definition may_pass :: "rat \<Rightarrow> string \<Rightarrow> bool \<Rightarrow> int \<Rightarrow> bool \<Rightarrow> jdict \<Rightarrow> bool" where
  "may_pass now uri mfa t adm posture \<longleftrightarrow>
     mfa \<and> get_or posture ''posture'' (JStr ''unhealthy'') = JStr ''healthy'' \<and>
     session_ok now t uri \<and> (admin_uri uri \<longrightarrow> adm)"

lemma validate_decision:
  assumes "serves_policy cfg W now"
    and "check_identity P (w_oauth W) (req_headers req) = Inr (identity_of email mfa t groups adm)"
    and "get_posture P cfg (w_store W) (w_now W) (source_ip req) = Inr posture"
    and "finite_json (opa_input (original_uri req) (source_ip req) (identity_of email mfa t groups adm) posture)"
    and "opa_post cfg W ''/reason''
      (opa_input (original_uri req) (source_ip req) (identity_of email mfa t groups adm) posture) = Some rb"
    and "opa_result rb (JStr ''unknown'') = Inr (JStr s)" "\<not> line_breaks s"
  shows "\<exists>r. fst (validate P cfg W req l) = Inr r \<and> resp_header r ''X-ZTLab-Reason'' = Some s \<and>
    resp_status r = (if may_pass now (original_uri req) mfa t adm posture then 200 else 403)"
  using served_answer [OF assms(1,4,5,6)] assms(2,3,7)
  by (simp add: validate_def decision_response_def empty_response_def resp_header_def allow_opa_input
      may_pass_def Let_def)

text \<open>
  A token without an authentication time, which the bridge reads as 0, is never too old for a path
  other than \<open>/sensitive\<close>: the age of its session is undefined.
\<close>

lemma untimed_session_never_stale:
  "t \<le> 0 \<Longrightarrow> \<not> startswith uri ''/sensitive'' \<Longrightarrow>
    allow now (opa_input uri ip (identity_of email mfa t groups adm) posture) \<longleftrightarrow>
      mfa \<and> get_or posture ''posture'' (JStr ''unhealthy'') = JStr ''healthy'' \<and> (admin_uri uri \<longrightarrow> adm)"
  by (simp add: allow_opa_input session_ok_def)

subsection \<open>A worked example\<close>

text \<open>An OPA with the policy, an administrator's token, a healthy device.\<close>

definition policy_server :: "settings \<Rightarrow> rat \<Rightarrow> string \<Rightarrow> json \<Rightarrow> headers \<Rightarrow> reply" where
  "policy_server cfg now url doc hs =
     (let inp = (case ref doc [''input''] of None \<Rightarrow> JNull | Some inp \<Rightarrow> inp) in
      Reply 200 [] (dumps_default (\<lambda>_. [])
        (JObj [(''result'', if url = opa_url cfg @ ''/allow'' then JBool (allow now inp) else JStr ''r'')])))"

definition sample_claims :: json where
  "sample_claims =
     JObj [(''email'', JStr ''a@b.c''), (''auth_time'', JInt 1000), (''amr'', JArr [JStr ''webauthn'']),
           (''groups'', JArr [JStr ''admins''])]"

definition open_settings :: settings where
  "open_settings = sample_settings\<lparr>posture_signing_secret := []\<rparr>"

definition sample_record :: jdict where
  "sample_record = [(''posture'', JStr ''healthy''), (''checked_at'', JInt 1000)]"

definition sample_world :: world where
  "sample_world =
     \<lparr>w_oauth = (\<lambda>_. Reply 202
        [(''Authorization'',
          ''Bearer '' @ ''h'' @ ''.'' @ segment_enc (dumps_default (\<lambda>_. []) sample_claims) @ ''.'' @ ''s'')] []),
      w_opa = policy_server open_settings 1060,
      w_store = Doc (JObj [(''10.8.0.2'', JObj sample_record)]), w_now = 1060,
      w_log = \<lparr>lf_stamp = ''t'', lf_writable = True\<rparr>\<rparr>"

definition sample_request :: "string \<Rightarrow> request" where
  "sample_request uri =
     \<lparr>req_method = ''GET'', req_path = ''/validate'', req_headers = [(''X-Original-URI'', uri)],
      req_remote = Some ''10.8.0.2'', req_json = None, req_form = []\<rparr>"

lemma sample_request_simps [simp]:
  "original_uri (sample_request uri) = uri" "source_ip (sample_request uri) = ''10.8.0.2''"
  "header_or (req_headers (sample_request uri)) ''Cookie'' [] = []"
  by (simp_all add: original_uri_def source_ip_def sample_request_def header_or_def lower_def lower_char_def
      codepoint_def)

lemma policy_server_result:
  "loads_bytes (dumps_default (\<lambda>_. []) (JObj [(''result'', JBool b)])) = Inr (JObj [(''result'', JBool b)])"
  "loads_bytes (dumps_default (\<lambda>_. []) (JObj [(''result'', JStr ''r'')])) = Inr (JObj [(''result'', JStr ''r'')])"
  by (rule loads_bytes_dumps_default, simp add: plain_json_def is_dict_def)+

lemma sample_served: "serves_policy open_settings sample_world 1060"
  unfolding serves_policy_def
  by (auto simp: sample_world_def policy_server_def Let_def policy_server_result)

lemma sample_identity:
  "check_identity P (w_oauth sample_world) hs =
     Inr (identity_of (JStr ''a@b.c'') True 1000 (JArr [JStr ''admins'']) True)"
proof -
  have "decode_id_token (''Bearer '' @ ''h'' @ ''.'' @ segment_enc (dumps_default (\<lambda>_. []) sample_claims) @ ''.'' @ ''s'')
      = Inr sample_claims"
    by (rule decode_token) (simp_all add: plain_json_def is_dict_def sample_claims_def)
  then show ?thesis
    by (simp add: check_identity_def sample_world_def header_or_def sample_claims_def mfa_in_amr_def identity_of_def
        del: append.simps)
qed

lemma sample_posture:
  "get_posture P open_settings (w_store sample_world) (w_now sample_world) ''10.8.0.2'' = Inr sample_record"
  by (rule get_posture_accepted)
    (simp add: accepted_record_alt sample_world_def open_settings_def sample_settings_def sample_record_def
      verify_posture_sig_def)

lemma sample_reason:
  "finite_json inp \<Longrightarrow>
    opa_post open_settings sample_world ''/reason'' inp = Some (dumps_default (\<lambda>_. []) (JObj [(''result'', JStr ''r'')]))"
  by (simp add: opa_post_def sample_world_def policy_server_def Let_def)

lemma sample_decision:
  "\<exists>r. fst (validate P open_settings sample_world (sample_request ''/sensitive'') l) = Inr r \<and> resp_status r = 200"
proof -
  let ?inp = "opa_input ''/sensitive'' ''10.8.0.2''
    (identity_of (JStr ''a@b.c'') True 1000 (JArr [JStr ''admins'']) True) sample_record"
  have fin: "finite_json ?inp" by (simp add: opa_input_def sample_record_def)
  have "may_pass 1060 ''/sensitive'' True 1000 True sample_record"
    by (simp add: may_pass_def session_ok_def sample_record_def)
  then show ?thesis
    using validate_decision [OF sample_served sample_identity [of P "req_headers (sample_request ''/sensitive'')"], of sample_record _ "''r''" l]
      sample_posture sample_reason [OF fin] fin
    by (auto simp: opa_result_def policy_server_result line_breaks_def)
qed

text \<open>What a granted request had to show, and the record behind it.\<close>

lemma granted_request:
  assumes "fst (validate P cfg W req l) = Inr r" "resp_status r = 200" "serves_policy cfg W now"
  shows "\<exists>email t groups adm d rh body.
    w_oauth W (header_or (req_headers req) ''Cookie'' []) = Reply 202 rh body \<and>
    check_identity P (w_oauth W) (req_headers req) = Inr (identity_of email True t groups adm) \<and>
    accepted_record P cfg (w_store W) (w_now W) (source_ip req) d \<and>
    get_or d ''posture'' JNull = JStr ''healthy'' \<and>
    (admin_uri (original_uri req) \<longrightarrow> str_in ''admins'' groups = Inr True) \<and>
    session_ok now t (original_uri req)"
proof -
  obtain l' where "validate P cfg W req l = (Inr r, l')"
    using assms(1) by (cases "validate P cfg W req l") auto
  then show ?thesis
  proof (cases rule: validate_cases)
    case (1 identity posture allowed why)
    let ?inp = "opa_input (original_uri req) (source_ip req) identity posture"
    have "truthy allowed" using decision_status [OF 1(4)] assms(2) by (auto split: if_splits)
    then have ok: "allow now ?inp" by (rule served_decision [OF assms(3) 1(3)])
    have "\<exists>why. posture = unhealthy why \<Longrightarrow> False"
      using ok rego.unhealthy_refused by blast
    then have rec: "accepted_record P cfg (w_store W) (w_now W) (source_ip req) posture"
      using get_posture_cases [OF 1(2)] by blast
    have "get_or posture ''posture'' JNull = JStr ''healthy''"
      using rego.permitted_request [OF ok] by (auto simp: get_or_def split: option.splits)
    with 1(1) show ?thesis
    proof (cases rule: check_identity_cases)
      case anonymous
      with ok show ?thesis using rego.anonymous_refused by blast
    next
      case (user rh body email mfa t groups adm)
      with ok have "mfa" "session_ok now t (original_uri req)" "admin_uri (original_uri req) \<longrightarrow> adm"
        by (simp_all add: allow_opa_input)
      with user 1(1) have "check_identity P (w_oauth W) (req_headers req) = Inr (identity_of email True t groups adm)"
        by simp
      moreover have "admin_uri (original_uri req) \<longrightarrow> str_in ''admins'' groups = Inr True"
        using user(3) \<open>admin_uri (original_uri req) \<longrightarrow> adm\<close> by simp
      ultimately show ?thesis
        using user(1) rec \<open>get_or posture ''posture'' JNull = JStr ''healthy''\<close>
          \<open>session_ok now t (original_uri req)\<close> by blast
    qed
  qed
qed

lemma granted_record:
  assumes "fst (validate P cfg W req l) = Inr r" "resp_status r = 200" "serves_policy cfg W now"
  shows "\<exists>d. accepted_record P cfg (w_store W) (w_now W) (source_ip req) d \<and> get_or d ''posture'' JNull = JStr ''healthy''"
  using granted_request [OF assms] by blast

subsection \<open>Properties\<close>

text \<open>
  C2: the bridge fails closed. Whatever the services answer, a response has status 200, 401 or 403;
  200 is given only when both requests to OPA were answered and the answer for exactly this request's
  identity, posture and path has a true result; 401 only when the caller is not authenticated.
\<close>

theorem validate_fails_closed:
  assumes "fst (validate P cfg W req l) = Inr r"
  shows "resp_status r \<in> {200, 401, 403} \<and>
    (\<exists>identity posture.
      check_identity P (w_oauth W) (req_headers req) = Inr identity \<and>
      get_posture P cfg (w_store W) (w_now W) (source_ip req) = Inr posture \<and>
      (resp_status r = 200 \<longrightarrow>
        (let inp = opa_input (original_uri req) (source_ip req) identity posture in
         opa_post cfg W ''/reason'' inp \<noteq> None \<and>
         (\<exists>body d. opa_post cfg W ''/allow'' inp = Some body \<and> loads_bytes body = Inr (JObj d) \<and>
            truthy (get_or d ''result'' (JBool False))))) \<and>
      (resp_status r = 401 \<longrightarrow> get_or identity ''authenticated'' (JBool False) = JBool False))"
proof -
  obtain l' where "validate P cfg W req l = (Inr r, l')"
    using assms by (cases "validate P cfg W req l") auto
  then show ?thesis
  proof (cases rule: validate_cases)
    case (1 identity posture allowed why)
    have "get_or identity ''authenticated'' (JBool False) = JBool False"
      if "\<not> truthy (get_or identity ''authenticated'' (JBool False))"
      using identity_types [OF 1(1)] that by auto
    then show ?thesis
      using 1(1,2) decision_status [OF 1(4)] ask_opa_allowed [OF 1(3)]
      by (cases "truthy allowed") (auto simp: Let_def split: if_splits)
  qed
qed

text \<open>
  C1: what access means, end to end. With OPA serving the repository's policy, the bridge lets a
  request through only if oauth2-proxy accepted the session cookie, the token's \<open>amr\<close> shows MFA, the
  posture store holds a valid, recent and healthy record for the source address, an admin path is
  asked for by a member of \<open>admins\<close>, and \<open>/sensitive\<close> within five minutes of authentication.
\<close>

theorem access_requires_everything:
  assumes "fst (validate P cfg W req l) = Inr r" "resp_status r = 200" "serves_policy cfg W now"
  shows "\<exists>email t groups adm d rh body.
    w_oauth W (header_or (req_headers req) ''Cookie'' []) = Reply 202 rh body \<and>
    check_identity P (w_oauth W) (req_headers req) = Inr (identity_of email True t groups adm) \<and>
    accepted_record P cfg (w_store W) (w_now W) (source_ip req) d \<and>
    get_or d ''posture'' JNull = JStr ''healthy'' \<and>
    (admin_uri (original_uri req) \<longrightarrow> str_in ''admins'' groups = Inr True) \<and>
    session_ok now t (original_uri req)"
  by (rule granted_request [OF assms])

text \<open>
  C3: what the bridge answers. For an authenticated caller and an OPA that serves the policy, the
  status is 200 exactly when MFA was verified, the posture is healthy, the session is young enough
  for the path and, on an admin path, the caller is an administrator; it is 403 otherwise, and OPA's
  reason reaches the client.
\<close>

theorem validate_answers:
  assumes "serves_policy cfg W now"
    and "check_identity P (w_oauth W) (req_headers req) = Inr (identity_of email mfa t groups adm)"
    and "get_posture P cfg (w_store W) (w_now W) (source_ip req) = Inr posture"
    and "finite_json (opa_input (original_uri req) (source_ip req) (identity_of email mfa t groups adm) posture)"
    and "opa_post cfg W ''/reason''
      (opa_input (original_uri req) (source_ip req) (identity_of email mfa t groups adm) posture) = Some rb"
    and "opa_result rb (JStr ''unknown'') = Inr (JStr s)" "\<not> line_breaks s"
  shows "\<exists>r. fst (validate P cfg W req l) = Inr r \<and> resp_header r ''X-ZTLab-Reason'' = Some s \<and>
    resp_status r = (if may_pass now (original_uri req) mfa t adm posture then 200 else 403)"
  by (rule validate_decision [OF assms])

text \<open>
  The clearance that the bridge announces is the same for everyone: every request it lets
  through, an administrator's too, carries \<open>clearance=user\<close>, because the identity has no \<open>role\<close>.
\<close>

theorem clearance_always_user:
  assumes "fst (validate P cfg W req l) = Inr r" "resp_status r = 200"
  shows "resp_header r ''X-ZTLab-Clearance'' = Some ''clearance=user''"
proof -
  obtain l' where "validate P cfg W req l = (Inr r, l')"
    using assms(1) by (cases "validate P cfg W req l") auto
  then show ?thesis
    by (cases rule: validate_cases) (rule clearance_header [OF _ _ assms(2)])
qed


subsection \<open>The properties on the worked example\<close>

lemma validate_fails_closed_witness:
  "\<exists>r. fst (validate sample_platform open_settings sample_world (sample_request ''/sensitive'') []) = Inr r \<and>
    resp_status r \<in> {200, 401, 403}"
  using sample_decision [of sample_platform "[]"] validate_fails_closed by blast

lemma access_requires_everything_witness:
  "\<exists>d. accepted_record sample_platform open_settings (w_store sample_world) (w_now sample_world) ''10.8.0.2'' d"
proof -
  obtain r where "fst (validate sample_platform open_settings sample_world (sample_request ''/sensitive'') []) = Inr r"
    "resp_status r = 200"
    using sample_decision by blast
  from access_requires_everything [OF this sample_served] show ?thesis by auto
qed

lemma validate_answers_witness:
  "\<exists>r. fst (validate sample_platform open_settings sample_world (sample_request ''/sensitive'') []) = Inr r \<and>
    resp_status r = 200"
proof -
  let ?inp = "opa_input ''/sensitive'' ''10.8.0.2''
    (identity_of (JStr ''a@b.c'') True 1000 (JArr [JStr ''admins'']) True) sample_record"
  have fin: "finite_json ?inp" by (simp add: opa_input_def sample_record_def)
  have "may_pass 1060 ''/sensitive'' True 1000 True sample_record"
    by (simp add: may_pass_def session_ok_def sample_record_def)
  then show ?thesis
    using validate_answers [OF sample_served sample_identity [of sample_platform "req_headers (sample_request ''/sensitive'')"],
        of sample_record _ "''r''" "[]"] sample_posture sample_reason [OF fin] fin
    by (auto simp: opa_result_def policy_server_result line_breaks_def)
qed

lemma clearance_always_user_witness:
  "\<exists>r. fst (validate sample_platform open_settings sample_world (sample_request ''/sensitive'') []) = Inr r \<and>
    resp_header r ''X-ZTLab-Clearance'' = Some ''clearance=user''"
  using sample_decision [of sample_platform "[]"] clearance_always_user by blast


end
