(* ===== verification/RiskScore.thy ===== *)
theory RiskScore
  imports Validate PostureCheck
begin

section \<open>Risk scoring\<close>

text \<open>
  \<open>gateway/authz-bridge/app.py\<close>, \<open>_calculate_risk_score\<close> and \<open>risk_score\<close>. The score and the list
  of factors grow together, branch by branch; a value of the wrong type in the posture record is an
  exception. \<open>factor_points\<close> is the table that the branches implement.
\<close>

type_synonym scoring = "int \<times> string list"

definition add_factor :: "int \<Rightarrow> string \<Rightarrow> scoring \<Rightarrow> scoring" where
  "add_factor points name s = (fst s + points, snd s @ [name])"

text \<open>The session's age; 999999 seconds when there is no authentication time.\<close>

definition session_seconds :: "int \<Rightarrow> pyfloat \<Rightarrow> pyfloat" where
  "session_seconds now auth_time =
     (if num_gt auth_time 0 then minus_num (of_int now) auth_time else Fin 999999)"

definition score_identity :: "int \<Rightarrow> jdict \<Rightarrow> scoring \<Rightarrow> scoring py" where
  "score_identity now identity s =
     py_bind (num_of (get_or identity ''auth_time'' (JInt 0))) (\<lambda>auth_time.
       let seconds = session_seconds now auth_time;
           s = (if \<not> truthy (get_or identity ''authenticated'' (JBool False))
                then add_factor 100 ''not_authenticated'' s
                else if num_gt seconds 3600 then add_factor 30 ''session_age_gt_1h'' s
                else if num_gt seconds 1800 then add_factor 15 ''session_age_gt_30m'' s
                else s)
       in Inr (if \<not> truthy (get_or identity ''mfa_verified'' (JBool False))
               then add_factor 25 ''no_mfa'' s else s))"

definition score_signal :: "jdict \<Rightarrow> string \<Rightarrow> int \<Rightarrow> string \<Rightarrow> scoring \<Rightarrow> scoring" where
  "score_signal signals signal points name s =
     (if \<not> truthy (get_or signals signal (JBool True)) then add_factor points name s else s)"

definition score_device :: "jdict \<Rightarrow> scoring \<Rightarrow> scoring py" where
  "score_device posture s =
     (if get_or posture ''posture'' JNull \<noteq> JStr ''healthy''
      then Inr (add_factor 40 ''unhealthy_posture'' s)
      else
        py_bind (as_dict (get_or posture ''signals'' (JObj []))) (\<lambda>signals.
          Inr (score_signal signals ''no_blocklisted_process'' 20 ''blocklisted_process''
              (score_signal signals ''patch_within_window'' 10 ''patches_outdated''
              (score_signal signals ''disk_encrypted'' 15 ''disk_not_encrypted'' s)))))"

definition score_age :: "settings \<Rightarrow> int \<Rightarrow> jdict \<Rightarrow> scoring \<Rightarrow> scoring py" where
  "score_age cfg now posture s =
     py_bind (num_of (get_or posture ''checked_at'' (JInt 0))) (\<lambda>checked_at.
       Inr (if num_gt (minus_num (of_int now) checked_at) (of_int (max_posture_age cfg))
            then add_factor 15 ''stale_posture'' s else s))"

record risk =
  risk_points :: int
  risk_factors :: "string list"
  risk_step_up :: bool

definition calculate_risk_score :: "settings \<Rightarrow> rat \<Rightarrow> jdict \<Rightarrow> jdict \<Rightarrow> risk py" where
  "calculate_risk_score cfg clock identity posture =
     (let now = trunc_rat clock in
      py_bind (score_identity now identity (0, [])) (\<lambda>s.
      py_bind (score_device posture s) (\<lambda>s.
      py_bind (score_age cfg now posture s) (\<lambda>s.
        let score = min (fst s) 100 in
        Inr \<lparr>risk_points = score, risk_factors = snd s, risk_step_up = (risk_threshold cfg \<le> score)\<rparr>))))"

subsection \<open>The endpoint\<close>

definition strings :: "string list \<Rightarrow> json" where
  "strings xs = JArr (map JStr xs)"

definition risk_body :: "settings \<Rightarrow> risk \<Rightarrow> json" where
  "risk_body cfg k =
     JObj [(''score'', JInt (risk_points k)), (''threshold'', JInt (risk_threshold cfg)),
           (''requires_step_up'', JBool (risk_step_up k)), (''factors'', strings (risk_factors k))]"

definition risk_event :: "string \<Rightarrow> jdict \<Rightarrow> risk \<Rightarrow> jdict" where
  "risk_event ip identity k =
     [(''event'', JStr ''risk_score_calculated''), (''source_ip'', JStr ip),
      (''email'', get_or identity ''email'' (JStr [])), (''score'', JInt (risk_points k)),
      (''requires_step_up'', JBool (risk_step_up k)), (''factors'', strings (risk_factors k))]"

text \<open>\<open>clock\<close> is the reading of the clock in \<open>_calculate_risk_score\<close>, after the one in \<open>get_posture\<close>.\<close>

definition risk_score :: "platform \<Rightarrow> settings \<Rightarrow> world \<Rightarrow> rat \<Rightarrow> request \<Rightarrow> string \<Rightarrow> response py \<times> string" where
  "risk_score P cfg W clock req written =
     (case check_identity P (w_oauth W) (req_headers req) of
        Inl e \<Rightarrow> (Inl e, written)
      | Inr identity \<Rightarrow>
     (case get_posture P cfg (w_store W) (w_now W) (source_ip req) of
        Inl e \<Rightarrow> (Inl e, written)
      | Inr posture \<Rightarrow>
     (case calculate_risk_score cfg clock identity posture of
        Inl e \<Rightarrow> (Inl e, written)
      | Inr k \<Rightarrow>
          (Inr (json_response 200 (risk_body cfg k)),
           write_audit_log P (w_log W) (risk_event (source_ip req) identity k) written))))"

subsection \<open>Points and factors\<close>

definition factor_points :: "string \<Rightarrow> int" where
  "factor_points f = (case map_of
     [(''not_authenticated'', 100), (''session_age_gt_1h'', 30), (''session_age_gt_30m'', 15),
      (''no_mfa'', 25), (''unhealthy_posture'', 40), (''disk_not_encrypted'', 15),
      (''patches_outdated'', 10), (''blocklisted_process'', 20), (''stale_posture'', 15)] f of
     None \<Rightarrow> 0 | Some p \<Rightarrow> p)"

lemma factor_points_simps [simp]:
  "factor_points ''not_authenticated'' = 100" "factor_points ''session_age_gt_1h'' = 30"
  "factor_points ''session_age_gt_30m'' = 15" "factor_points ''no_mfa'' = 25"
  "factor_points ''unhealthy_posture'' = 40" "factor_points ''disk_not_encrypted'' = 15"
  "factor_points ''patches_outdated'' = 10" "factor_points ''blocklisted_process'' = 20"
  "factor_points ''stale_posture'' = 15"
  by code_simp+

text \<open>The invariant of a scoring in progress.\<close>

definition tallied :: "scoring \<Rightarrow> bool" where
  "tallied s \<longleftrightarrow> fst s = sum_list (map factor_points (snd s)) \<and> 0 \<le> fst s"

lemma tallied_start: "tallied (0, [])"
  by (simp add: tallied_def)

lemma tallied_add: "tallied s \<Longrightarrow> factor_points name = points \<Longrightarrow> 0 \<le> points \<Longrightarrow> tallied (add_factor points name s)"
  by (auto simp: tallied_def add_factor_def)

lemma tallied_signal:
  "tallied s \<Longrightarrow> factor_points name = points \<Longrightarrow> 0 \<le> points \<Longrightarrow> tallied (score_signal signals signal points name s)"
  by (simp add: score_signal_def tallied_add)

lemma tallied_steps:
  "tallied s \<Longrightarrow> score_identity now identity s = Inr s' \<Longrightarrow> tallied s'"
  "tallied s \<Longrightarrow> score_device posture s = Inr s' \<Longrightarrow> tallied s'"
  "tallied s \<Longrightarrow> score_age cfg now posture s = Inr s' \<Longrightarrow> tallied s'"
  by (auto simp: score_identity_def score_device_def score_age_def py_bind_eq_Inr Let_def
      tallied_add tallied_signal split: if_splits)

lemma score_grows:
  "score_device posture s = Inr s' \<Longrightarrow> fst s \<le> fst s'"
  "score_age cfg now posture s = Inr s' \<Longrightarrow> fst s \<le> fst s'"
  by (auto simp: score_device_def score_age_def py_bind_eq_Inr score_signal_def add_factor_def
      split: if_splits)

lemma calculate_risk_score_cases:
  assumes "calculate_risk_score cfg clock identity posture = Inr k"
  obtains s1 s2 s3 where
    "score_identity (trunc_rat clock) identity (0, []) = Inr s1" "score_device posture s1 = Inr s2"
    "score_age cfg (trunc_rat clock) posture s2 = Inr s3"
    "k = \<lparr>risk_points = min (fst s3) 100, risk_factors = snd s3,
          risk_step_up = (risk_threshold cfg \<le> min (fst s3) 100)\<rparr>"
  using assms by (auto simp: calculate_risk_score_def py_bind_eq_Inr Let_def)

subsection \<open>Properties\<close>

text \<open>
  C36: a score is a number from 0 to 100, it is the sum of the points of the listed factors cut at
  100, and step-up is required exactly from the threshold on.
\<close>

theorem risk_score_explained:
  assumes "calculate_risk_score cfg clock identity posture = Inr k"
  shows "0 \<le> risk_points k \<and> risk_points k \<le> 100 \<and>
    risk_points k = min 100 (\<Sum>f \<leftarrow> risk_factors k. factor_points f) \<and>
    (risk_step_up k \<longleftrightarrow> risk_threshold cfg \<le> risk_points k)"
  using assms
proof (cases rule: calculate_risk_score_cases)
  case (1 s1 s2 s3)
  have "tallied s3"
    by (rule tallied_steps(3) [OF tallied_steps(2) [OF tallied_steps(1) [OF tallied_start 1(1)] 1(2)] 1(3)])
  then show ?thesis
    using 1(4) by (auto simp: tallied_def)
qed

text \<open>
  A caller who is not authenticated gets the highest score, whatever the device reports.
\<close>

theorem unauthenticated_is_maximal:
  assumes "calculate_risk_score cfg clock identity posture = Inr k"
    and "\<not> truthy (get_or identity ''authenticated'' (JBool False))"
  shows "risk_points k = 100 \<and> ''not_authenticated'' \<in> set (risk_factors k)"
  using assms(1)
proof (cases rule: calculate_risk_score_cases)
  case (1 s1 s2 s3)
  have s1: "100 \<le> fst s1 \<and> ''not_authenticated'' \<in> set (snd s1)"
    using 1(1) assms(2) by (auto simp: score_identity_def py_bind_eq_Inr add_factor_def Let_def)
  have "set (snd s1) \<subseteq> set (snd s3)"
    using 1(2,3) by (auto simp: score_device_def score_age_def py_bind_eq_Inr score_signal_def add_factor_def
        split: if_splits)
  then show ?thesis
    using s1 score_grows(1) [OF 1(2)] score_grows(2) [OF 1(3)] 1(4) by auto
qed


lemma trunc_rat_le: "trunc_rat q \<le> \<lceil>q\<rceil>" "0 \<le> q \<Longrightarrow> of_int (trunc_rat q) \<le> q"
proof -
  show "0 \<le> q \<Longrightarrow> of_int (trunc_rat q) \<le> q" by (simp add: trunc_rat_def)
  have "\<lfloor>q\<rfloor> \<le> \<lceil>q\<rceil>" by linarith
  then show "trunc_rat q \<le> \<lceil>q\<rceil>" by (simp add: trunc_rat_def ceiling_def)
qed

lemma posture_entry_signals [simp]:
  "get_or (posture_entry d p b t) ''signals'' x =
     JObj [(''disk_encrypted'', JBool d), (''patch_within_window'', JBool p), (''no_blocklisted_process'', JBool b)]"
  by (simp add: posture_entry_def Let_def)

text \<open>The score of an authenticated caller on a device whose record its agent wrote.\<close>

lemma score_agent_record:
  assumes "0 < t" "trunc_rat clock - t \<le> 1800" "trunc_rat clock - trunc_rat tc \<le> max_posture_age cfg"
  shows "calculate_risk_score cfg clock (identity_of email True t groups adm) (posture_entry True True True tc) =
    Inr \<lparr>risk_points = 0, risk_factors = [], risk_step_up = (risk_threshold cfg \<le> 0)\<rparr>"
proof -
  have "rat_of_int (trunc_rat clock) - of_int t \<le> 1800"
    using assms(2) by (metis of_int_diff of_int_le_iff of_int_numeral)
  moreover have "rat_of_int (trunc_rat clock) - of_int (trunc_rat tc) \<le> of_int (max_posture_age cfg)"
    using assms(3) by (metis of_int_diff of_int_le_iff)
  ultimately show ?thesis
    using assms(1)
    by (auto simp: calculate_risk_score_def score_identity_def score_device_def score_age_def score_signal_def
        session_seconds_def Let_def)
qed

text \<open>
  Enforcement and scoring agree on the best case. A caller whom the policy lets reach a
  \<open>/sensitive\<close> path from a device whose record its agent wrote scores zero with no factors, for the
  next 25 minutes and as long as the record is not older than the limit.
\<close>

theorem sensitive_access_scores_zero:
  assumes "may_pass now uri mfa t adm (posture_entry d p b tc)" "startswith uri ''/sensitive''"
    and "0 \<le> clock" "clock \<le> now + 1500" "trunc_rat clock - trunc_rat tc \<le> max_posture_age cfg"
  shows "calculate_risk_score cfg clock (identity_of email mfa t groups adm) (posture_entry d p b tc) =
    Inr \<lparr>risk_points = 0, risk_factors = [], risk_step_up = (risk_threshold cfg \<le> 0)\<rparr>"
proof -
  from assms(1,2) have t: "mfa" "d" "p" "b" "0 < t" "now - of_int t \<le> 300"
    by (auto simp: may_pass_def session_ok_def split: if_splits)
  have "rat_of_int (trunc_rat clock - t) \<le> 1800"
    using trunc_rat_le(2) [OF assms(3)] assms(4) t(6) by simp
  then have "trunc_rat clock - t \<le> 1800"
    by (metis of_int_le_iff of_int_numeral)
  then show ?thesis
    using score_agent_record [of t clock tc cfg email groups adm] assms(5) t by simp
qed

text \<open>
  A device without a believed record counts twice. Whatever made \<open>get_posture\<close> answer
  unhealthy, the score has both \<open>unhealthy_posture\<close> and \<open>stale_posture\<close>, so at least 55 points: the
  answer carries no \<open>checked_at\<close>, and the scorer takes the epoch in its place.
\<close>

theorem unbelieved_device_counts_twice:
  assumes "calculate_risk_score cfg clock identity (unhealthy why) = Inr k"
    and "max_posture_age cfg < trunc_rat clock"
  shows "{''unhealthy_posture'', ''stale_posture''} \<subseteq> set (risk_factors k) \<and> 55 \<le> risk_points k"
  using assms(1)
proof (cases rule: calculate_risk_score_cases)
  case (1 s1 s2 s3)
  have "0 \<le> fst s1"
    using tallied_steps(1) [OF tallied_start 1(1)] by (simp add: tallied_def)
  then show ?thesis
    using 1(2-4) assms(2) by (auto simp: score_device_def score_age_def add_factor_def)
qed

subsection \<open>The properties on examples\<close>

lemma risk_score_explained_witness:
  "\<exists>k. calculate_risk_score sample_settings 2000 not_authenticated (unhealthy ''r'') = Inr k \<and> risk_points k \<le> 100"
proof -
  obtain k where "calculate_risk_score sample_settings 2000 not_authenticated (unhealthy ''r'') = Inr k"
    by (simp add: calculate_risk_score_def score_identity_def score_device_def score_age_def Let_def)
  with risk_score_explained show ?thesis by blast
qed

lemma unauthenticated_is_maximal_witness:
  "\<exists>k. calculate_risk_score sample_settings 2000 not_authenticated (posture_entry True True True 2000) = Inr k \<and>
    risk_points k = 100"
proof -
  obtain k where "calculate_risk_score sample_settings 2000 not_authenticated (posture_entry True True True 2000) = Inr k"
    by (simp add: calculate_risk_score_def score_identity_def score_device_def score_age_def Let_def)
  with unauthenticated_is_maximal show ?thesis by fastforce
qed

lemma sensitive_access_scores_zero_witness:
  "calculate_risk_score sample_settings 2000 (identity_of (JStr []) True 1900 (JArr []) False)
     (posture_entry True True True 2000) = Inr \<lparr>risk_points = 0, risk_factors = [], risk_step_up = False\<rparr>"
  using sensitive_access_scores_zero [of 2000 "''/sensitive''" True 1900 False True True True 2000 2000 sample_settings
      "JStr []" "JArr []"]
  by (simp add: may_pass_def session_ok_def sample_settings_def admin_uri_def)

lemma unbelieved_device_counts_twice_witness:
  "\<exists>k. calculate_risk_score sample_settings 2000 not_authenticated (unhealthy ''r'') = Inr k \<and>
    ''stale_posture'' \<in> set (risk_factors k)"
proof -
  obtain k where k: "calculate_risk_score sample_settings 2000 not_authenticated (unhealthy ''r'') = Inr k"
    by (simp add: calculate_risk_score_def score_identity_def score_device_def score_age_def Let_def)
  have "max_posture_age sample_settings < trunc_rat 2000"
    by (simp add: sample_settings_def trunc_rat_def)
  with unbelieved_device_counts_twice [OF k] k show ?thesis by auto
qed

end
