(* ===== verification/DemoPage.thy ===== *)
theory DemoPage
  imports Http
begin

section \<open>Formatted pages\<close>

text \<open>
  Python's \<open>str.format\<close> with named fields, and \<open>PAGE_TEMPLATE\<close> of \<open>app/app.py\<close>. A doubled brace stands
  for a brace, \<open>{name}\<close> for the value of the field; a missing field is a KeyError, a brace without its
  partner a ValueError. Positions, attributes, conversions and format specifications, which the template
  does not use, are outside the model.
\<close>

abbreviation obrace :: char where "obrace \<equiv> CHR ''{''"
abbreviation cbrace :: char where "cbrace \<equiv> CHR ''}''"

definition name_char :: "char \<Rightarrow> bool" where
  "name_char c = (let n = codepoint c in (97 \<le> n \<and> n \<le> 122) \<or> (65 \<le> n \<and> n \<le> 90) \<or> n = 95)"

definition field_name :: "string \<Rightarrow> bool" where
  "field_name s = (s \<noteq> [] \<and> list_all name_char s)"

definition field_value :: "(string, string) dict \<Rightarrow> string \<Rightarrow> string py" where
  "field_value vs name = (if field_name name then getitem vs name else Inl Unmodelled)"

text \<open>What follows the closing brace of a field.\<close>

definition after_field :: "string \<Rightarrow> string option" where
  "after_field s = (case dropWhile (\<lambda>c. c \<noteq> cbrace) s of [] \<Rightarrow> None | _ # rest \<Rightarrow> Some rest)"

lemma after_field_shorter: "after_field s = Some rest \<Longrightarrow> length rest < length s"
  using length_dropWhile_le [of "\<lambda>c. c \<noteq> cbrace" s] by (auto simp: after_field_def split: list.splits)

function str_format :: "(string, string) dict \<Rightarrow> string \<Rightarrow> string py" where
  "str_format vs [] = Inr []"
| "str_format vs [c] = (if c = obrace \<or> c = cbrace then Inl ValueError else Inr [c])"
| "str_format vs (c # d # cs) =
     (if c = obrace \<and> d = obrace then py_bind (str_format vs cs) (\<lambda>r. Inr (obrace # r))
      else if c = obrace then
        (case after_field (d # cs) of
           None \<Rightarrow> Inl ValueError
         | Some rest \<Rightarrow>
             py_bind (field_value vs (takeWhile (\<lambda>c. c \<noteq> cbrace) (d # cs))) (\<lambda>v.
             py_bind (str_format vs rest) (\<lambda>r. Inr (v @ r))))
      else if c = cbrace \<and> d = cbrace then py_bind (str_format vs cs) (\<lambda>r. Inr (cbrace # r))
      else if c = cbrace then Inl ValueError
      else py_bind (str_format vs (d # cs)) (\<lambda>r. Inr (c # r)))"
  by pat_completeness auto

termination
  by (relation "measure (\<lambda>(vs, s). length s)") (auto dest: after_field_shorter)

text \<open>A well-formed start of a template is formatted on its own.\<close>

lemma after_field_append:
  assumes "after_field s = Some rest"
  shows "after_field (s @ b) = Some (rest @ b)"
    and "takeWhile (\<lambda>c. c \<noteq> cbrace) (s @ b) = takeWhile (\<lambda>c. c \<noteq> cbrace) s"
proof -
  have "after_field s = None" if "cbrace \<notin> set s"
    using that by (induction s) (auto simp: after_field_def)
  with assms have "cbrace \<in> set s" by (cases "cbrace \<in> set s") simp_all
  then show "takeWhile (\<lambda>c. c \<noteq> cbrace) (s @ b) = takeWhile (\<lambda>c. c \<noteq> cbrace) s"
    and "after_field (s @ b) = Some (rest @ b)"
    using assms by (simp_all add: after_field_def takeWhile_append1 dropWhile_append1 split: list.splits)
qed

lemma format_cons:
  "c \<noteq> obrace \<Longrightarrow> c \<noteq> cbrace \<Longrightarrow> str_format vs (c # s) = py_bind (str_format vs s) (\<lambda>r. Inr (c # r))"
  by (cases s) simp_all

lemma format_append:
  "str_format vs a = Inr r \<Longrightarrow> str_format vs (a @ b) = py_bind (str_format vs b) (\<lambda>t. Inr (r @ t))"
proof (induction vs a arbitrary: r rule: str_format.induct)
  case (1 vs)
  then show ?case by (cases "str_format vs b") simp_all
next
  case (2 vs c)
  then show ?case by (auto simp: format_cons split: if_splits)
next
  case (3 vs c d cs)
  consider (doubled) "c = obrace" "d = obrace" | (field) "c = obrace" "d \<noteq> obrace"
    | (closing) "c = cbrace" "d = cbrace" | (plain) "c \<noteq> obrace" "c \<noteq> cbrace"
    using "3.prems" by (auto split: if_splits)
  then show ?case
  proof cases
    case doubled
    with "3.prems" "3.IH"(1) show ?thesis by (auto simp: py_bind_eq_Inr py_bind_assoc)
  next
    case field
    with "3.prems" obtain rest v t where "after_field (d # cs) = Some rest"
      "field_value vs (takeWhile (\<lambda>c. c \<noteq> cbrace) (d # cs)) = Inr v" "str_format vs rest = Inr t" "r = v @ t"
      by (auto simp: py_bind_eq_Inr split: option.splits)
    with field "3.IH"(2) after_field_append [of "d # cs" rest b] show ?thesis
      by (auto simp: py_bind_assoc)
  next
    case closing
    with "3.prems" "3.IH"(3) show ?thesis by (auto simp: py_bind_eq_Inr py_bind_assoc)
  next
    case plain
    with "3.prems" "3.IH"(4) show ?thesis by (auto simp: py_bind_eq_Inr py_bind_assoc)
  qed
qed

lemma format_plain: "obrace \<notin> set s \<Longrightarrow> cbrace \<notin> set s \<Longrightarrow> str_format vs s = Inr s"
  by (induction s) (auto simp: format_cons)

text \<open>Whether formatting fails depends on the names of the fields alone.\<close>

lemma field_value_names:
  "map fst vs = map fst vs' \<Longrightarrow> field_value vs name = Inr v \<Longrightarrow> \<exists>w. field_value vs' name = Inr w"
proof -
  assume names: "map fst vs = map fst vs'" and found: "field_value vs name = Inr v"
  have known: "dict_get d name = None \<longleftrightarrow> name \<notin> set (map fst d)" for d :: "(string, string) dict"
    by (simp add: dict_get_def map_of_eq_None_iff)
  have iff: "(\<exists>v. field_value d name = Inr v) \<longleftrightarrow> field_name name \<and> name \<in> set (map fst d)" for d
    using known [of d] by (cases "dict_get d name") (simp_all add: field_value_def getitem_def)
  with names found show ?thesis by metis
qed

lemma format_by_names:
  "map fst vs = map fst vs' \<Longrightarrow> str_format vs s = Inr t \<Longrightarrow> \<exists>t'. str_format vs' s = Inr t'"
proof (induction vs s arbitrary: t rule: str_format.induct)
  case (3 vs c d cs)
  then show ?case
    by (auto simp: py_bind_eq_Inr split: if_splits option.splits dest: field_value_names)
qed (auto split: if_splits)

text \<open>A template of well-formed lines.\<close>

lemma format_lines:
  "\<forall>l \<in> set ls. \<exists>t. str_format vs l = Inr t \<Longrightarrow> \<exists>t. str_format vs (join [newline] ls) = Inr t"
proof (induction "[newline]" ls rule: join.induct)
  case (3 x y ys)
  then obtain a b where "str_format vs x = Inr a" "str_format vs (join [newline] (y # ys)) = Inr b"
    by auto
  then show ?case by (simp add: format_append format_cons)
qed auto

subsection \<open>The page of the application\<close>

definition page_lines :: "string \<Rightarrow> string list" where
  \<open>page_lines dash =
     [[],
      ''<!DOCTYPE html>'',
      ''<html>'',
      ''<head>'',
      ''  <meta charset="utf-8">'',
      ''  <title>ZTLab demo '' @ dash @ '' {zone_label}</title>'',
      ''  <style>'',
      ''    body {{'',
      ''      font-family: -apple-system, Segoe UI, sans-serif;'',
      ''      margin: 0;'',
      ''      padding: 0;'',
      ''      background: #0f1115;'',
      ''      color: #e6e6e6;'',
      ''    }}'',
      ''    .banner {{'',
      ''      padding: 28px 32px;'',
      ''      font-size: 22px;'',
      ''      font-weight: 700;'',
      ''      letter-spacing: 0.04em;'',
      ''      color: #0f1115;'',
      ''      background: {banner_color};'',
      ''    }}'',
      ''    .content {{'',
      ''      padding: 32px;'',
      ''      line-height: 1.6;'',
      ''    }}'',
      ''    .meta {{'',
      ''      margin-top: 24px;'',
      ''      padding: 16px;'',
      ''      background: #1a1d24;'',
      ''      border-radius: 8px;'',
      ''      font-family: monospace;'',
      ''      font-size: 13px;'',
      ''      color: #9aa0ac;'',
      ''    }}'',
      ''    .classification-badge {{'',
      ''      display: inline-block;'',
      ''      padding: 4px 12px;'',
      ''      border-radius: 4px;'',
      ''      font-size: 12px;'',
      ''      font-weight: 700;'',
      ''      letter-spacing: 0.05em;'',
      ''      color: #0f1115;'',
      ''      background: {classification_color};'',
      ''      margin-top: 8px;'',
      ''    }}'',
      ''  </style>'',
      ''</head>'',
      ''<body>'',
      ''  <div class="banner">{zone_label}</div>'',
      ''  <div class="content">'',
      ''    <p>{body_text}</p>'',
      ''    <div class="classification-badge">{classification} DATA</div>'',
      ''    <div class="meta">'',
      ''      request path: {path}<br>'',
      ''      data classification: {classification}<br>'',
      ''      encryption required: {encryption_required}<br>'',
      ''      retention: {retention_days} days<br>'',
      ''      served by: demo-app (no local auth logic '' @ dash @ '' enforced upstream)'',
      ''    </div>'',
      ''  </div>'',
      ''</body>'',
      []]\<close>

definition PAGE_TEMPLATE :: "string \<Rightarrow> string" where
  "PAGE_TEMPLATE dash = join [newline] (page_lines dash)"

definition page_fields :: "string list" where
  "page_fields =
     [''zone_label'', ''banner_color'', ''body_text'', ''path'', ''classification'', ''classification_color'',
      ''encryption_required'', ''retention_days'']"

text \<open>
  Every page is formatted, whatever the values are, and a dash without braces does not matter: the two
  lines that hold it are a well-formed start, the dash and a well-formed rest.
\<close>

definition empty_fields :: "(string, string) dict" where
  "empty_fields = map (\<lambda>f. (f, [])) page_fields"

lemma lines_format: "list_all (\<lambda>l. \<not> isl (str_format empty_fields l)) (page_lines [])"
  by code_simp

definition title_line :: "string \<Rightarrow> string" where
  "title_line dash = ''  <title>ZTLab demo '' @ dash @ '' {zone_label}</title>''"

definition footer_line :: "string \<Rightarrow> string" where
  "footer_line dash = ''      served by: demo-app (no local auth logic '' @ dash @ '' enforced upstream)''"

lemma dash_lines:
  "page_lines dash =
     take 5 (page_lines []) @ title_line dash # drop 6 (take 58 (page_lines [])) @ footer_line dash # drop 59 (page_lines [])"
  by (simp add: page_lines_def title_line_def footer_line_def)

lemma page_line_cases:
  assumes "l \<in> set (page_lines dash)"
  shows "l \<in> set (page_lines []) \<or> l = title_line dash \<or> l = footer_line dash"
proof -
  have "l \<in> set xs \<or> l = x \<or> l = y" if "l \<in> set (take 5 xs @ x # drop 6 (take 58 xs) @ y # drop 59 xs)" for x y xs
    using that by (auto dest: in_set_takeD in_set_dropD)
  then show ?thesis using assms unfolding dash_lines [of dash] by blast
qed

lemma title_formats:
  "str_format empty_fields ''  <title>ZTLab demo '' = Inr ''  <title>ZTLab demo ''"
  "str_format empty_fields '' {zone_label}</title>'' = Inr '' </title>''"
  "str_format empty_fields ''      served by: demo-app (no local auth logic '' =
     Inr ''      served by: demo-app (no local auth logic ''"
  "str_format empty_fields '' enforced upstream)'' = Inr '' enforced upstream)''"
  by code_simp+

lemma page_formats:
  assumes "obrace \<notin> set dash" "cbrace \<notin> set dash" "map fst vs = page_fields"
  shows "\<exists>t. str_format vs (PAGE_TEMPLATE dash) = Inr t"
proof -
  have line: "\<exists>t. str_format empty_fields (a @ dash @ b) = Inr t"
    if "str_format empty_fields a = Inr r" "str_format empty_fields b = Inr r'" for a b r r'
    using format_append [OF that(1)] format_append [OF format_plain [OF assms(1,2)]] that(2) by simp
  have "\<exists>t. str_format empty_fields l = Inr t" if "l \<in> set (page_lines [])" for l
  proof -
    have "\<not> isl (str_format empty_fields l)" using lines_format that by (simp add: list_all_iff)
    then show ?thesis by (cases "str_format empty_fields l") simp_all
  qed
  moreover have "\<exists>t. str_format empty_fields (title_line dash) = Inr t"
    "\<exists>t. str_format empty_fields (footer_line dash) = Inr t"
    unfolding title_line_def footer_line_def by (rule line, rule title_formats, rule title_formats)+
  ultimately have "\<forall>l \<in> set (page_lines dash). \<exists>t. str_format empty_fields l = Inr t"
    using page_line_cases [of _ dash] by metis
  then obtain t where "str_format empty_fields (PAGE_TEMPLATE dash) = Inr t"
    unfolding PAGE_TEMPLATE_def using format_lines by blast
  moreover have "map fst empty_fields = map fst vs" using assms(3) by (simp add: empty_fields_def comp_def)
  ultimately show ?thesis by (intro format_by_names)
qed

end
