(* ===== verification/DemoApp.thy ===== *)
theory DemoApp
  imports DemoPage
begin

section \<open>The protected application\<close>

text \<open>
  \<open>app/app.py\<close>: the classification of paths, the clearance of the caller, the two data endpoints,
  the zone pages and the response headers. \<open>DATA_OBJECTS\<close> is an argument of the endpoints
  (\<open>objs\<close>), so that what they guarantee holds of any table; \<open>data_objects\<close> is the one of the code.
  A page is the text that \<open>PAGE_TEMPLATE.format\<close> gives. \<open>clearance_monitor\<close> is the
  contract of a filter by clearance.
\<close>

subsection \<open>Classification of paths\<close>

record data_class =
  dc_classification :: string
  dc_retention_days :: int
  dc_encryption_required :: bool
  dc_label :: string

definition DATA_CLASSIFICATIONS :: "(string, data_class) dict" where
  "DATA_CLASSIFICATIONS =
     [(''/public'', \<lparr>dc_classification = ''PUBLIC'', dc_retention_days = 90, dc_encryption_required = False,
         dc_label = ''General information, no sensitivity restrictions''\<rparr>),
      (''/sensitive'', \<lparr>dc_classification = ''CONFIDENTIAL'', dc_retention_days = 30, dc_encryption_required = True,
         dc_label = ''Requires fresh MFA, subject to strict retention''\<rparr>),
      (''/api/data'', \<lparr>dc_classification = ''INTERNAL'', dc_retention_days = 180, dc_encryption_required = True,
         dc_label = ''Internal API data, not for external distribution''\<rparr>),
      (''/admin'', \<lparr>dc_classification = ''RESTRICTED'', dc_retention_days = 365, dc_encryption_required = True,
         dc_label = ''Administrative data, highest sensitivity''\<rparr>)]"

definition unclassified :: data_class where
  "unclassified =
     \<lparr>dc_classification = ''UNCLASSIFIED'', dc_retention_days = 0, dc_encryption_required = False,
      dc_label = ''No classification defined''\<rparr>"

definition classify :: "(string, data_class) dict \<Rightarrow> string \<Rightarrow> data_class" where
  "classify table path =
     (case List.find (\<lambda>(p, _). startswith path p) (sort_key (\<lambda>(p, _). - int (length p)) table) of
        None \<Rightarrow> unclassified
      | Some (_, meta) \<Rightarrow> meta)"

definition get_classification_for_path :: "string \<Rightarrow> data_class" where
  "get_classification_for_path path = classify DATA_CLASSIFICATIONS path"

subsection \<open>Clearance\<close>

definition CLEARANCE_LEVELS :: "(string, int) dict" where
  "CLEARANCE_LEVELS = [(''admin'', 3), (''devops'', 2), (''user'', 1), (''anonymous'', 0)]"

definition CLASSIFICATION_LEVELS :: "(string, int) dict" where
  "CLASSIFICATION_LEVELS =
     [(''RESTRICTED'', 3), (''CONFIDENTIAL'', 2), (''INTERNAL'', 1), (''PUBLIC'', 0), (''UNCLASSIFIED'', 0)]"

definition get_caller_clearance :: "headers \<Rightarrow> int" where
  "get_caller_clearance hs =
     (let value = header_or hs ''X-ZTLab-Clearance'' [] in
      if startswith value ''clearance='' then get_or CLEARANCE_LEVELS (strip (drop 10 value)) 0 else 0)"

definition required_level :: "string \<Rightarrow> int" where
  "required_level object_classification = get_or CLASSIFICATION_LEVELS (upper object_classification) 0"

definition clearance_sufficient :: "headers \<Rightarrow> string \<Rightarrow> bool" where
  "clearance_sufficient hs object_classification = (required_level object_classification \<le> get_caller_clearance hs)"

definition classification_color :: "string \<Rightarrow> string" where
  "classification_color classification =
     get_or [(''PUBLIC'', ''#3ddc97''), (''INTERNAL'', ''#ffd93d''), (''CONFIDENTIAL'', ''#ff6b6b''),
             (''RESTRICTED'', ''#ff3333''), (''UNCLASSIFIED'', ''#888888'')] classification ''#888888''"

subsection \<open>Data objects\<close>

type_synonym data_object = "(string, string) dict"

text \<open>The long dash of two texts is outside the character range and stands as an argument.\<close>

definition data_objects :: "string \<Rightarrow> (string, data_object) dict" where
  "data_objects dash =
     [(''public-announcement'',
        [(''id'', ''public-announcement''), (''classification'', ''PUBLIC''),
         (''owner'', ''communications@zerotrust.lab''),
         (''content'', ''Q3 all-hands meeting scheduled for Friday.'')]),
      (''employee-records'',
        [(''id'', ''employee-records''), (''classification'', ''CONFIDENTIAL''),
         (''owner'', ''hr@zerotrust.lab''),
         (''content'', ''Employee PII '' @ dash @ '' access logged and audited.'')]),
      (''api-config'',
        [(''id'', ''api-config''), (''classification'', ''INTERNAL''),
         (''owner'', ''platform@zerotrust.lab''),
         (''content'', ''Service mesh configuration parameters.'')]),
      (''encryption-keys'',
        [(''id'', ''encryption-keys''), (''classification'', ''RESTRICTED''),
         (''owner'', ''security@zerotrust.lab''),
         (''content'', ''Root CA private keys '' @ dash @ '' never expose via API.'')])]"

definition object_class :: "data_object \<Rightarrow> string" where
  "object_class obj = get_or obj ''classification'' ''PUBLIC''"

definition visible_objects :: "(string, data_object) dict \<Rightarrow> headers \<Rightarrow> (string, data_object) dict" where
  "visible_objects objs hs = filter (\<lambda>(_, obj). clearance_sufficient hs (object_class obj)) objs"

definition object_json :: "data_object \<Rightarrow> json" where
  "object_json obj = JObj (map (\<lambda>(k, v). (k, JStr v)) obj)"

definition api_data :: "(string, data_object) dict \<Rightarrow> headers \<Rightarrow> response" where
  "api_data objs hs =
     (let meta = get_classification_for_path ''/api/data'' in
      json_response 200 (JObj
        [(''classification'', JStr (dc_classification meta)),
         (''encryption_required'', JBool (dc_encryption_required meta)),
         (''retention_days'', JInt (dc_retention_days meta)),
         (''objects'', JObj (map (\<lambda>(k, obj). (k, object_json obj)) (visible_objects objs hs)))]))"

definition api_data_object :: "(string, data_object) dict \<Rightarrow> headers \<Rightarrow> string \<Rightarrow> response py" where
  "api_data_object objs hs object_id =
     (let obj = get_or objs object_id [] in
      if obj = [] then Inr (json_response 404 (error_body ''object not found''))
      else if \<not> clearance_sufficient hs (object_class obj)
      then Inr (json_response 403 (error_body ''insufficient clearance''))
      else
        (let meta = get_classification_for_path ''/api/data'' in
         py_bind (getitem obj ''id'') (\<lambda>i.
         py_bind (getitem obj ''classification'') (\<lambda>c.
         py_bind (getitem obj ''owner'') (\<lambda>w.
         py_bind (getitem obj ''content'') (\<lambda>t.
           Inr (json_response 200 (JObj
             [(''id'', JStr i), (''classification'', JStr c), (''owner'', JStr w), (''content'', JStr t),
              (''parent_classification'', JStr (dc_classification meta))]))))))))"

subsection \<open>Pages and response headers\<close>

text \<open>\<open>str\<close> of a truth value.\<close>

definition py_bool :: "bool \<Rightarrow> string" where
  "py_bool b = (if b then ''True'' else ''False'')"

definition zone_page :: "string \<Rightarrow> string \<Rightarrow> string \<Rightarrow> string \<Rightarrow> string \<Rightarrow> data_class \<Rightarrow> response py" where
  "zone_page dash zone_label banner_color body_text path meta =
     py_bind (str_format
       [(''zone_label'', zone_label), (''banner_color'', banner_color),
        (''body_text'', body_text), (''path'', path),
        (''classification'', dc_classification meta),
        (''classification_color'', classification_color (dc_classification meta)),
        (''encryption_required'', py_bool (dc_encryption_required meta)),
        (''retention_days'', dec_int (dc_retention_days meta))]
       (PAGE_TEMPLATE dash)) (\<lambda>text.
     Inr (json_response 200 (JStr text)))"

definition public_page :: "string \<Rightarrow> string \<Rightarrow> response py" where
  "public_page dash path =
     zone_page dash ''PUBLIC ZONE'' ''#3ddc97''
       ''Any valid authenticated session with healthy device posture reaches this page. No re-authentication freshness requirement applies here.''
       path (get_classification_for_path ''/public'')"

definition sensitive_page :: "string \<Rightarrow> string \<Rightarrow> response py" where
  "sensitive_page dash path =
     zone_page dash (''SENSITIVE ZONE '' @ dash @ '' RE-AUTH REQUIRED'') ''#ff6b6b''
       (''Reaching this page requires a WebAuthn re-authentication within the last 5 minutes, checked against your actual last-auth timestamp ''
         @ dash @ '' not just session-start time.'')
       path (get_classification_for_path ''/sensitive'')"

definition app_security_headers :: "response \<Rightarrow> response" where
  "app_security_headers r =
     set_header ''X-XSS-Protection'' ''1; mode=block''
     (set_header ''X-Frame-Options'' ''DENY''
     (set_header ''X-Content-Type-Options'' ''nosniff'' r))"

definition bool_text :: "bool \<Rightarrow> string" where
  "bool_text b = lower (py_bool b)"

definition label_response :: "string \<Rightarrow> response \<Rightarrow> response" where
  "label_response path r =
     (let meta = get_classification_for_path path in
      set_header ''X-Data-Retention-Days'' (dec_int (dc_retention_days meta))
      (set_header ''X-Data-Encryption-Required'' (bool_text (dc_encryption_required meta))
      (set_header ''X-Data-Classification'' (dc_classification meta) r)))"

text \<open>Flask runs the hooks last registered first.\<close>

definition app_hooks :: "string \<Rightarrow> response \<Rightarrow> response" where
  "app_hooks path r = app_security_headers (label_response path r)"

text \<open>The routes of the application; any other path is a 404 page, which passes the hooks too.\<close>

definition app_route :: "string \<Rightarrow> (string, data_object) dict \<Rightarrow> headers \<Rightarrow> string \<Rightarrow> response py" where
  "app_route dash objs hs path =
     (if path = ''/public'' then public_page dash path
      else if path = ''/sensitive'' then sensitive_page dash path
      else if path = ''/api/data'' then Inr (api_data objs hs)
      else if path = ''/healthz'' then Inr (json_response 200 (JObj [(''status'', JStr ''ok'')]))
      else if startswith path ''/api/data/'' \<and> drop 10 path \<noteq> [] \<and> CHR ''/'' \<notin> set (drop 10 path)
      then api_data_object objs hs (drop 10 path)
      else Inr (json_response 404 JNull))"

definition app_serve :: "string \<Rightarrow> (string, data_object) dict \<Rightarrow> headers \<Rightarrow> string \<Rightarrow> response py" where
  "app_serve dash objs hs path = serve (app_hooks path) (app_route dash objs hs path)"


subsection \<open>A filter by clearance\<close>

locale clearance_monitor =
  fixes level :: "'o \<Rightarrow> 'l::linorder" and permit :: "'l \<Rightarrow> 'o \<Rightarrow> bool"
  assumes permit_iff: "permit c x \<longleftrightarrow> level x \<le> c"
begin

definition view :: "'l \<Rightarrow> 'o list \<Rightarrow> 'o list" where
  "view c xs = filter (permit c) xs"

lemma no_read_up: "x \<in> set (view c xs) \<Longrightarrow> level x \<le> c"
  by (simp add: view_def permit_iff)

lemma view_complete: "x \<in> set xs \<Longrightarrow> level x \<le> c \<Longrightarrow> x \<in> set (view c xs)"
  by (simp add: view_def permit_iff)

lemma view_mono: "c \<le> d \<Longrightarrow> set (view c xs) \<subseteq> set (view d xs)"
  by (auto simp: view_def permit_iff)

lemma view_twice: "view c (view d xs) = view (min c d) xs"
  by (auto simp: view_def permit_iff intro: filter_cong)

text \<open>Tables with the same entries up to a level look the same at this level.\<close>

definition same_below :: "'l \<Rightarrow> 'o list \<Rightarrow> 'o list \<Rightarrow> bool" where
  "same_below c xs ys \<longleftrightarrow> filter (\<lambda>x. level x \<le> c) xs = filter (\<lambda>x. level x \<le> c) ys"

lemma noninterference: "same_below c xs ys \<Longrightarrow> view c xs = view c ys"
  by (simp add: view_def same_below_def permit_iff cong: filter_cong)

lemma same_below_lower:
  assumes "d \<le> c" "same_below c xs ys"
  shows "same_below d xs ys"
proof -
  have "filter (\<lambda>x. level x \<le> d) zs = filter (\<lambda>x. level x \<le> d) (filter (\<lambda>x. level x \<le> c) zs)" for zs
    using assms(1) by (auto intro: filter_cong)
  with assms(2) show ?thesis unfolding same_below_def by metis
qed

lemma same_below_member:
  assumes "same_below c xs ys" "level x \<le> c"
  shows "x \<in> set xs \<longleftrightarrow> x \<in> set ys"
proof -
  have "x \<in> set zs \<longleftrightarrow> x \<in> set (filter (\<lambda>x. level x \<le> c) zs)" for zs
    using assms(2) by simp
  with assms(1) show ?thesis unfolding same_below_def by metis
qed

end

text \<open>The endpoints filter by this level of a table's entry.\<close>

definition entry_level :: "string \<times> data_object \<Rightarrow> int" where
  "entry_level e = required_level (object_class (snd e))"

definition entry_permit :: "int \<Rightarrow> string \<times> data_object \<Rightarrow> bool" where
  "entry_permit c e = (entry_level e \<le> c)"

interpretation objects: clearance_monitor entry_level entry_permit
  by unfold_locales (simp add: entry_permit_def)

lemma visible_objects_view: "visible_objects objs hs = objects.view (get_caller_clearance hs) objs"
proof -
  have "entry_permit c = (\<lambda>e. entry_level e \<le> c)" for c
    by (simp add: fun_eq_iff entry_permit_def)
  then show ?thesis
    by (simp add: visible_objects_def objects.view_def clearance_sufficient_def entry_level_def case_prod_unfold)
qed

text \<open>The identifiers listed in a response of \<open>/api/data\<close>.\<close>

definition listed_ids :: "response \<Rightarrow> string set" where
  "listed_ids r =
     (case resp_body r of
        JObj d \<Rightarrow> (case get_or d ''objects'' JNull of JObj os \<Rightarrow> fst ` set os | _ \<Rightarrow> {})
      | _ \<Rightarrow> {})"

lemma listed_ids_api_data: "listed_ids (api_data objs hs) = fst ` set (visible_objects objs hs)"
  by (simp add: listed_ids_def api_data_def json_response_def Let_def case_prod_unfold image_image)

lemma listed_iff:
  "i \<in> listed_ids (api_data objs hs) \<longleftrightarrow>
    (\<exists>obj. (i, obj) \<in> set objs \<and> clearance_sufficient hs (object_class obj))"
  by (force simp: listed_ids_api_data visible_objects_def)

text \<open>The pages are always formatted; they show nothing of the request, whose path the route fixes.\<close>

lemma zone_page_served:
  assumes "obrace \<notin> set dash" "cbrace \<notin> set dash"
  shows "\<exists>t. zone_page dash l b x p meta = Inr (json_response 200 (JStr t))"
proof -
  let ?vs = "[(''zone_label'', l), (''banner_color'', b), (''body_text'', x), (''path'', p),
    (''classification'', dc_classification meta),
    (''classification_color'', classification_color (dc_classification meta)),
    (''encryption_required'', py_bool (dc_encryption_required meta)), (''retention_days'', dec_int (dc_retention_days meta))]"
  have "map fst ?vs = page_fields" by (simp add: page_fields_def)
  from page_formats [OF assms this] show ?thesis by (auto simp: zone_page_def simp del: append.simps)
qed

lemma pages_served:
  assumes "obrace \<notin> set dash" "cbrace \<notin> set dash" "path = ''/public'' \<or> path = ''/sensitive''"
  shows "\<exists>t. app_route dash objs hs path = Inr (json_response 200 (JStr t))"
  using assms(3) zone_page_served [OF assms(1,2)]
  by (elim disjE) (simp_all add: app_route_def public_page_def sensitive_page_def)

lemma longest_match_first:
  assumes "List.find (\<lambda>(p, _). startswith path p) (sort_key (\<lambda>(p, _). - int (length p)) table) = Some (p, m)"
  shows "(p, m) \<in> set table \<and> startswith path p \<and>
    (\<forall>(q, _) \<in> set table. startswith path q \<longrightarrow> length q \<le> length p)"
proof -
  let ?k = "\<lambda>(p, _). - int (length p)" and ?s = "sort_key (\<lambda>(p, _). - int (length p)) table"
  let ?m = "\<lambda>(p, _). startswith path p"
  obtain i where "i < length ?s \<and> ?m (?s ! i) \<and> (p, m) = ?s ! i \<and> (\<forall>j<i. \<not> ?m (?s ! j))"
    using assms unfolding find_Some_iff by (rule exE)
  then have found: "i < length ?s" "(p, m) = ?s ! i" "?m (?s ! i)" "\<forall>j<i. \<not> ?m (?s ! j)"
    by simp_all
  have i: "i < length ?s" "?s ! i = (p, m)" by (fact found(1), fact found(2) [symmetric])
  have start: "startswith path p" using found(3) unfolding i(2) by simp
  have before: "\<not> startswith path (fst (?s ! j))" if "j < i" for j
    using found(4) that by (simp add: case_prod_unfold)
  have "length q \<le> length p" if q: "(q, m') \<in> set table" "startswith path q" for q m'
  proof -
    from q(1) have "(q, m') \<in> set ?s" by simp
    then obtain j where j: "j < length ?s" "?s ! j = (q, m')"
      unfolding in_set_conv_nth by blast
    with before [of j] q(2) have "i \<le> j" by (cases "j < i") auto
    with j(1) have "map ?k ?s ! i \<le> map ?k ?s ! j"
      by (intro sorted_nth_mono) simp_all
    then show ?thesis using i j by simp
  qed
  moreover have "(p, m) \<in> set table" using i(1,2) by (metis nth_mem set_sort)
  ultimately show ?thesis using start by auto
qed

text \<open>An object with every field the endpoint reads.\<close>

definition complete_object :: "data_object \<Rightarrow> bool" where
  "complete_object obj \<longleftrightarrow>
     (\<forall>k \<in> {''id'', ''classification'', ''owner'', ''content''}. dict_get obj k \<noteq> None)"

lemma complete_not_Nil: "complete_object obj \<Longrightarrow> obj \<noteq> []"
  by (auto simp: complete_object_def)

lemma get_or_not_default: "get_or d k x \<noteq> x \<Longrightarrow> (k, get_or d k x) \<in> set d"
  by (auto simp: get_or_def dict_get_def split: option.splits dest: map_of_SomeD)

lemma get_or_in_dict: "is_dict d \<Longrightarrow> (k, v) \<in> set d \<Longrightarrow> get_or d k x = v"
  by (simp add: get_or_def dict_get_def is_dict_def)

lemma object_status:
  assumes "is_dict objs" "\<forall>(_, obj) \<in> set objs. complete_object obj"
  obtains (missing) "i \<notin> fst ` set objs" "\<exists>r. api_data_object objs hs i = Inr r \<and> resp_status r = 404"
  | (forbidden) "i \<in> fst ` set objs" "i \<notin> listed_ids (api_data objs hs)"
      "\<exists>r. api_data_object objs hs i = Inr r \<and> resp_status r = 403"
  | (served) "i \<in> listed_ids (api_data objs hs)"
      "\<exists>r. api_data_object objs hs i = Inr r \<and> resp_status r = 200"
proof (cases "i \<in> fst ` set objs")
  case False
  then have "get_or objs i [] = []" using get_or_not_default [of objs i "[]"] by force
  with False missing show ?thesis by (simp add: api_data_object_def json_response_def)
next
  case True
  then obtain obj where in_objs: "(i, obj) \<in> set objs" by auto
  then have got: "get_or objs i [] = obj" and full: "complete_object obj"
    using assms get_or_in_dict [OF assms(1) in_objs] by auto
  have listed: "i \<in> listed_ids (api_data objs hs) \<longleftrightarrow> clearance_sufficient hs (object_class obj)"
  proof -
    have "obj' = obj" if "(i, obj') \<in> set objs" for obj'
      using get_or_in_dict [OF assms(1) that, of "[]"] got by simp
    with in_objs show ?thesis unfolding listed_iff by blast
  qed
  show ?thesis
  proof (cases "clearance_sufficient hs (object_class obj)")
    case False
    then show ?thesis
      using True forbidden got listed complete_not_Nil [OF full] by (simp add: api_data_object_def json_response_def)
  next
    case allowed: True
    have "\<exists>v. getitem obj k = Inr v" if "k \<in> {''id'', ''classification'', ''owner'', ''content''}" for k
      using full that by (auto simp: complete_object_def getitem_def)
    then obtain f where f: "getitem obj k = Inr (f k)"
      if "k \<in> {''id'', ''classification'', ''owner'', ''content''}" for k
      by metis
    show ?thesis
      using served allowed got listed complete_not_Nil [OF full]
      by (simp add: api_data_object_def json_response_def f Let_def)
  qed
qed

text \<open>What the endpoint for a single object answers for an identifier that it does not show.\<close>

lemma object_missing:
  assumes "i \<notin> fst ` set objs"
  shows "api_data_object objs hs i = Inr (json_response 404 (error_body ''object not found''))"
proof -
  have "get_or objs i [] = []" using assms get_or_not_default [of objs i "[]"] by force
  then show ?thesis by (simp add: api_data_object_def)
qed

lemma object_hidden:
  assumes "is_dict objs" "(i, obj) \<in> set objs" "complete_object obj"
    and "\<not> required_level (object_class obj) \<le> get_caller_clearance hs"
  shows "api_data_object objs hs i = Inr (json_response 403 (error_body ''insufficient clearance''))"
  using assms get_or_in_dict [OF assms(1,2), of "[]"] complete_not_Nil [OF assms(3)]
  by (simp add: api_data_object_def clearance_sufficient_def)

subsection \<open>Properties\<close>

text \<open>
  The classification of a path is that of its longest registered prefix, for any table, and
  \<open>UNCLASSIFIED\<close> exactly when no registered prefix matches or the matching entry says so itself.
\<close>

theorem longest_prefix_classifies:
  "(\<exists>p. (p, classify table path) \<in> set table \<and> startswith path p \<and>
      (\<forall>(q, _) \<in> set table. startswith path q \<longrightarrow> length q \<le> length p)) \<or>
   classify table path = unclassified \<and> (\<forall>(q, _) \<in> set table. \<not> startswith path q)"
proof (cases "List.find (\<lambda>(p, _). startswith path p) (sort_key (\<lambda>(p, _). - int (length p)) table)")
  case None
  then have "\<forall>(q, _) \<in> set table. \<not> startswith path q"
    by (auto simp: find_None_iff)
  with None show ?thesis by (simp add: classify_def)
next
  case (Some pm)
  obtain p m where "pm = (p, m)" by (cases pm)
  with longest_match_first [of path table p m] Some show ?thesis by (auto simp: classify_def)
qed

text \<open>
  C19: no read up. Whatever the table of objects and whatever the request's headers say, every object
  in the listing, and every object that is served alone, is classified at or below the clearance of
  the caller; a header the application does not know counts as clearance 0.
\<close>

theorem api_no_read_up:
  "(\<forall>i \<in> listed_ids (api_data objs hs). \<exists>obj. (i, obj) \<in> set objs \<and>
      required_level (object_class obj) \<le> get_caller_clearance hs) \<and>
   (\<forall>r. api_data_object objs hs i = Inr r \<and> resp_status r = 200 \<longrightarrow>
      required_level (object_class (get_or objs i [])) \<le> get_caller_clearance hs)"
proof (intro conjI)
  show "\<forall>i \<in> listed_ids (api_data objs hs). \<exists>obj. (i, obj) \<in> set objs \<and>
      required_level (object_class obj) \<le> get_caller_clearance hs"
    using objects.no_read_up [of _ "get_caller_clearance hs" objs]
    by (fastforce simp: listed_ids_api_data visible_objects_view entry_level_def objects.view_def)
  show "\<forall>r. api_data_object objs hs i = Inr r \<and> resp_status r = 200 \<longrightarrow>
      required_level (object_class (get_or objs i [])) \<le> get_caller_clearance hs"
    by (auto simp: api_data_object_def clearance_sufficient_def json_response_def Let_def split: if_splits)
qed


text \<open>
  C21: the two endpoints agree. On a table of complete objects a single object is answered with 200
  exactly when the caller's listing contains it, with 403 when it exists above the clearance, and
  with 404 when it does not exist; no request fails.
\<close>

theorem object_and_listing_agree:
  assumes "is_dict objs" "\<forall>(_, obj) \<in> set objs. complete_object obj"
  shows "\<exists>r. api_data_object objs hs i = Inr r \<and>
    resp_status r =
      (if i \<in> listed_ids (api_data objs hs) then 200
       else if i \<in> fst ` set objs then 403 else 404)"
proof -
  have "listed_ids (api_data objs hs) \<subseteq> fst ` set objs"
    by (auto simp: listed_ids_api_data visible_objects_def)
  then have sub: "i \<notin> fst ` set objs \<Longrightarrow> i \<notin> listed_ids (api_data objs hs)" by blast
  show ?thesis
  proof (cases rule: object_status [OF assms, of i hs])
    case 1
    with sub show ?thesis by simp
  qed simp_all
qed

text \<open>
  C20: noninterference. When two tables of complete objects have the same entries up to the caller's
  clearance, whatever else is in them, the listings are equal, and a request for a single object is
  answered in the same way unless its identifier is in one of the tables alone: then it names an object
  above the clearance, and the only difference is the answer 403 against 404.
\<close>

theorem high_objects_invisible:
  assumes "is_dict objs" "is_dict objs'" "\<forall>(_, obj) \<in> set (objs @ objs'). complete_object obj"
    and "filter (\<lambda>(_, obj). required_level (object_class obj) \<le> get_caller_clearance hs) objs =
      filter (\<lambda>(_, obj). required_level (object_class obj) \<le> get_caller_clearance hs) objs'"
  shows "api_data objs hs = api_data objs' hs \<and>
    ((i \<in> fst ` set objs \<longleftrightarrow> i \<in> fst ` set objs') \<longrightarrow> api_data_object objs hs i = api_data_object objs' hs i) \<and>
    (i \<in> fst ` set objs \<and> i \<notin> fst ` set objs' \<longrightarrow>
       api_data_object objs hs i = Inr (json_response 403 (error_body ''insufficient clearance'')) \<and>
       api_data_object objs' hs i = Inr (json_response 404 (error_body ''object not found'')))"
proof (intro conjI impI)
  let ?c = "get_caller_clearance hs"
  have same: "objects.same_below ?c objs objs'"
    using assms(4) by (simp add: objects.same_below_def entry_level_def case_prod_unfold)
  then show "api_data objs hs = api_data objs' hs"
    by (simp add: api_data_def visible_objects_view objects.noninterference)
  have low: "(i, obj) \<in> set objs \<longleftrightarrow> (i, obj) \<in> set objs'" if "required_level (object_class obj) \<le> ?c" for obj
    using objects.same_below_member [OF same, of "(i, obj)"] that by (simp add: entry_level_def)
  have full: "complete_object obj" if "(i, obj) \<in> set objs \<or> (i, obj) \<in> set objs'" for obj
    using assms(3) that by auto
  show "api_data_object objs hs i = api_data_object objs' hs i" if both: "i \<in> fst ` set objs \<longleftrightarrow> i \<in> fst ` set objs'"
  proof (cases "i \<in> fst ` set objs")
    case False
    with both show ?thesis by (simp add: object_missing)
  next
    case True
    with both obtain obj obj' where in1: "(i, obj) \<in> set objs" and in2: "(i, obj') \<in> set objs'" by auto
    show ?thesis
    proof (cases "obj = obj'")
      case True
      then have "get_or objs i [] = get_or objs' i []"
        using get_or_in_dict [OF assms(1) in1, of "[]"] get_or_in_dict [OF assms(2) in2, of "[]"] by simp
      then show ?thesis by (simp add: api_data_object_def)
    next
      case False
      have "\<not> required_level (object_class obj) \<le> ?c" "\<not> required_level (object_class obj') \<le> ?c"
        using False low [of obj] low [of obj'] in1 in2 get_or_in_dict [OF assms(1), of i _ "[]"]
          get_or_in_dict [OF assms(2), of i _ "[]"] by auto
      then show ?thesis
        using object_hidden [OF assms(1) in1] object_hidden [OF assms(2) in2] full in1 in2 by simp
    qed
  qed
  assume only: "i \<in> fst ` set objs \<and> i \<notin> fst ` set objs'"
  then obtain obj where obj: "(i, obj) \<in> set objs" by auto
  with only low [of obj] have "\<not> required_level (object_class obj) \<le> ?c" by force
  with obj full show "api_data_object objs hs i = Inr (json_response 403 (error_body ''insufficient clearance''))"
    by (intro object_hidden [OF assms(1)]) simp_all
  show "api_data_object objs' hs i = Inr (json_response 404 (error_body ''object not found''))"
    using only by (intro object_missing) simp
qed

text \<open>
  More clearance never shows less: a caller with a higher clearance sees every object that a
  caller with a lower one sees.
\<close>

theorem clearance_monotone:
  assumes "get_caller_clearance hs \<le> get_caller_clearance hs'"
  shows "listed_ids (api_data objs hs) \<subseteq> listed_ids (api_data objs hs')"
  using objects.view_mono [OF assms, of objs] by (auto simp: listed_ids_api_data visible_objects_view)

text \<open>
  Every response of the application is labelled with the classification of its path, errors and
  unknown paths included.
\<close>

theorem responses_labelled:
  assumes "app_serve dash objs hs path = Inr r"
  shows "resp_header r ''X-Data-Classification'' = Some (dc_classification (get_classification_for_path path)) \<and>
    resp_header r ''X-Data-Retention-Days'' = Some (dec_int (dc_retention_days (get_classification_for_path path))) \<and>
    resp_header r ''X-Frame-Options'' = Some ''DENY''"
proof -
  have lowered: "lower ''X-Data-Classification'' = ''x-data-classification''"
    "lower ''X-Data-Retention-Days'' = ''x-data-retention-days''"
    "lower ''X-Data-Encryption-Required'' = ''x-data-encryption-required''"
    "lower ''X-Frame-Options'' = ''x-frame-options''" "lower ''X-XSS-Protection'' = ''x-xss-protection''"
    "lower ''X-Content-Type-Options'' = ''x-content-type-options''"
    by code_simp+
  obtain r' where "r = app_hooks path r'"
    using assms by (auto simp: app_serve_def serve_def split: sum.splits pyerr.splits)
  then show ?thesis
    by (simp add: app_hooks_def app_security_headers_def label_response_def Let_def lowered)
qed

subsection \<open>The properties on the application's own table\<close>

lemma longest_prefix_classifies_witness:
  "\<exists>p. (p, classify DATA_CLASSIFICATIONS ''/api/data/x'') \<in> set DATA_CLASSIFICATIONS \<and>
    startswith ''/api/data/x'' p"
proof -
  have "\<not> (\<forall>(q, _) \<in> set DATA_CLASSIFICATIONS. \<not> startswith ''/api/data/x'' q)"
    by (simp add: DATA_CLASSIFICATIONS_def)
  with longest_prefix_classifies [of DATA_CLASSIFICATIONS "''/api/data/x''"] show ?thesis by blast
qed


lemma data_objects_complete: "\<forall>(_, obj) \<in> set (data_objects dash). complete_object obj"
  by (simp add: data_objects_def complete_object_def)

lemma data_objects_dict: "is_dict (data_objects dash)"
  by (simp add: data_objects_def is_dict_def)

definition user_headers :: headers where
  "user_headers = [(''X-ZTLab-Clearance'', ''clearance=user'')]"

lemma user_clearance: "get_caller_clearance user_headers = 1"
proof -
  have "strip ''user'' = ''user''" by code_simp
  then show ?thesis
    by (simp add: get_caller_clearance_def user_headers_def header_or_def CLEARANCE_LEVELS_def)
qed

lemma levels [simp]:
  "required_level ''PUBLIC'' = 0" "required_level ''INTERNAL'' = 1"
  "required_level ''CONFIDENTIAL'' = 2" "required_level ''RESTRICTED'' = 3"
  by code_simp+

lemma user_listing:
  "listed_ids (api_data (data_objects dash) user_headers) = {''public-announcement'', ''api-config''}"
  by (auto simp: listed_ids_api_data visible_objects_def clearance_sufficient_def user_clearance data_objects_def
      object_class_def)

lemma api_no_read_up_witness:
  "\<exists>obj. (''api-config'', obj) \<in> set (data_objects ''-'') \<and> required_level (object_class obj) \<le> 1"
  using api_no_read_up [of "data_objects ''-''" user_headers] user_listing [of "''-''"] user_clearance by auto

lemma object_and_listing_agree_witness:
  "\<exists>r. api_data_object (data_objects ''-'') user_headers ''encryption-keys'' = Inr r \<and> resp_status r = 403"
proof -
  have known: "''encryption-keys'' \<in> fst ` set (data_objects ''-'')"
    "''encryption-keys'' \<notin> listed_ids (api_data (data_objects ''-'') user_headers)"
    by (simp add: data_objects_def, simp add: user_listing)
  show ?thesis
    using object_and_listing_agree [OF data_objects_dict data_objects_complete, of "''-''" user_headers "''encryption-keys''"]
    unfolding if_P [OF known(1)] if_not_P [OF known(2)] .
qed

text \<open>A table with one object above the clearance of a user, and the empty one.\<close>

definition secret_table :: "(string, data_object) dict" where
  "secret_table =
     [(''k'', [(''id'', ''k''), (''classification'', ''RESTRICTED''), (''owner'', ''o''), (''content'', ''x'')])]"

lemma high_objects_invisible_witness:
  "api_data secret_table user_headers = api_data [] user_headers \<and>
   api_data_object secret_table user_headers ''j'' = api_data_object [] user_headers ''j'' \<and>
   api_data_object secret_table user_headers ''k'' = Inr (json_response 403 (error_body ''insufficient clearance''))"
proof -
  have table: "is_dict secret_table" "\<forall>(_, obj) \<in> set (secret_table @ []). complete_object obj"
    by (simp_all add: secret_table_def is_dict_def complete_object_def)
  have "filter (\<lambda>(_, obj). required_level (object_class obj) \<le> get_caller_clearance user_headers) secret_table =
      filter (\<lambda>(_, obj). required_level (object_class obj) \<le> get_caller_clearance user_headers) []"
    by (simp add: secret_table_def object_class_def user_clearance)
  from high_objects_invisible [OF table(1) _ table(2) this, of "''j''"]
    high_objects_invisible [OF table(1) _ table(2) this, of "''k''"]
  show ?thesis by (simp add: secret_table_def is_dict_def)
qed

lemma clearance_monotone_witness:
  "listed_ids (api_data (data_objects ''-'') []) \<subseteq> listed_ids (api_data (data_objects ''-'') user_headers)"
  by (rule clearance_monotone) (simp add: user_clearance, simp add: get_caller_clearance_def header_or_def)

lemma responses_labelled_witness:
  "\<exists>r. app_serve ''-'' [] [] ''/sensitive'' = Inr r \<and>
    resp_header r ''X-Data-Classification'' = Some (dc_classification (get_classification_for_path ''/sensitive''))"
proof -
  have "\<exists>t. app_route ''-'' [] [] ''/sensitive'' = Inr (json_response 200 (JStr t))"
    by (rule pages_served) simp_all
  then obtain r where "app_serve ''-'' [] [] ''/sensitive'' = Inr r"
    by (auto simp: app_serve_def)
  with responses_labelled show ?thesis by blast
qed

end
