(* ===== verification/SharedStore.thy ===== *)
theory SharedStore
  imports PostureCheck
begin

section \<open>Agents that share the store\<close>

text \<open>
  The agents of all machines write one JSON file, without a lock. A run of
  \<open>scripts/posture_check.py\<close> touches it three times: \<open>main\<close> reads it, opens it for writing, which
  truncates it, and dumps the new document. Here the runs interleave at these points, as a step
  relation. A truncated file is malformed; a dump over a file that another run has filled in the
  meantime leaves the document or, when the other text was longer, a malformed file. A document is
  taken to reach the file in one write.
\<close>

datatype phase = Idle | Loaded json | Opened json

record shared =
  sh_file :: json_file
  sh_run :: "nat \<Rightarrow> phase"

text \<open>The fleet is the set of runs that may happen, each with what its machine and its clock show.\<close>

inductive agent_step :: "platform \<Rightarrow> agent set \<Rightarrow> shared \<Rightarrow> shared \<Rightarrow> bool" for P fleet where
  load: "sh_run s i = Idle \<Longrightarrow> A \<in> fleet \<Longrightarrow> agent_main P A (sh_file s) = Inr (Doc doc) \<Longrightarrow>
    agent_step P fleet s (s\<lparr>sh_run := (sh_run s)(i := Loaded doc)\<rparr>)"
| truncate: "sh_run s i = Loaded doc \<Longrightarrow>
    agent_step P fleet s (s\<lparr>sh_file := BadJson, sh_run := (sh_run s)(i := Opened doc)\<rparr>)"
| dump: "sh_run s i = Opened doc \<Longrightarrow> new = Doc doc \<or> new = BadJson \<Longrightarrow>
    agent_step P fleet s (s\<lparr>sh_file := new, sh_run := (sh_run s)(i := Idle)\<rparr>)"

definition quiet :: "json_file \<Rightarrow> shared" where
  "quiet file = \<lparr>sh_file = file, sh_run = (\<lambda>_. Idle)\<rparr>"

lemma quiet_simps [simp]: "sh_file (quiet f) = f" "sh_run (quiet f) = (\<lambda>_. Idle)"
  by (simp_all add: quiet_def)

inductive interleaved :: "platform \<Rightarrow> agent set \<Rightarrow> json_file \<Rightarrow> shared \<Rightarrow> bool" for P fleet start where
  rest: "interleaved P fleet start (quiet start)"
| turn: "interleaved P fleet start s \<Longrightarrow> agent_step P fleet s s' \<Longrightarrow> interleaved P fleet start s'"

subsection \<open>Where the records come from\<close>

text \<open>The envelope that a run writes for its own address.\<close>

definition written_by :: "platform \<Rightarrow> agent \<Rightarrow> json \<Rightarrow> bool" where
  "written_by P A env \<longleftrightarrow>
     (\<exists>disk_ok process_ok. check_disk_encryption (disk_query A) = Inr disk_ok \<and>
        check_blocklisted_processes (process_query A) = Inr process_ok \<and>
        env = seal P (agent_secret A)
          (posture_entry disk_ok (check_patch_age (patch_stat A) (stat_time A)) process_ok (check_time A)))"

definition authentic :: "platform \<Rightarrow> agent set \<Rightarrow> json_file \<Rightarrow> json \<Rightarrow> bool" where
  "authentic P fleet file doc \<longleftrightarrow>
     (\<exists>store. doc = JObj store \<and> (\<forall>ip env. dict_get store ip = Some env \<longrightarrow>
        (\<exists>old. file = Doc (JObj old) \<and> dict_get old ip = Some env) \<or>
        (\<exists>A \<in> fleet. my_ip A = ip \<and> written_by P A env)))"

definition authentic_file :: "platform \<Rightarrow> agent set \<Rightarrow> json_file \<Rightarrow> json_file \<Rightarrow> bool" where
  "authentic_file P fleet file now \<longleftrightarrow>
     now = file \<or> now = BadJson \<or> (\<exists>doc. now = Doc doc \<and> authentic P fleet file doc)"

lemma authentic_record:
  assumes "authentic_file P fleet start (Doc (JObj store))" "dict_get store ip = Some env"
  shows "Doc (JObj store) = start \<or> (\<exists>old. start = Doc (JObj old) \<and> dict_get old ip = Some env) \<or>
    (\<exists>A \<in> fleet. my_ip A = ip \<and> written_by P A env)"
proof (cases "Doc (JObj store) = start")
  case False
  with assms(1) have "authentic P fleet start (JObj store)" by (auto simp: authentic_file_def)
  with assms(2) show ?thesis unfolding authentic_def by blast
qed simp

lemma authentic_load:
  assumes "authentic_file P fleet file now" "A \<in> fleet" "agent_main P A now = Inr (Doc doc)"
  shows "authentic P fleet file doc"
  using assms(3)
proof (cases rule: agent_main_writes)
  case (1 disk_ok process_ok store)
  let ?env = "seal P (agent_secret A)
    (posture_entry disk_ok (check_patch_age (patch_stat A) (stat_time A)) process_ok (check_time A))"
  have "written_by P A ?env" using 1(1,2) by (auto simp: written_by_def)
  moreover have "(\<exists>old. file = Doc (JObj old) \<and> dict_get old ip = Some env) \<or>
      (\<exists>A \<in> fleet. my_ip A = ip \<and> written_by P A env)" if "dict_get store ip = Some env" for ip env
    using assms(1) 1(3) that by (auto simp: authentic_file_def authentic_def)
  ultimately show ?thesis
    using 1(4) assms(2) by (auto simp: authentic_def pd.lookup_store)
qed

definition all_authentic :: "platform \<Rightarrow> agent set \<Rightarrow> json_file \<Rightarrow> shared \<Rightarrow> bool" where
  "all_authentic P fleet file s \<longleftrightarrow> authentic_file P fleet file (sh_file s) \<and>
     (\<forall>i doc. sh_run s i = Loaded doc \<or> sh_run s i = Opened doc \<longrightarrow> authentic P fleet file doc)"

lemma all_authentic_step:
  assumes "agent_step P fleet s s'" "all_authentic P fleet file s"
  shows "all_authentic P fleet file s'"
  using assms(1)
proof (cases rule: agent_step.cases)
  case (load i A doc)
  then show ?thesis
    using assms(2) authentic_load [of P fleet "file" "sh_file s" A doc] by (auto simp: all_authentic_def)
next
  case (truncate i doc)
  then show ?thesis
    using assms(2) by (auto simp: all_authentic_def authentic_file_def)
next
  case (dump i doc new)
  then show ?thesis
    using assms(2) by (auto simp: all_authentic_def authentic_file_def)
qed

lemma interleaved_authentic: "interleaved P fleet file s \<Longrightarrow> all_authentic P fleet file s"
proof (induction rule: interleaved.induct)
  case rest
  show ?case by (simp add: all_authentic_def authentic_file_def quiet_def)
next
  case (turn s s')
  then show ?case by (blast intro: all_authentic_step)
qed

text \<open>A run that nobody disturbs.\<close>

lemma solo_run:
  assumes "agent_main P A start = Inr (Doc doc)" "A \<in> fleet"
  shows "interleaved P fleet start (quiet (Doc doc))"
proof -
  let ?I = "interleaved P fleet start"
  from interleaved.turn [OF interleaved.rest agent_step.load [of _ 0 A _ P doc]]
  have "?I \<lparr>sh_file = start, sh_run = (\<lambda>_. Idle)(0 := Loaded doc)\<rparr>"
    using assms by (simp add: quiet_def)
  from interleaved.turn [OF this agent_step.truncate [of _ 0 doc]]
  have "?I \<lparr>sh_file = BadJson, sh_run = (\<lambda>_. Idle)(0 := Opened doc)\<rparr>" by simp
  from interleaved.turn [OF this agent_step.dump [of _ 0 doc "Doc doc"]]
  show ?thesis by (simp add: fun_upd_idem quiet_def)
qed

lemma checked_before:
  assumes "interleaved P fleet file s"
    and acc: "accepted_record P cfg (sh_file s) now ip d" and "get_or d ''posture'' JNull = JStr ''healthy''"
  shows "accepted_record P cfg file now ip d \<or>
    (\<exists>A \<in> fleet. my_ip A = ip \<and> d = posture_entry True True True (check_time A) \<and>
       check_disk_encryption (disk_query A) = Inr True \<and> check_patch_age (patch_stat A) (stat_time A) \<and>
       check_blocklisted_processes (process_query A) = Inr True)"
proof -
  have origin: "authentic_file P fleet file (sh_file s)"
    using interleaved_authentic [OF assms(1)] by (simp add: all_authentic_def)
  from acc obtain store env sig where store: "sh_file s = Doc (JObj store)" "dict_get store ip = Some env"
    "open_envelope env = (JObj d, sig)"
    by (auto simp: accepted_record_alt)
  from authentic_record [OF origin [unfolded store(1)] store(2)] store(1) consider (unchanged) "sh_file s = file"
    | (old) old where "file = Doc (JObj old)" "dict_get old ip = Some env"
    | (new) A where "A \<in> fleet" "my_ip A = ip" "written_by P A env"
    by metis
  then show ?thesis
  proof cases
    case unchanged
    with acc show ?thesis by simp
  next
    case old
    with acc store(1,2) show ?thesis by (auto simp: accepted_record_alt)
  next
    case new
    with store(3) assms(3) show ?thesis by (auto simp: written_by_def split: if_splits)
  qed
qed

subsection \<open>Properties\<close>

text \<open>
  C16: no interleaving makes a device healthy. Whatever the order of the reads, truncations and dumps
  of any number of agents, a device that the bridge finds healthy has a record that was accepted
  before they started, or one that a run with its address wrote after passing all three checks.
\<close>

theorem healthy_was_checked:
  assumes "interleaved P fleet file s"
    and "get_posture P cfg (sh_file s) now ip = Inr d" "get_or d ''posture'' JNull = JStr ''healthy''"
  shows "accepted_record P cfg file now ip d \<or>
    (\<exists>A \<in> fleet. my_ip A = ip \<and> d = posture_entry True True True (check_time A) \<and>
       check_disk_encryption (disk_query A) = Inr True \<and> check_patch_age (patch_stat A) (stat_time A) \<and>
       check_blocklisted_processes (process_query A) = Inr True)"
proof (rule checked_before [OF assms(1) _ assms(3)])
  show "accepted_record P cfg (sh_file s) now ip d"
    using get_posture_cases [OF assms(2)] assms(3) by auto
qed

text \<open>
  C32: a verdict can be lost. Two agents that both read the store before either writes it can finish
  such that the store is what the second alone would have written: the verdict of the first is gone,
  and the bridge judges its device by the record from before.
\<close>

theorem concurrent_run_loses_verdict:
  assumes "agent_main P A (Doc (JObj store)) = Inr (Doc a)" "agent_main P B (Doc (JObj store)) = Inr (Doc b)" "my_ip A \<noteq> my_ip B"
  shows "\<exists>s. interleaved P {A, B} (Doc (JObj store)) s \<and> sh_run s = (\<lambda>_. Idle) \<and> sh_file s = Doc b \<and>
    get_posture P cfg (sh_file s) now (my_ip A) = get_posture P cfg (Doc (JObj store)) now (my_ip A)"
proof -
  let ?I = "interleaved P {A, B} (Doc (JObj store))"
  have "?I \<lparr>sh_file = Doc (JObj store), sh_run = (\<lambda>_. Idle)(0 := Loaded a)\<rparr>"
    using interleaved.turn [OF interleaved.rest, OF agent_step.load [of _ 0 A _ P a]] assms(1)
    by (simp add: quiet_def)
  from interleaved.turn [OF this agent_step.load [of _ 1 B _ P b]]
  have "?I \<lparr>sh_file = Doc (JObj store), sh_run = (\<lambda>_. Idle)(0 := Loaded a, 1 := Loaded b)\<rparr>"
    using assms(2) by simp
  from interleaved.turn [OF this agent_step.truncate [of _ 0 a]]
  have "?I \<lparr>sh_file = BadJson, sh_run = (\<lambda>_. Idle)(0 := Opened a, 1 := Loaded b)\<rparr>"
    by (simp add: fun_upd_twist)
  from interleaved.turn [OF this agent_step.dump [of _ 0 a "Doc a"]]
  have "?I \<lparr>sh_file = Doc a, sh_run = (\<lambda>_. Idle)(1 := Loaded b)\<rparr>"
    by (simp add: fun_upd_twist fun_upd_idem)
  from interleaved.turn [OF this agent_step.truncate [of _ 1 b]]
  have "?I \<lparr>sh_file = BadJson, sh_run = (\<lambda>_. Idle)(1 := Opened b)\<rparr>"
    by simp
  from interleaved.turn [OF this agent_step.dump [of _ 1 b "Doc b"]]
  have "?I (quiet (Doc b))"
    by (simp add: fun_upd_idem quiet_def)
  moreover have "get_posture P cfg (Doc b) now (my_ip A) = get_posture P cfg (Doc (JObj store)) now (my_ip A)"
    by (rule other_records_kept [OF assms(2,3)])
  ultimately show ?thesis
    by (intro exI [of _ "quiet (Doc b)"]) (simp add: quiet_def)
qed

text \<open>A run that reads between another run's truncation and dump forgets every other record.\<close>

lemma reading_truncated_store:
  assumes "agent_main P A BadJson = Inr file'"
  shows "\<exists>env. file' = Doc (JObj [(my_ip A, env)])"
  using assms
proof (cases rule: agent_main_writes)
  case (1 disk_ok process_ok store)
  then show ?thesis by (simp add: dict_set_def)
qed

subsection \<open>Worked examples\<close>

text \<open>Two healthy machines, and one whose patch check fails.\<close>

definition other_agent :: agent where
  "other_agent = sample_agent\<lparr>host_address := Some ''10.8.0.3''\<rparr>"

definition late_agent :: agent where
  "late_agent = sample_agent\<lparr>patch_stat := TimeoutExpired\<rparr>"

lemma sample_addresses: "my_ip sample_agent = ''10.8.0.2''" "my_ip other_agent = ''10.8.0.3''" "my_ip late_agent = ''10.8.0.2''"
  by (simp_all add: my_ip_def sample_agent_def other_agent_def late_agent_def)

lemma other_run: "\<exists>doc. agent_main P other_agent (Doc (JObj store)) = Inr (Doc doc)"
  by (simp add: agent_main_def other_agent_def sample_agent_def sample_checks Let_def)

lemma late_run: "\<exists>doc. agent_main P late_agent (Doc (JObj store)) = Inr (Doc doc)"
  by (simp add: agent_main_def late_agent_def sample_agent_def sample_checks Let_def)

text \<open>The failed verdict of a machine that was healthy is lost to another machine's run.\<close>

definition healthy_store :: jdict where
  "healthy_store = [(''10.8.0.2'', seal sample_platform ''key'' (posture_entry True True True 1000))]"

lemma sealed_accepted:
  assumes "now - of_int (trunc_rat t) \<le> 300"
  shows "get_posture sample_platform sample_settings
    (Doc (JObj [(''10.8.0.2'', seal sample_platform ''key'' (posture_entry True True True t))])) now ''10.8.0.2''
    = Inr (posture_entry True True True t)"
proof (rule get_posture_accepted)
  have "posture_digest sample_platform ''key'' e \<noteq> []" for e
    by (simp add: posture_digest_def sample_platform_def)
  from verify_sign_entry [OF this] show "accepted_record sample_platform sample_settings
      (Doc (JObj [(''10.8.0.2'', seal sample_platform ''key'' (posture_entry True True True t))])) now ''10.8.0.2''
      (posture_entry True True True t)"
    using assms by (simp add: accepted_record_alt sample_settings_def)
qed

lemma concurrent_run_loses_verdict_witness:
  "\<exists>s. interleaved sample_platform {late_agent, other_agent} (Doc (JObj healthy_store)) s \<and> sh_run s = (\<lambda>_. Idle) \<and>
    get_posture sample_platform sample_settings (sh_file s) 1060 ''10.8.0.2'' = Inr (posture_entry True True True 1000)"
proof -
  obtain a b where "agent_main sample_platform late_agent (Doc (JObj healthy_store)) = Inr (Doc a)"
    "agent_main sample_platform other_agent (Doc (JObj healthy_store)) = Inr (Doc b)"
    using late_run other_run by blast
  from concurrent_run_loses_verdict [OF this, of sample_settings 1060]
  obtain s where s: "interleaved sample_platform {late_agent, other_agent} (Doc (JObj healthy_store)) s" "sh_run s = (\<lambda>_. Idle)"
    "get_posture sample_platform sample_settings (sh_file s) 1060 ''10.8.0.2'' =
      get_posture sample_platform sample_settings (Doc (JObj healthy_store)) 1060 ''10.8.0.2''"
    by (auto simp: sample_addresses)
  moreover have "get_posture sample_platform sample_settings (Doc (JObj healthy_store)) 1060 ''10.8.0.2'' =
      Inr (posture_entry True True True 1000)"
    unfolding healthy_store_def by (rule sealed_accepted) (simp_all add: trunc_rat_def)
  ultimately show ?thesis by auto
qed

lemma healthy_was_checked_witness:
  "\<exists>s d. interleaved sample_platform {sample_agent} (Doc (JObj [])) s \<and>
    get_posture sample_platform sample_settings (sh_file s) 2060 ''10.8.0.2'' = Inr d \<and>
    d = posture_entry True True True 2000"
proof -
  let ?d = "posture_entry True True True 2000"
  have old: "check_patch_age (Completed ''1000'') 2000" by code_simp
  let ?doc = "JObj [(''10.8.0.2'', seal sample_platform ''key'' ?d)]"
  have run: "agent_main sample_platform sample_agent (Doc (JObj [])) = Inr (Doc ?doc)"
    by (simp add: sample_run old dict_set_def)
  have "interleaved sample_platform {sample_agent} (Doc (JObj [])) (quiet (Doc ?doc))"
    by (rule solo_run [OF run]) simp
  moreover have got: "get_posture sample_platform sample_settings (Doc ?doc) 2060 ''10.8.0.2'' = Inr ?d"
    by (rule sealed_accepted) (simp_all add: trunc_rat_def)
  moreover have "accepted_record sample_platform sample_settings (Doc (JObj [])) 2060 ''10.8.0.2'' ?d \<or>
    (\<exists>A \<in> {sample_agent}. my_ip A = ''10.8.0.2'' \<and> ?d = posture_entry True True True (check_time A) \<and>
       check_disk_encryption (disk_query A) = Inr True \<and> check_patch_age (patch_stat A) (stat_time A) \<and>
       check_blocklisted_processes (process_query A) = Inr True)"
    using calculation by (intro healthy_was_checked [where s = "quiet (Doc ?doc)"]) simp_all
  ultimately have "interleaved sample_platform {sample_agent} (Doc (JObj [])) (quiet (Doc ?doc)) \<and>
      get_posture sample_platform sample_settings (sh_file (quiet (Doc ?doc))) 2060 ''10.8.0.2'' = Inr ?d"
    by (simp only: quiet_simps)
  then show ?thesis by blast
qed

end
