(* ===== verification/IpAddress.thy ===== *)
theory IpAddress
  imports Base64 "HOL-Library.Word"
begin

section \<open>IP addresses and networks\<close>

text \<open>
  Python's \<open>ipaddress\<close> as the services use it: \<open>ip_address(text)\<close>, \<open>str(address)\<close>,
  \<open>ip_network(text, strict=False)\<close> and \<open>address in network\<close>. An address is a machine word of its
  version's width; IPv6 keeps the scope identifier. Every malformed text is a ValueError.
\<close>

unbundle bit_operations_syntax

subsection \<open>IPv4\<close>

definition parse_octet :: "string \<Rightarrow> nat py" where
  "parse_octet s =
     (if s = [] \<or> \<not> list_all is_digit s \<or> 3 < length s \<or> (s \<noteq> ''0'' \<and> hd s = CHR ''0'') \<or> 255 < dec_val s
      then Inl ValueError else Inr (dec_val s))"

definition from_octets :: "nat list \<Rightarrow> nat" where
  "from_octets os = foldl (\<lambda>a b. a * 256 + b) 0 os"

definition parse_ipv4 :: "string \<Rightarrow> 32 word py" where
  "parse_ipv4 s =
     (let octets = split_on (CHR ''.'') s in
      if CHR ''/'' \<in> set s \<or> length octets \<noteq> 4 then Inl ValueError
      else py_bind (py_mapM parse_octet octets) (\<lambda>os. Inr (word_of_nat (from_octets os))))"

definition octets_of :: "nat \<Rightarrow> nat list" where
  "octets_of n = [n div 16777216 mod 256, n div 65536 mod 256, n div 256 mod 256, n mod 256]"

definition str_ipv4 :: "32 word \<Rightarrow> string" where
  "str_ipv4 w = join ''.'' (map dec_nat (octets_of (unat w)))"

subsection \<open>IPv6\<close>

definition hex_val :: "char \<Rightarrow> nat option" where
  "hex_val c = (let n = codepoint c in
     if 48 \<le> n \<and> n \<le> 57 then Some (n - 48)
     else if 65 \<le> n \<and> n \<le> 70 then Some (n - 55)
     else if 97 \<le> n \<and> n \<le> 102 then Some (n - 87)
     else None)"

definition hex_number :: "string \<Rightarrow> nat" where
  "hex_number s = foldl (\<lambda>a c. 16 * a + (case hex_val c of None \<Rightarrow> 0 | Some d \<Rightarrow> d)) 0 s"

fun hex_nat :: "nat \<Rightarrow> string" where
  "hex_nat n = (if n < 16 then [hex_digit n] else hex_nat (n div 16) @ [hex_digit (n mod 16)])"

declare hex_nat.simps [simp del]

definition parse_hextet :: "string \<Rightarrow> nat py" where
  "parse_hextet s =
     (if s = [] \<or> 4 < length s \<or> list_ex (\<lambda>c. hex_val c = None) s then Inl ValueError
      else Inr (hex_number s))"

text \<open>A dotted last part is replaced by two hextets.\<close>

definition expand_dotted :: "string list \<Rightarrow> string list py" where
  "expand_dotted parts =
     (if CHR ''.'' \<in> set (last parts)
      then py_bind (parse_ipv4 (last parts)) (\<lambda>w.
        Inr (butlast parts @ [hex_nat (unat w div 65536 mod 65536), hex_nat (unat w mod 65536)]))
      else Inr parts)"

text \<open>The inner positions with nothing between the colons.\<close>

definition skips :: "string list \<Rightarrow> nat list" where
  "skips parts = filter (\<lambda>i. parts ! i = []) [1..<length parts - 1]"

text \<open>The parts before and after \<open>::\<close>, and the number of hextets it stands for.\<close>

definition split_parts :: "string list \<Rightarrow> (string list \<times> nat \<times> string list) py" where
  "split_parts parts =
     (case skips parts of
        [] \<Rightarrow>
          if length parts \<noteq> 8 \<or> hd parts = [] \<or> last parts = [] then Inl ValueError
          else Inr (parts, 0, [])
      | [i] \<Rightarrow>
          (let hi = (if hd parts = [] then i - 1 else i);
               lo = (if last parts = [] then length parts - i - 2 else length parts - i - 1)
           in if (hd parts = [] \<and> hi \<noteq> 0) \<or> (last parts = [] \<and> lo \<noteq> 0) \<or> 8 < hi + lo + 1
              then Inl ValueError
              else Inr (take hi parts, 8 - (hi + lo), drop (length parts - lo) parts))
      | _ \<Rightarrow> Inl ValueError)"

definition from_hextets :: "nat list \<Rightarrow> nat" where
  "from_hextets hs = foldl (\<lambda>a h. a * 65536 + h) 0 hs"

definition parse_ipv6_int :: "string \<Rightarrow> 128 word py" where
  "parse_ipv6_int s =
     (let parts = split_on (CHR '':'') s in
      if length parts < 3 then Inl ValueError
      else py_bind (expand_dotted parts) (\<lambda>parts.
        if 9 < length parts then Inl ValueError
        else py_bind (split_parts parts) (\<lambda>(hi, skipped, lo).
             py_bind (py_mapM parse_hextet hi) (\<lambda>his.
             py_bind (py_mapM parse_hextet lo) (\<lambda>los.
               Inr (word_of_nat (from_hextets (his @ replicate skipped 0 @ los))))))))"

definition parse_ipv6 :: "string \<Rightarrow> (128 word \<times> string option) py" where
  "parse_ipv6 s =
     (if CHR ''/'' \<in> set s then Inl ValueError
      else case split_on (CHR ''%'') s of
        [addr] \<Rightarrow> py_bind (parse_ipv6_int addr) (\<lambda>w. Inr (w, None))
      | [addr, scope] \<Rightarrow>
          if scope = [] then Inl ValueError
          else py_bind (parse_ipv6_int addr) (\<lambda>w. Inr (w, Some scope))
      | _ \<Rightarrow> Inl ValueError)"

text \<open>Printing: the first longest run of at least two zero hextets becomes \<open>::\<close>.\<close>

definition hextets_of :: "nat \<Rightarrow> nat list" where
  "hextets_of n = map (\<lambda>i. n div 65536 ^ (7 - i) mod 65536) [0..<8]"

definition zero_run :: "nat list \<Rightarrow> nat \<Rightarrow> nat" where
  "zero_run hs i = length (takeWhile (\<lambda>h. h = 0) (drop i hs))"

definition best_run :: "nat list \<Rightarrow> nat \<times> nat" where
  "best_run hs =
     foldl (\<lambda>(start, len) i. if len < zero_run hs i then (i, zero_run hs i) else (start, len)) (0, 0)
       [0..<length hs]"

definition str_ipv6_int :: "128 word \<Rightarrow> string" where
  "str_ipv6_int w =
     (let hs = hextets_of (unat w); (start, len) = best_run hs; text = map hex_nat in
      if 1 < len
      then join '':'' ((if start = 0 then [[]] else []) @ text (take start hs) @ [[]] @ text (drop (start + len) hs)
             @ (if start + len = length hs then [[]] else []))
      else join '':'' (text hs))"

subsection \<open>Addresses\<close>

datatype ip_addr = IPv4 "32 word" | IPv6 "128 word" "string option"

definition ip_address :: "string \<Rightarrow> ip_addr py" where
  "ip_address s =
     py_catch [ValueError] (py_bind (parse_ipv4 s) (\<lambda>w. Inr (IPv4 w)))
       (py_bind (parse_ipv6 s) (\<lambda>(w, scope). Inr (IPv6 w scope)))"

fun str_ip :: "ip_addr \<Rightarrow> string" where
  "str_ip (IPv4 w) = str_ipv4 w"
| "str_ip (IPv6 w scope) = str_ipv6_int w @ (case scope of None \<Rightarrow> [] | Some s \<Rightarrow> ''%'' @ s)"

fun ip_version :: "ip_addr \<Rightarrow> nat" where
  "ip_version (IPv4 _) = 4"
| "ip_version (IPv6 _ _) = 6"

subsection \<open>Networks\<close>

text \<open>A network is its masked address and its mask.\<close>

datatype ip_net = Net4 "32 word" "32 word" | Net6 "128 word" "128 word"

definition prefix_mask :: "nat \<Rightarrow> 'a::len word" where
  "prefix_mask p = (- 1) XOR drop_bit p (- 1)"

definition parse_prefix :: "nat \<Rightarrow> string \<Rightarrow> nat py" where
  "parse_prefix w s =
     (if s = [] \<or> \<not> list_all is_digit s \<or> w < dec_val s then Inl ValueError else Inr (dec_val s))"

text \<open>An IPv4 mask may be written as a netmask or as a hostmask.\<close>

definition trailing_zeros :: "32 word \<Rightarrow> nat" where
  "trailing_zeros w = length (takeWhile (\<lambda>i. \<not> bit w i) [0..<32])"

definition prefix_of_mask :: "32 word \<Rightarrow> nat py" where
  "prefix_of_mask w =
     (let z = trailing_zeros w in
      if drop_bit z w = mask (32 - z) then Inr (32 - z) else Inl ValueError)"

definition parse_mask4 :: "string \<Rightarrow> nat py" where
  "parse_mask4 s =
     py_catch [ValueError] (parse_prefix 32 s)
       (py_bind (parse_ipv4 s) (\<lambda>w.
          py_catch [ValueError] (prefix_of_mask w) (prefix_of_mask (w XOR - 1))))"

definition net4 :: "32 word \<Rightarrow> nat \<Rightarrow> ip_net" where
  "net4 w p = Net4 (w AND prefix_mask p) (prefix_mask p)"

definition net6 :: "128 word \<Rightarrow> nat \<Rightarrow> ip_net" where
  "net6 w p = Net6 (w AND prefix_mask p) (prefix_mask p)"

definition parse_net4 :: "string \<Rightarrow> ip_net py" where
  "parse_net4 s =
     (case split_on (CHR ''/'') s of
        [addr] \<Rightarrow> py_bind (parse_ipv4 addr) (\<lambda>w. Inr (net4 w 32))
      | [addr, m] \<Rightarrow> py_bind (parse_ipv4 addr) (\<lambda>w. py_bind (parse_mask4 m) (\<lambda>p. Inr (net4 w p)))
      | _ \<Rightarrow> Inl ValueError)"

definition parse_net6 :: "string \<Rightarrow> ip_net py" where
  "parse_net6 s =
     (case split_on (CHR ''/'') s of
        [addr] \<Rightarrow> py_bind (parse_ipv6 addr) (\<lambda>(w, _). Inr (net6 w 128))
      | [addr, m] \<Rightarrow> py_bind (parse_ipv6 addr) (\<lambda>(w, _). py_bind (parse_prefix 128 m) (\<lambda>p. Inr (net6 w p)))
      | _ \<Rightarrow> Inl ValueError)"

definition ip_network :: "string \<Rightarrow> ip_net py" where
  "ip_network s = py_catch [ValueError] (parse_net4 s) (parse_net6 s)"

fun in_net :: "ip_addr \<Rightarrow> ip_net \<Rightarrow> bool" where
  "in_net (IPv4 w) (Net4 n m) = (w AND m = n)"
| "in_net (IPv6 w _) (Net6 n m) = (w AND m = n)"
| "in_net _ _ = False"


subsection \<open>Text of an IPv4 address\<close>

lemma from_octets_of:
  assumes "n < 4294967296"
  shows "from_octets (octets_of n) = n"
proof -
  have "n div 65536 = n div 256 div 256" "n div 16777216 = n div 256 div 256 div 256"
    by (simp_all flip: div_mult2_eq)
  moreover from assms have "n div 256 div 256 div 256 < 256"
    by (simp add: less_mult_imp_div_less flip: div_mult2_eq)
  ultimately show ?thesis
    using div_mult_mod_eq [of n 256] div_mult_mod_eq [of "n div 256" 256]
      div_mult_mod_eq [of "n div 256 div 256" 256]
    unfolding from_octets_def octets_of_def by simp
qed

lemma octets_of_digits:
  assumes "i < 256" "j < 256" "k < 256" "l < 256"
  shows "octets_of (((i * 256 + j) * 256 + k) * 256 + l) = [i, j, k, l]"
proof -
  have step: "(a * 256 + b) div 256 = a" "(a * 256 + b) mod 256 = b" if "b < 256" for a b :: nat
    using that by simp_all
  have "n div 65536 = n div 256 div 256" "n div 16777216 = n div 256 div 256 div 256" for n :: nat
    by (simp_all flip: div_mult2_eq)
  then show ?thesis
    using assms by (simp only: octets_of_def step) simp
qed

lemma octets_bounded: "b \<in> set (octets_of n) \<Longrightarrow> b < 256"
  by (auto simp: octets_of_def)

lemma length_dec_nat: "length (dec_nat n) = (if n < 10 then 1 else Suc (length (dec_nat (n div 10))))"
  by (simp add: dec_nat.simps [of n])

lemma dec_nat_short: "n < 1000 \<Longrightarrow> length (dec_nat n) \<le> 3"
  by (simp add: length_dec_nat [of n] length_dec_nat [of "n div 10"] length_dec_nat [of "n div 10 div 10"])

lemma dec_nat_0: "dec_nat n = ''0'' \<longleftrightarrow> n = 0"
  by (metis dec_val_dec_nat dec_nat.simps digit_char_0 zero_less_numeral)

lemma parse_octet_dec_nat: "n < 256 \<Longrightarrow> parse_octet (dec_nat n) = Inr n"
proof -
  assume n: "n < 256"
  have "length (dec_nat n) \<le> 3"
    using n dec_nat_short [of n] by simp
  moreover have "list_all is_digit (dec_nat n)"
    using dec_nat_digits by (auto simp: list_all_iff)
  ultimately show ?thesis
    using n by (auto simp: parse_octet_def dec_nat_0 hd_dec_nat)
qed

lemma dec_nat_no_dot: "CHR ''.'' \<notin> set (dec_nat n)" "CHR ''/'' \<notin> set (dec_nat n)" "CHR '':'' \<notin> set (dec_nat n)"
proof -
  have "\<not> is_digit (CHR ''.'')" "\<not> is_digit (CHR ''/'')" "\<not> is_digit (CHR '':'')"
    by code_simp+
  then show "CHR ''.'' \<notin> set (dec_nat n)" "CHR ''/'' \<notin> set (dec_nat n)" "CHR '':'' \<notin> set (dec_nat n)"
    using dec_nat_digits by blast+
qed

lemma split_str_ipv4: "split_on (CHR ''.'') (str_ipv4 w) = map dec_nat (octets_of (unat w))"
  unfolding str_ipv4_def by (rule split_on_join) (auto simp: octets_of_def dec_nat_no_dot)

lemma set_join: "set (join sep xs) \<subseteq> set sep \<union> \<Union> (set ` set xs)"
  by (induction sep xs rule: join.induct) auto

lemma str_ipv4_chars: "c \<in> set (str_ipv4 w) \<Longrightarrow> is_digit c \<or> c = CHR ''.''"
  using set_join [of "[CHR ''.'']" "map dec_nat (octets_of (unat w))"] dec_nat_digits
  unfolding str_ipv4_def by fastforce

lemma unat_bound32: "unat (w :: 32 word) < 4294967296"
  using unsigned_less [of w] by simp

lemma parse_str_ipv4: "parse_ipv4 (str_ipv4 w) = Inr w"
proof -
  have "\<not> is_digit (CHR ''/'')" by code_simp
  then have "CHR ''/'' \<notin> set (str_ipv4 w)"
    using str_ipv4_chars [of "CHR ''/''" w] by auto
  moreover have "py_mapM parse_octet (map dec_nat (octets_of (unat w))) = Inr (octets_of (unat w))"
    by (simp add: octets_of_def parse_octet_dec_nat)
  moreover have "length (octets_of (unat w)) = 4" by (simp add: octets_of_def)
  ultimately show ?thesis
    by (simp add: parse_ipv4_def split_str_ipv4 from_octets_of unat_bound32)
qed

lemma dec_val_snoc: "dec_val (s @ [c]) = 10 * dec_val s + digit_val c"
  by (simp add: dec_val_def)

lemma digit_char_val:
  assumes "is_digit c"
  shows "digit_char (digit_val c) = c \<and> digit_val c < 10"
proof -
  have "48 + digit_val c = codepoint c" "digit_val c < 10"
    using assms by (auto simp: is_digit_def digit_val_def)
  then show ?thesis by (simp add: digit_char_def)
qed

text \<open>Decimal text without leading zeros is the text of its value.\<close>

lemma dec_nat_dec_val:
  "s \<noteq> [] \<Longrightarrow> list_all is_digit s \<Longrightarrow> s = ''0'' \<or> hd s \<noteq> CHR ''0'' \<Longrightarrow> dec_nat (dec_val s) = s"
proof (induction s rule: rev_induct)
  case (snoc c s)
  from snoc.prems have c: "digit_char (digit_val c) = c" "digit_val c < 10"
    using digit_char_val by auto
  show ?case
  proof (cases "s = []")
    case True
    with c show ?thesis by (subst dec_nat.simps) (simp add: dec_val_def)
  next
    case False
    with snoc.prems have s: "list_all is_digit s" "hd s \<noteq> CHR ''0''"
      by (cases s; auto)+
    with False snoc.IH have ih: "dec_nat (dec_val s) = s" by blast
    have "dec_val s \<noteq> 0"
      using hd_dec_nat [of "dec_val s"] ih s(2) by auto
    then show ?thesis
      using c ih by (subst dec_nat.simps) (simp add: dec_val_snoc)
  qed
qed simp

lemma parse_octet_canonical: "parse_octet s = Inr n \<Longrightarrow> n < 256 \<and> dec_nat n = s"
  using dec_nat_dec_val [of s] by (auto simp: parse_octet_def split: if_splits)

lemma parse_ipv4_canonical:
  assumes "parse_ipv4 s = Inr w"
  shows "str_ipv4 w = s"
proof -
  from assms obtain a b c d os where parts: "split_on (CHR ''.'') s = [a, b, c, d]"
    and os: "py_mapM parse_octet [a, b, c, d] = Inr os" and w: "w = word_of_nat (from_octets os)"
    by (auto simp: parse_ipv4_def Let_def py_bind_eq_Inr length_Suc_conv numeral_eq_Suc split: if_splits)
  from os obtain i j k l where o: "os = [i, j, k, l]"
    "parse_octet a = Inr i" "parse_octet b = Inr j" "parse_octet c = Inr k" "parse_octet d = Inr l"
    by (auto simp: py_bind_eq_Inr)
  then have bounds: "i < 256" "j < 256" "k < 256" "l < 256"
    and printed: "dec_nat i = a" "dec_nat j = b" "dec_nat k = c" "dec_nat l = d"
    using parse_octet_canonical by blast+
  let ?n = "((i * 256 + j) * 256 + k) * 256 + l"
  have "?n < 4294967296" using bounds by simp
  moreover have "from_octets os = ?n" using o(1) by (simp add: from_octets_def)
  ultimately have "unat w = ?n"
    unfolding w by (simp only: unat_of_nat) simp
  moreover have "octets_of ?n = [i, j, k, l]"
    using bounds by (rule octets_of_digits)
  ultimately have "str_ipv4 w = join [CHR ''.''] [a, b, c, d]"
    using printed by (simp add: str_ipv4_def)
  also have "\<dots> = s"
    using join_split_on [of "CHR ''.''" s] parts by simp
  finally show ?thesis .
qed

interpretation dotted: codec str_ipv4 parse_ipv4 "\<lambda>_. True"
  by unfold_locales (rule parse_str_ipv4)


lemma ip_address_ipv4: "ip_address (str_ipv4 w) = Inr (IPv4 w)"
  by (simp add: ip_address_def parse_str_ipv4)

lemma ip_address_version4: "ip_address s = Inr (IPv4 w) \<Longrightarrow> parse_ipv4 s = Inr w"
  by (auto simp: ip_address_def py_catch_eq_Inr py_bind_eq_Inr)

subsection \<open>Membership in a network\<close>

lemma bit_prefix_mask:
  "bit (prefix_mask p :: 'a::len word) i \<longleftrightarrow> i < LENGTH('a) \<and> LENGTH('a) \<le> i + p"
  by (auto simp: prefix_mask_def bit_simps)

text \<open>An address lies in a network when the two agree on the bits of the prefix.\<close>

lemma masked_eq_iff:
  fixes x y :: "'a::len word"
  assumes "p \<le> LENGTH('a)"
  shows "x AND prefix_mask p = y AND prefix_mask p \<longleftrightarrow> drop_bit (LENGTH('a) - p) x = drop_bit (LENGTH('a) - p) y"
proof
  assume eq: "x AND prefix_mask p = y AND prefix_mask p"
  show "drop_bit (LENGTH('a) - p) x = drop_bit (LENGTH('a) - p) y"
  proof (rule bit_word_eqI)
    fix n assume "n < LENGTH('a)"
    have "bit (x AND prefix_mask p) (LENGTH('a) - p + n) = bit (y AND prefix_mask p) (LENGTH('a) - p + n)"
      using eq by simp
    then show "bit (drop_bit (LENGTH('a) - p) x) n = bit (drop_bit (LENGTH('a) - p) y) n"
      using assms by (auto simp: bit_simps bit_prefix_mask dest: bit_imp_le_length)
  qed
next
  assume eq: "drop_bit (LENGTH('a) - p) x = drop_bit (LENGTH('a) - p) y"
  show "x AND prefix_mask p = y AND prefix_mask p"
  proof (rule bit_word_eqI)
    fix n assume n: "n < LENGTH('a)"
    have "bit x n = bit y n" if "LENGTH('a) \<le> n + p"
    proof -
      have "bit (drop_bit (LENGTH('a) - p) x) (n - (LENGTH('a) - p)) =
          bit (drop_bit (LENGTH('a) - p) y) (n - (LENGTH('a) - p))"
        using eq by simp
      then show ?thesis using that n assms by (simp add: bit_simps)
    qed
    then show "bit (x AND prefix_mask p) n = bit (y AND prefix_mask p) n"
      by (auto simp: bit_simps bit_prefix_mask)
  qed
qed

lemma in_net4:
  "p \<le> 32 \<Longrightarrow> in_net (IPv4 x) (net4 w p) \<longleftrightarrow> drop_bit (32 - p) x = drop_bit (32 - p) w"
  using masked_eq_iff [of p x w] by (simp add: net4_def)

lemma in_net6:
  "p \<le> 128 \<Longrightarrow> in_net (IPv6 x s) (net6 w p) \<longleftrightarrow> drop_bit (128 - p) x = drop_bit (128 - p) w"
  using masked_eq_iff [of p x w] by (simp add: net6_def)

text \<open>\<open>a.b.c.d/32\<close>, as the bridge assigns it, holds exactly that address.\<close>

lemma ip_network_host: "ip_network (str_ipv4 w @ ''/32'') = Inr (net4 w 32)"
proof -
  have no_slash: "CHR ''/'' \<notin> set (str_ipv4 w)"
  proof -
    have "\<not> is_digit (CHR ''/'')" by code_simp
    then show ?thesis using str_ipv4_chars [of "CHR ''/''" w] by auto
  qed
  have split: "split_on (CHR ''/'') (str_ipv4 w @ CHR ''/'' # ''32'') = [str_ipv4 w, ''32'']"
    unfolding split_on_append [OF no_slash] by simp
  have "parse_mask4 ''32'' = Inr 32" by code_simp
  then show ?thesis
    using split by (simp add: ip_network_def parse_net4_def parse_str_ipv4)
qed

lemma in_host_net: "in_net (IPv4 x) (net4 w 32) \<longleftrightarrow> x = w"
  using in_net4 [of 32 x w] by simp

end
