(* ===== verification/WireGuard.thy ===== *)
theory WireGuard
  imports IpAddress PostureCheck Validate
begin

section \<open>Peer provisioning\<close>

text \<open>
  \<open>gateway/authz-bridge/app.py\<close>, the WireGuard peer API: \<open>_get_wg_peers\<close>, \<open>_next_available_ip\<close>,
  \<open>_add_wg_peer\<close> and the four \<open>/api/peers\<close> endpoints. The tool \<open>wg\<close> is outside the bridge: a record
  \<open>wg_tool\<close> gives the outcome of its commands, and a handler returns, with its response and the audit
  log, the commands it has issued, in order.
\<close>

datatype wg_command = SetPeer string string | RemovePeer string

record wg_tool =
  wg_show :: run_result
  wg_exec :: "wg_command \<Rightarrow> run_result"

record peer_info =
  allowed_ips :: string
  endpoint :: string

type_synonym outcome = "response py \<times> string \<times> wg_command list"

subsection \<open>The table of peers\<close>

text \<open>
  \<open>wg show\<close> runs without \<open>check=True\<close>: here \<open>Completed\<close> is a run that ended, whatever its exit status, with
  what it printed.
\<close>

abbreviation tab :: char where "tab \<equiv> CHR 0x09"

definition add_line :: "(string, peer_info) dict \<Rightarrow> string \<Rightarrow> (string, peer_info) dict" where
  "add_line peers line =
     (let parts = split_on tab line in
      if 5 \<le> length parts
      then dict_set peers (parts ! 0) \<lparr>allowed_ips = parts ! 3, endpoint = parts ! 4\<rparr>
      else peers)"

definition parse_peers :: "string \<Rightarrow> (string, peer_info) dict" where
  "parse_peers out = foldl add_line [] (tl (split_on newline (strip out)))"

definition get_wg_peers :: "run_result \<Rightarrow> (string, peer_info) dict py" where
  "get_wg_peers result =
     (case result of
        Completed out \<Rightarrow> Inr (parse_peers out)
      | NoCommand \<Rightarrow> Inl FileNotFoundError
      | _ \<Rightarrow> Inr [])"

subsection \<open>The next free address\<close>

text \<open>\<open>ip_address\<close> of an item of the store: text or an integer; the text of anything else is no address.\<close>

fun item_address :: "json \<Rightarrow> ip_addr py" where
  "item_address (JStr s) = ip_address s"
| "item_address (JInt i) =
     (if 0 \<le> i \<and> i < 2 ^ 32 then Inr (IPv4 (word_of_int i))
      else if 0 \<le> i \<and> i < 2 ^ 128 then Inr (IPv6 (word_of_int i) None)
      else Inl ValueError)"
| "item_address (JBool b) = Inr (IPv4 (if b then 1 else 0))"
| "item_address _ = Inl ValueError"

definition existing_ips :: "json list \<Rightarrow> string list" where
  "existing_ips items =
     concat (map (\<lambda>j. case item_address j of Inl _ \<Rightarrow> [] | Inr a \<Rightarrow> [str_ip a]) items)"

definition candidate :: "settings \<Rightarrow> nat \<Rightarrow> string" where
  "candidate cfg i = wg_subnet cfg @ ''.'' @ dec_nat i"

definition candidates :: "settings \<Rightarrow> string list" where
  "candidates cfg = map (candidate cfg) [10..<255]"

definition next_available_ip :: "settings \<Rightarrow> json_file \<Rightarrow> string option py" where
  "next_available_ip cfg file =
     py_bind (py_catch [JSONDecodeError, OSError, FileNotFoundError] (read_json file) (Inr (JObj []))) (\<lambda>store.
     py_bind (py_iter store) (\<lambda>items.
       Inr (List.find (\<lambda>c. c \<notin> set (existing_ips items)) (candidates cfg))))"

subsection \<open>Commands\<close>

text \<open>\<open>subprocess.run(.., check=True)\<close>: success, a failure that the caller handles, or no program.\<close>

fun run_checked :: "run_result \<Rightarrow> bool py" where
  "run_checked (Completed _) = Inr True"
| "run_checked NoCommand = Inl FileNotFoundError"
| "run_checked _ = Inr False"

definition add_wg_peer :: "wg_tool \<Rightarrow> string \<Rightarrow> string \<Rightarrow> bool py" where
  "add_wg_peer G pubkey allowed_ip = run_checked (wg_exec G (SetPeer pubkey (allowed_ip @ ''/32'')))"

definition short_key :: "string \<Rightarrow> string" where
  "short_key k = take 16 k @ ''...''"

subsection \<open>Listing\<close>

definition peer_json :: "string \<times> peer_info \<Rightarrow> json" where
  "peer_json p =
     JObj [(''public_key'', JStr (fst p)), (''public_key_short'', JStr (short_key (fst p))),
           (''allowed_ips'', JStr (allowed_ips (snd p))), (''endpoint'', JStr (endpoint (snd p)))]"

definition list_peers :: "wg_tool \<Rightarrow> response py" where
  "list_peers G =
     py_bind (get_wg_peers (wg_show G)) (\<lambda>peers.
       Inr (json_response 200 (JObj [(''peers'', JArr (map peer_json peers)), (''count'', JInt (int (length peers)))])))"

definition next_ip :: "settings \<Rightarrow> json_file \<Rightarrow> response py" where
  "next_ip cfg file =
     py_bind (next_available_ip cfg file) (\<lambda>ip.
       Inr (case ip of
              None \<Rightarrow> json_response 507 (error_body ''no available IPs'')
            | Some a \<Rightarrow> if a = [] then json_response 507 (error_body ''no available IPs'')
                        else json_response 200 (JObj [(''next_ip'', JStr a)])))"

subsection \<open>Adding and removing\<close>

definition has_admin_token :: "settings \<Rightarrow> request \<Rightarrow> bool" where
  "has_admin_token cfg req =
     (admin_token cfg \<noteq> [] \<and> endswith (header_or (req_headers req) ''Authorization'' []) (admin_token cfg))"

definition may_administer :: "settings \<Rightarrow> request \<Rightarrow> jdict \<Rightarrow> bool" where
  "may_administer cfg req identity =
     (has_admin_token cfg req \<or> truthy (get_or identity ''is_admin'' (JBool False)))"

definition optional_text :: "string option \<Rightarrow> json" where
  "optional_text a = (case a of None \<Rightarrow> JNull | Some s \<Rightarrow> JStr s)"

definition denied_event :: "request \<Rightarrow> jdict \<Rightarrow> jdict" where
  "denied_event req identity =
     [(''event'', JStr ''peer_provision_denied''), (''reason'', JStr ''not_admin''),
      (''source_ip'', optional_text (req_remote req)), (''email'', get_or identity ''email'' (JStr []))]"

definition json_body :: "request \<Rightarrow> json" where
  "json_body req = (case req_json req of None \<Rightarrow> JObj [] | Some j \<Rightarrow> if truthy j then j else JObj [])"

definition text_field :: "jdict \<Rightarrow> string \<Rightarrow> string \<Rightarrow> string py" where
  "text_field d k dflt = py_bind (as_str (get_or d k (JStr dflt))) (\<lambda>s. Inr (strip s))"

text \<open>\<open>^[A-Za-z0-9+/]{43}=$\<close> on text without surrounding space.\<close>

definition key_char :: "char \<Rightarrow> bool" where
  "key_char c = (let n = codepoint c in
     (65 \<le> n \<and> n \<le> 90) \<or> (97 \<le> n \<and> n \<le> 122) \<or> (48 \<le> n \<and> n \<le> 57) \<or> n = 43 \<or> n = 47)"

definition key_format :: "string \<Rightarrow> bool" where
  "key_format s = (list_all key_char (take 43 s) \<and> drop 43 s = ''='')"

definition in_subnet :: "settings \<Rightarrow> ip_addr \<Rightarrow> bool" where
  "in_subnet cfg a = (ip_version a = 4 \<and> startswith (str_ip a) (wg_subnet cfg))"

datatype target = Target string | Refused nat string

text \<open>The address to assign, or the error response.\<close>

definition target_address :: "settings \<Rightarrow> json_file \<Rightarrow> string \<Rightarrow> target py" where
  "target_address cfg file fixed_ip =
     (if fixed_ip \<noteq> [] then
        (case ip_address fixed_ip of
           Inl e \<Rightarrow> if e = ValueError then Inr (Refused 400 ''invalid IP address'') else Inl e
         | Inr a \<Rightarrow>
             if \<not> in_subnet cfg a then Inr (Refused 400 (''IP must be in '' @ wg_subnet cfg @ ''.0/24''))
             else Inr (Target fixed_ip))
      else
        py_bind (next_available_ip cfg file) (\<lambda>ip.
          Inr (case ip of
                 None \<Rightarrow> Refused 507 ''no available IPs in subnet''
               | Some a \<Rightarrow> if a = [] then Refused 507 ''no available IPs in subnet'' else Target a)))"

record new_peer =
  np_key :: string
  np_device :: string
  np_email :: string
  np_fixed :: string

definition read_peer :: "request \<Rightarrow> new_peer py" where
  "read_peer req =
     py_bind (as_dict (json_body req)) (\<lambda>data.
     py_bind (text_field data ''public_key'' []) (\<lambda>pubkey.
     py_bind (text_field data ''device_name'' ''unnamed'') (\<lambda>device.
     py_bind (text_field data ''email'' []) (\<lambda>email.
     py_bind (text_field data ''allowed_ip'' []) (\<lambda>fixed_ip.
       Inr \<lparr>np_key = pubkey, np_device = device, np_email = email, np_fixed = fixed_ip\<rparr>)))))"

definition provisioned_event :: "new_peer \<Rightarrow> string \<Rightarrow> jdict" where
  "provisioned_event p ip =
     [(''event'', JStr ''peer_provisioned''), (''public_key'', JStr (short_key (np_key p))),
      (''device_name'', JStr (np_device p)), (''email'', JStr (np_email p)), (''assigned_ip'', JStr ip)]"

definition provisioned_response :: "new_peer \<Rightarrow> string \<Rightarrow> response" where
  "provisioned_response p ip =
     json_response 201 (JObj
       [(''status'', JStr ''provisioned''), (''public_key'', JStr (short_key (np_key p))),
        (''allowed_ip'', JStr ip), (''device_name'', JStr (np_device p))])"

text \<open>The part of \<open>add_peer\<close> after the checks on the request: existing peers, the command, the event.\<close>

definition provision :: "platform \<Rightarrow> world \<Rightarrow> wg_tool \<Rightarrow> new_peer \<Rightarrow> string \<Rightarrow> string \<Rightarrow> outcome" where
  "provision P W G p ip written =
     (case get_wg_peers (wg_show G) of
        Inl e \<Rightarrow> (Inl e, written, [])
      | Inr existing \<Rightarrow>
          if dict_get existing (np_key p) \<noteq> None
          then (Inr (json_response 409 (error_body ''peer already exists'')), written, [])
          else
            (let cmd = SetPeer (np_key p) (ip @ ''/32'') in
             case add_wg_peer G (np_key p) ip of
               Inl e \<Rightarrow> (Inl e, written, [cmd])
             | Inr False \<Rightarrow>
                 (Inr (json_response 500 (error_body ''failed to add peer to WireGuard'')), written, [cmd])
             | Inr True \<Rightarrow>
                 (Inr (provisioned_response p ip),
                  write_audit_log P (w_log W) (provisioned_event p ip) written, [cmd])))"

definition add_peer :: "platform \<Rightarrow> settings \<Rightarrow> world \<Rightarrow> wg_tool \<Rightarrow> request \<Rightarrow> string \<Rightarrow> outcome" where
  "add_peer P cfg W G req written =
     (case check_identity P (w_oauth W) (req_headers req) of
        Inl e \<Rightarrow> (Inl e, written, [])
      | Inr identity \<Rightarrow>
          if \<not> may_administer cfg req identity
          then (Inr (json_response 403 (error_body ''unauthorized'')),
                write_audit_log P (w_log W) (denied_event req identity) written, [])
          else
     (case read_peer req of
        Inl e \<Rightarrow> (Inl e, written, [])
      | Inr p \<Rightarrow>
          if np_key p = [] \<or> length (np_key p) < 20
          then (Inr (json_response 400 (error_body ''invalid public_key'')), written, [])
          else if \<not> key_format (np_key p)
          then (Inr (json_response 400 (error_body ''invalid public_key format'')), written, [])
          else
     (case target_address cfg (w_store W) (np_fixed p) of
        Inl e \<Rightarrow> (Inl e, written, [])
      | Inr (Refused status msg) \<Rightarrow> (Inr (json_response status (error_body msg)), written, [])
      | Inr (Target ip) \<Rightarrow> provision P W G p ip written)))"

definition remove_peer ::
    "platform \<Rightarrow> settings \<Rightarrow> world \<Rightarrow> wg_tool \<Rightarrow> request \<Rightarrow> string \<Rightarrow> string \<Rightarrow> outcome" where
  "remove_peer P cfg W G req pubkey written =
     (case check_identity P (w_oauth W) (req_headers req) of
        Inl e \<Rightarrow> (Inl e, written, [])
      | Inr identity \<Rightarrow>
          if \<not> may_administer cfg req identity
          then (Inr (json_response 403 (error_body ''unauthorized'')), written, [])
          else
     (case get_wg_peers (wg_show G) of
        Inl e \<Rightarrow> (Inl e, written, [])
      | Inr existing \<Rightarrow>
     (case List.find (\<lambda>key. key = pubkey \<or> startswith key pubkey) (map fst existing) of
        None \<Rightarrow> (Inr (json_response 404 (error_body ''peer not found'')), written, [])
      | Some target_key \<Rightarrow>
          if target_key = [] then (Inr (json_response 404 (error_body ''peer not found'')), written, [])
          else
     (case run_checked (wg_exec G (RemovePeer target_key)) of
        Inl e \<Rightarrow> (Inl e, written, [RemovePeer target_key])
      | Inr False \<Rightarrow>
          (Inr (json_response 500 (error_body ''failed to remove peer'')), written, [RemovePeer target_key])
      | Inr True \<Rightarrow>
          (Inr (json_response 200 (JObj [(''status'', JStr ''removed''), (''public_key'', JStr (short_key target_key))])),
           write_audit_log P (w_log W)
             [(''event'', JStr ''peer_removed''), (''public_key'', JStr (short_key target_key))] written,
           [RemovePeer target_key])))))"


subsection \<open>Addresses of the store\<close>

lemma join_has_sep: "2 \<le> length xs \<Longrightarrow> set sep \<subseteq> set (join sep xs)"
  by (induction sep xs rule: join.induct) auto

lemma best_run_start: "hs \<noteq> [] \<Longrightarrow> fst (best_run hs) < length hs"
proof -
  assume "hs \<noteq> []"
  have "fst (foldl (\<lambda>(start, len) i. if len < zero_run hs i then (i, zero_run hs i) else (start, len)) a is) < n"
    if "fst a < n" "\<forall>i \<in> set is. i < n" for a :: "nat \<times> nat" and "is" n
    using that by (induction "is" arbitrary: a) (auto split: prod.splits)
  from this [of "(0, 0)" "length hs" "[0..<length hs]"] \<open>hs \<noteq> []\<close> show ?thesis
    by (simp add: best_run_def)
qed

lemma str_ipv6_colon: "CHR '':'' \<in> set (str_ipv6_int w)"
proof -
  let ?hs = "hextets_of (unat w)"
  obtain i n where run: "best_run ?hs = (i, n)" by fastforce
  have len: "length ?hs = 8" by (simp add: hextets_of_def)
  then have "?hs \<noteq> []" by auto
  with run len have "i < 8" using best_run_start [of ?hs] by simp
  have colon: "CHR '':'' \<in> set (join '':'' xs)" if "2 \<le> length xs" for xs
    using join_has_sep [OF that, of "'':''"] by simp
  show ?thesis
    unfolding str_ipv6_int_def run Let_def prod.case
    by (cases "1 < n") (simp_all only: if_True if_False, (rule colon, use len \<open>i < 8\<close> in simp)+)
qed

lemma str_ip_version4:
  assumes "ip_address s = Inr a" "CHR '':'' \<notin> set (str_ip a)"
  shows "str_ip a = s"
proof (cases a)
  case (IPv4 w)
  with assms(1) show ?thesis
    using parse_ipv4_canonical [OF ip_address_version4] by simp
next
  case (IPv6 w scope)
  with assms(2) str_ipv6_colon show ?thesis by simp
qed

definition proper_subnet :: "settings \<Rightarrow> bool" where
  "proper_subnet cfg \<longleftrightarrow>
     (\<exists>a b c. a < 256 \<and> b < 256 \<and> c < 256 \<and> wg_subnet cfg = join ''.'' (map dec_nat [a, b, c]))"

lemma candidate_address:
  assumes "proper_subnet cfg" "i < 256"
  obtains w where "candidate cfg i = str_ipv4 w"
proof -
  from assms(1) obtain a b c where abc: "a < 256" "b < 256" "c < 256"
    "wg_subnet cfg = join ''.'' (map dec_nat [a, b, c])"
    by (auto simp: proper_subnet_def)
  let ?n = "((a * 256 + b) * 256 + c) * 256 + i"
  have "?n < 4294967296" using abc assms(2) by simp
  then have "unat (word_of_nat ?n :: 32 word) = ?n" by (simp only: unat_of_nat) simp
  then have "candidate cfg i = str_ipv4 (word_of_nat ?n)"
    using abc assms(2) by (simp only: str_ipv4_def octets_of_digits candidate_def) simp
  then show ?thesis by (rule that)
qed

lemma str_ipv4_no_colon: "CHR '':'' \<notin> set (str_ipv4 w)"
proof -
  have "\<not> is_digit (CHR '':'')" by code_simp
  then show ?thesis using str_ipv4_chars [of "CHR '':''" w] by auto
qed

text \<open>A candidate is among the existing addresses exactly when it is a key of the store.\<close>

lemma candidate_existing:
  assumes "proper_subnet cfg" "i < 256"
  shows "candidate cfg i \<in> set (existing_ips (map (\<lambda>(k, _). JStr k) store)) \<longleftrightarrow>
    dict_get store (candidate cfg i) \<noteq> None"
proof -
  obtain w where w: "candidate cfg i = str_ipv4 w" using assms by (rule candidate_address)
  have "k = str_ipv4 w" if "ip_address k = Inr a" "str_ip a = str_ipv4 w" for k a
    using str_ip_version4 [OF that(1)] that(2) str_ipv4_no_colon [of w] by simp
  then have "candidate cfg i \<in> set (existing_ips (map (\<lambda>(k, _). JStr k) store)) \<longleftrightarrow> str_ipv4 w \<in> fst ` set store"
    unfolding w existing_ips_def
    by (force simp: ip_address_ipv4 image_iff split: sum.splits)
  then show ?thesis
    by (simp add: w dict_get_def map_of_eq_None_iff)
qed

lemma find_Some_in: "List.find P xs = Some x \<Longrightarrow> x \<in> set xs \<and> P x"
  by (induction xs) (auto split: if_splits)

lemma find_range:
  assumes "List.find P (map f [m..<n]) = Some x"
  shows "\<exists>i. m \<le> i \<and> i < n \<and> x = f i \<and> P (f i) \<and> (\<forall>j. m \<le> j \<and> j < i \<longrightarrow> \<not> P (f j))"
proof -
  from assms obtain i where i: "i < length (map f [m..<n])" "P (map f [m..<n] ! i)" "x = map f [m..<n] ! i"
    "\<forall>j<i. \<not> P (map f [m..<n] ! j)"
    unfolding find_Some_iff by blast
  have "\<not> P (f j)" if "m \<le> j" "j < m + i" for j
    using i(1,4) that by (auto dest!: spec [of _ "j - m"])
  with i show ?thesis by (intro exI [of _ "m + i"]) auto
qed

lemma find_candidate:
  "List.find P (candidates cfg) = Some ip \<Longrightarrow>
    \<exists>i. 10 \<le> i \<and> i < 255 \<and> ip = candidate cfg i \<and> P ip \<and> (\<forall>j. 10 \<le> j \<and> j < i \<longrightarrow> \<not> P (candidate cfg j))"
  unfolding candidates_def by (drule find_range) blast

lemma find_no_candidate:
  "List.find P (candidates cfg) = None \<Longrightarrow> 10 \<le> i \<Longrightarrow> i < 255 \<Longrightarrow> \<not> P (candidate cfg i)"
  unfolding candidates_def find_None_iff
  by (metis atLeastLessThan_iff imageI set_map set_upt)

lemma next_available_ip_store:
  "next_available_ip cfg (Doc (JObj store)) =
    Inr (List.find (\<lambda>c. c \<notin> set (existing_ips (map (\<lambda>(k, _). JStr k) store))) (candidates cfg))"
  by (simp add: next_available_ip_def)


lemma next_free:
  assumes "proper_subnet cfg" "next_available_ip cfg (Doc (JObj store)) = Inr (Some ip)"
  shows "\<exists>i. 10 \<le> i \<and> i < 255 \<and> ip = candidate cfg i \<and> dict_get store ip = None \<and>
    (\<forall>j. 10 \<le> j \<and> j < i \<longrightarrow> dict_get store (candidate cfg j) \<noteq> None)"
proof -
  from assms(2) have "List.find (\<lambda>c. c \<notin> set (existing_ips (map (\<lambda>(k, _). JStr k) store))) (candidates cfg) = Some ip"
    by (simp add: next_available_ip_store)
  from find_candidate [OF this] obtain i where i: "10 \<le> i" "i < 255" "ip = candidate cfg i"
    "ip \<notin> set (existing_ips (map (\<lambda>(k, _). JStr k) store))"
    "\<forall>j. 10 \<le> j \<and> j < i \<longrightarrow> candidate cfg j \<in> set (existing_ips (map (\<lambda>(k, _). JStr k) store))"
    by blast
  have "dict_get store ip = None"
    using candidate_existing [OF assms(1), of i store] i(2-4) by simp
  moreover have "dict_get store (candidate cfg j) \<noteq> None" if "10 \<le> j" "j < i" for j
    using candidate_existing [OF assms(1), of j store] i(2,5) that by auto
  ultimately show ?thesis using i(1-3) by blast
qed

lemma none_free:
  assumes "proper_subnet cfg" "next_available_ip cfg (Doc (JObj store)) = Inr None"
  shows "\<forall>i. 10 \<le> i \<and> i < 255 \<longrightarrow> dict_get store (candidate cfg i) \<noteq> None"
  using assms(2) candidate_existing [OF assms(1), of _ store]
  by (auto simp: next_available_ip_store dest: find_no_candidate)

subsection \<open>What a handler may do\<close>

lemma candidate_in_subnet: "startswith (candidate cfg i) (wg_subnet cfg)"
  by (simp add: candidate_def)

text \<open>The test compares text: 10.8.10.5 passes for the subnet 10.8.1.\<close>

lemma subnet_test_too_wide: "wg_subnet cfg = ''10.8.1'' \<Longrightarrow> in_subnet cfg (IPv4 168299013)"
proof -
  have "str_ipv4 168299013 = ''10.8.10.5''"
    by (simp add: str_ipv4_def octets_of_def dec_nat.simps digit_char_def) (intro conjI; code_simp)
  then show "wg_subnet cfg = ''10.8.1'' \<Longrightarrow> ?thesis" by (simp add: in_subnet_def)
qed

text \<open>The address a peer gets: a candidate, or the dotted text that was asked for.\<close>

lemma target_cases:
  assumes "target_address cfg file fixed = Inr (Target ip)"
  obtains (free) i where "10 \<le> i" "i < 255" "ip = candidate cfg i"
  | (fixed) w where "ip = str_ipv4 w" "startswith ip (wg_subnet cfg)"
proof (cases "fixed = []")
  case True
  with assms have "next_available_ip cfg file = Inr (Some ip)"
    by (auto simp: target_address_def py_bind_eq_Inr split: option.splits if_splits)
  then show ?thesis
    using free by (auto simp: next_available_ip_def py_bind_eq_Inr dest!: find_candidate)
next
  case False
  with assms obtain a where a: "ip_address fixed = Inr a" "in_subnet cfg a" "ip = fixed"
    by (auto simp: target_address_def split: sum.splits if_splits)
  then obtain w where w: "a = IPv4 w" by (cases a) (auto simp: in_subnet_def)
  with a have "ip = str_ipv4 w"
    using parse_ipv4_canonical [OF ip_address_version4, of fixed w] by simp
  moreover have "startswith ip (wg_subnet cfg)"
    using a(2) \<open>ip = str_ipv4 w\<close> by (simp add: w in_subnet_def)
  ultimately show ?thesis by (rule fixed)
qed

lemma target_in_subnet:
  "target_address cfg file fixed = Inr (Target ip) \<Longrightarrow> startswith ip (wg_subnet cfg)"
  by (erule target_cases) (simp_all add: candidate_in_subnet)

lemma target_dotted:
  assumes "proper_subnet cfg" "target_address cfg file fixed = Inr (Target ip)"
  shows "\<exists>w. ip = str_ipv4 w"
  using assms(2)
proof (cases rule: target_cases)
  case (free i)
  then have "i < 256" by simp
  with assms(1) show ?thesis unfolding free(3) by (rule candidate_address) blast
qed blast

lemma provision_cases:
  "provision P W G p ip l = (m, l', cmds) \<Longrightarrow>
    cmds = [] \<and> m \<noteq> Inr (provisioned_response p ip) \<and> l' = l \<or>
    cmds = [SetPeer (np_key p) (ip @ ''/32'')] \<and>
      (\<exists>peers. get_wg_peers (wg_show G) = Inr peers \<and> dict_get peers (np_key p) = None)"
  by (auto simp: provision_def json_response_def provisioned_response_def Let_def
      split: sum.splits if_splits bool.splits)

lemma add_peer_commands:
  assumes "add_peer P cfg W G req l = (m, l', cmds)" "cmds \<noteq> []"
  obtains identity p ip where
    "check_identity P (w_oauth W) (req_headers req) = Inr identity" "may_administer cfg req identity"
    "read_peer req = Inr p" "key_format (np_key p)" "target_address cfg (w_store W) (np_fixed p) = Inr (Target ip)"
    "provision P W G p ip l = (m, l', cmds)"
  using assms by (auto simp: add_peer_def split: sum.splits target.splits if_splits)

lemma remove_peer_commands:
  assumes "remove_peer P cfg W G req pubkey l = (m, l', cmds)" "cmds \<noteq> []"
  obtains identity peers key where
    "check_identity P (w_oauth W) (req_headers req) = Inr identity" "may_administer cfg req identity"
    "get_wg_peers (wg_show G) = Inr peers"
    "List.find (\<lambda>key. key = pubkey \<or> startswith key pubkey) (map fst peers) = Some key"
    "key \<noteq> []" "cmds = [RemovePeer key]"
  using assms by (auto simp: remove_peer_def split: sum.splits option.splits if_splits bool.splits)

text \<open>The key of a peer: 43 characters of base64 and one \<open>=\<close>.\<close>

definition base64_char :: "char \<Rightarrow> bool" where
  "base64_char c \<longleftrightarrow>
     codepoint c \<in> {codepoint (CHR ''A'')..codepoint (CHR ''Z'')} \<or>
     codepoint c \<in> {codepoint (CHR ''a'')..codepoint (CHR ''z'')} \<or>
     codepoint c \<in> {codepoint (CHR ''0'')..codepoint (CHR ''9'')} \<or>
     c \<in> {CHR ''+'', CHR ''/''}"

definition wireguard_key :: "string \<Rightarrow> bool" where
  "wireguard_key k \<longleftrightarrow> (\<exists>body. k = body @ ''='' \<and> length body = 43 \<and> list_all base64_char body)"

lemma key_char_base64: "key_char = base64_char"
proof
  fix c
  have points: "codepoint (CHR ''A'') = 65" "codepoint (CHR ''Z'') = 90" "codepoint (CHR ''a'') = 97"
    "codepoint (CHR ''z'') = 122" "codepoint (CHR ''0'') = 48" "codepoint (CHR ''9'') = 57"
    "codepoint (CHR ''+'') = 43" "codepoint (CHR ''/'') = 47"
    by code_simp+
  have "c = d \<longleftrightarrow> codepoint c = codepoint d" for d by (simp add: codepoint_def)
  from this [of "CHR ''+''"] this [of "CHR ''/''"] show "key_char c = base64_char c"
    unfolding key_char_def base64_char_def Let_def points insert_iff empty_iff atLeastAtMost_iff by simp
qed

lemma key_format_key: "key_format k \<longleftrightarrow> wireguard_key k"
proof
  assume k: "key_format k"
  then have tail: "drop 43 k = ''=''" and body: "list_all key_char (take 43 k)" by (simp_all add: key_format_def)
  have "length (drop 43 k) = 1" by (simp add: tail)
  then have "length (take 43 k) = 43" by simp
  moreover have "k = take 43 k @ ''=''" using append_take_drop_id [of 43 k] unfolding tail by simp
  ultimately show "wireguard_key k"
    unfolding wireguard_key_def using body by (intro exI [of _ "take 43 k"]) (simp add: key_char_base64)
next
  assume "wireguard_key k"
  then obtain body where "k = body @ ''=''" "length body = 43" "list_all base64_char body"
    unfolding wireguard_key_def by (elim exE conjE)
  then show "key_format k" by (simp add: key_format_def key_char_base64)
qed

text \<open>
  Who may change the peers: a caller whose \<open>Authorization\<close> header ends in the admin token, when one is
  configured, or one whom oauth2-proxy knows and whose groups contain \<open>admins\<close>.
\<close>

definition administrator :: "settings \<Rightarrow> world \<Rightarrow> request \<Rightarrow> jdict \<Rightarrow> bool" where
  "administrator cfg W req identity \<longleftrightarrow>
     admin_token cfg \<noteq> [] \<and> (\<exists>scheme. header_or (req_headers req) ''Authorization'' [] = scheme @ admin_token cfg) \<or>
     (\<exists>rh body. w_oauth W (header_or (req_headers req) ''Cookie'' []) = Reply 202 rh body) \<and>
       str_in ''admins'' (get_or identity ''groups'' (JArr [])) = Inr True"

lemma may_administer_iff:
  assumes "check_identity P (w_oauth W) (req_headers req) = Inr identity"
  shows "may_administer cfg req identity \<longleftrightarrow> administrator cfg W req identity"
proof -
  have token: "has_admin_token cfg req \<longleftrightarrow> admin_token cfg \<noteq> [] \<and>
      (\<exists>scheme. header_or (req_headers req) ''Authorization'' [] = scheme @ admin_token cfg)"
    by (simp add: has_admin_token_def endswith_def suffix_def)
  from assms show ?thesis
  proof (cases rule: check_identity_cases)
    case anonymous
    have "str_in ''admins'' (get_or not_authenticated ''groups'' (JArr [])) = Inr False"
      by (simp add: not_authenticated_def)
    with anonymous show ?thesis by (simp add: may_administer_def administrator_def token)
  next
    case (user rh body email mfa t groups adm)
    then show ?thesis by (simp add: may_administer_def administrator_def token)
  qed
qed

subsection \<open>Properties\<close>

text \<open>
  C26: the next address is the first free one. For a store whose keys are addresses of the subnet
  \<open>a.b.c\<close>, the answer is the lowest of \<open>a.b.c.10\<close> to \<open>a.b.c.254\<close> that is no key of the store, and
  there is no answer only when all 245 are keys.
\<close>

theorem next_ip_first_free:
  assumes "proper_subnet cfg"
  shows "\<exists>r. next_available_ip cfg (Doc (JObj store)) = Inr r \<and>
    (case r of
       Some ip \<Rightarrow> \<exists>i. 10 \<le> i \<and> i < 255 \<and> ip = candidate cfg i \<and> dict_get store ip = None \<and>
         (\<forall>j. 10 \<le> j \<and> j < i \<longrightarrow> dict_get store (candidate cfg j) \<noteq> None)
     | None \<Rightarrow> \<forall>i. 10 \<le> i \<and> i < 255 \<longrightarrow> dict_get store (candidate cfg i) \<noteq> None)"
proof -
  obtain r where r: "next_available_ip cfg (Doc (JObj store)) = Inr r"
    by (simp add: next_available_ip_store)
  then show ?thesis
    using next_free [OF assms, of store] none_free [OF assms, of store] by (cases r) simp_all
qed

text \<open>
  C22: only administrators change the tunnel. A command that adds a peer is issued only when the
  \<open>Authorization\<close> header ends in the configured admin token or the caller has a session with oauth2-proxy
  whose groups contain \<open>admins\<close>, for a key of 43 characters of base64 and \<open>=\<close> that is not listed, with an address whose text
  starts with the configured prefix; a command that removes one only with the same right and for a listed
  peer whose key starts with the text that was asked for.
\<close>

theorem peer_commands_need_admin:
  "(\<forall>m l' cmds. add_peer P cfg W G req l = (m, l', cmds) \<and> cmds \<noteq> [] \<longrightarrow>
     (\<exists>identity key ip peers. check_identity P (w_oauth W) (req_headers req) = Inr identity \<and>
        administrator cfg W req identity \<and> wireguard_key key \<and>
        get_wg_peers (wg_show G) = Inr peers \<and> dict_get peers key = None \<and>
        startswith ip (wg_subnet cfg) \<and> cmds = [SetPeer key (ip @ ''/32'')])) \<and>
   (\<forall>m l' cmds. remove_peer P cfg W G req pubkey l = (m, l', cmds) \<and> cmds \<noteq> [] \<longrightarrow>
     (\<exists>identity key peers. check_identity P (w_oauth W) (req_headers req) = Inr identity \<and>
        administrator cfg W req identity \<and>
        get_wg_peers (wg_show G) = Inr peers \<and> key \<in> fst ` set peers \<and> startswith key pubkey \<and>
        cmds = [RemovePeer key]))"
proof (intro conjI allI impI)
  fix m l' cmds
  assume "add_peer P cfg W G req l = (m, l', cmds) \<and> cmds \<noteq> []"
  then show "\<exists>identity key ip peers. check_identity P (w_oauth W) (req_headers req) = Inr identity \<and>
      administrator cfg W req identity \<and> wireguard_key key \<and> get_wg_peers (wg_show G) = Inr peers \<and>
      dict_get peers key = None \<and> startswith ip (wg_subnet cfg) \<and> cmds = [SetPeer key (ip @ ''/32'')]"
  proof (elim conjE add_peer_commands)
    fix identity p ip
    assume c: "cmds \<noteq> []" "check_identity P (w_oauth W) (req_headers req) = Inr identity"
      "may_administer cfg req identity" "key_format (np_key p)"
      "target_address cfg (w_store W) (np_fixed p) = Inr (Target ip)" "provision P W G p ip l = (m, l', cmds)"
    from provision_cases [OF c(6)] c(1) obtain peers where
      "cmds = [SetPeer (np_key p) (ip @ ''/32'')]" "get_wg_peers (wg_show G) = Inr peers"
      "dict_get peers (np_key p) = None"
      by blast
    with c(2-4) target_in_subnet [OF c(5)] show ?thesis using may_administer_iff [OF c(2)] key_format_key by blast
  qed
next
  fix m l' cmds
  assume "remove_peer P cfg W G req pubkey l = (m, l', cmds) \<and> cmds \<noteq> []"
  then show "\<exists>identity key peers. check_identity P (w_oauth W) (req_headers req) = Inr identity \<and>
      administrator cfg W req identity \<and> get_wg_peers (wg_show G) = Inr peers \<and>
      key \<in> fst ` set peers \<and> startswith key pubkey \<and> cmds = [RemovePeer key]"
  proof (elim conjE remove_peer_commands)
    fix identity peers key
    assume c: "check_identity P (w_oauth W) (req_headers req) = Inr identity" "may_administer cfg req identity"
      "get_wg_peers (wg_show G) = Inr peers" "cmds = [RemovePeer key]"
      and "List.find (\<lambda>key. key = pubkey \<or> startswith key pubkey) (map fst peers) = Some key"
    then have "key \<in> set (map fst peers)" "key = pubkey \<or> startswith key pubkey"
      using find_Some_in by fastforce+
    then have "key \<in> fst ` set peers" "startswith key pubkey"
      by (auto simp: startswith_def)
    with c show ?thesis using may_administer_iff [OF c(1)] by blast
  qed
qed


text \<open>
  Addresses are handed out twice. Two peers added without a fixed address get the same address
  whenever the posture store is the same for both, since only the store is consulted and adding a
  peer does not change it.
\<close>

theorem same_address_twice:
  assumes "add_peer P cfg W G req l = (m, l1, [SetPeer k1 a1])" "add_peer P cfg W' G' req' l' = (m', l2, [SetPeer k2 a2])"
    and "w_store W' = w_store W"
    and "\<forall>p. read_peer req = Inr p \<or> read_peer req' = Inr p \<longrightarrow> np_fixed p = []"
  shows "a1 = a2"
proof -
  have chosen: "\<exists>ip. a = ip @ ''/32'' \<and> target_address cfg (w_store W) [] = Inr (Target ip)"
    if "add_peer P cfg V H r t = (n, t', [SetPeer k a])" "w_store V = w_store W"
      "\<forall>p. read_peer r = Inr p \<longrightarrow> np_fixed p = []" for V H r t n t' k a
  proof -
    from that(1) obtain p ip where "read_peer r = Inr p"
      "target_address cfg (w_store V) (np_fixed p) = Inr (Target ip)" "provision P V H p ip t = (n, t', [SetPeer k a])"
      by (rule add_peer_commands) simp_all
    with provision_cases [OF this(3)] that(2,3) show ?thesis by auto
  qed
  from chosen [OF assms(1)] chosen [OF assms(2,3)] assms(4) show ?thesis by auto
qed

text \<open>
  A full key removes itself. When every listed peer has a key of the usual 44 characters, a
  removal by a full key issues the command for that key if it is listed, and otherwise no command and
  the answer 404.
\<close>

theorem full_key_removes_itself:
  assumes "check_identity P (w_oauth W) (req_headers req) = Inr identity" "may_administer cfg req identity"
    and "get_wg_peers (wg_show G) = Inr peers" "\<forall>k \<in> fst ` set peers. length k = 44" "length pubkey = 44"
  shows "snd (snd (remove_peer P cfg W G req pubkey l)) =
      (if pubkey \<in> fst ` set peers then [RemovePeer pubkey] else []) \<and>
    (pubkey \<notin> fst ` set peers \<longrightarrow>
      fst (remove_peer P cfg W G req pubkey l) = Inr (json_response 404 (error_body ''peer not found'')))"
proof -
  let ?find = "List.find (\<lambda>key. key = pubkey \<or> startswith key pubkey) (map fst peers)"
  have same: "key = pubkey" if "key \<in> fst ` set peers" "key = pubkey \<or> startswith key pubkey" for key
    using that assms(4,5) by (auto simp: startswith_def prefix_def)
  show ?thesis
  proof (cases ?find)
    case None
    then have "pubkey \<notin> fst ` set peers" by (force simp: find_None_iff)
    with None assms(1-3) show ?thesis by (simp add: remove_peer_def)
  next
    case (Some key)
    then have "key \<in> fst ` set peers" "key = pubkey \<or> startswith key pubkey"
      using find_Some_in [OF Some] by auto
    then have "key = pubkey" "pubkey \<in> fst ` set peers" using same by auto
    moreover have "pubkey \<noteq> []" using assms(5) by auto
    ultimately show ?thesis
      using Some assms(1-3) by (simp add: remove_peer_def split: sum.split bool.split)
  qed
qed

subsection \<open>The output of \<open>wg show dump\<close>\<close>

text \<open>
  The documented format: one line for the interface, then per peer the public key, preshared key,
  endpoint, allowed addresses, time of the latest handshake, bytes received and sent, keepalive.
\<close>

record dump_peer =
  dp_key :: string
  dp_psk :: string
  dp_endpoint :: string
  dp_allowed :: string
  dp_handshake :: string
  dp_rx :: string
  dp_tx :: string
  dp_keepalive :: string

definition dump_fields :: "dump_peer \<Rightarrow> string list" where
  "dump_fields p =
     [dp_key p, dp_psk p, dp_endpoint p, dp_allowed p, dp_handshake p, dp_rx p, dp_tx p, dp_keepalive p]"

definition wg_dump :: "string \<Rightarrow> dump_peer list \<Rightarrow> string" where
  "wg_dump interface_line ps = join [newline] (interface_line # map (\<lambda>p. join [tab] (dump_fields p)) ps) @ [newline]"

definition plain_field :: "string \<Rightarrow> bool" where
  "plain_field s = (s \<noteq> [] \<and> list_all (\<lambda>c. \<not> is_space c) s)"

definition plain_peer :: "dump_peer \<Rightarrow> bool" where
  "plain_peer p = list_all plain_field (dump_fields p)"

lemma strip_trailing_newline:
  assumes "s \<noteq> []" "\<not> is_space (hd s)" "\<not> is_space (last s)"
  shows "strip (s @ [newline]) = s"
proof -
  have "is_space newline" by code_simp
  moreover have "dropWhile is_space (s @ [newline]) = s @ [newline]"
    using assms(1,2) by (cases s) simp_all
  moreover have "dropWhile is_space (rev s) = rev s"
    using assms(1,3) by (cases s rule: rev_cases) simp_all
  ultimately show ?thesis by (simp add: strip_def)
qed

lemma hd_join: "xs \<noteq> [] \<Longrightarrow> hd xs \<noteq> [] \<Longrightarrow> hd (join sep xs) = hd (hd xs)"
  by (induction sep xs rule: join.induct) auto

lemma last_join: "xs \<noteq> [] \<Longrightarrow> last xs \<noteq> [] \<Longrightarrow> last (join sep xs) = last (last xs) \<and> join sep xs \<noteq> []"
  by (induction sep xs rule: join.induct) auto


lemma field_chars:
  assumes "plain_field s" "is_space c"
  shows "c \<notin> set s"
  using assms by (auto simp: plain_field_def list_all_iff)

lemma spaces: "is_space newline" "is_space tab"
  by code_simp+

lemma dump_line:
  assumes "plain_peer p"
  shows "split_on tab (join [tab] (dump_fields p)) = dump_fields p"
    and "newline \<notin> set (join [tab] (dump_fields p))"
    and "join [tab] (dump_fields p) \<noteq> []" "\<not> is_space (last (join [tab] (dump_fields p)))"
proof -
  have fields: "plain_field f" if "f \<in> set (dump_fields p)" for f
    using assms that by (simp add: plain_peer_def list_all_iff)
  show "split_on tab (join [tab] (dump_fields p)) = dump_fields p"
    by (rule split_on_join) (use fields field_chars spaces in \<open>auto simp: dump_fields_def\<close>)
  show "newline \<notin> set (join [tab] (dump_fields p))"
    using set_join [of "[tab]" "dump_fields p"] fields field_chars [OF _ spaces(1)] by fastforce
  have last: "last (dump_fields p) = dp_keepalive p" and "plain_field (dp_keepalive p)"
    using fields by (simp_all add: dump_fields_def)
  then have keep: "dp_keepalive p \<noteq> []" "\<not> is_space (last (dp_keepalive p))"
    by (auto simp: plain_field_def list_all_iff)
  have "dump_fields p \<noteq> []" by (simp add: dump_fields_def)
  with last_join [of "dump_fields p" "[tab]"] last keep
  show "join [tab] (dump_fields p) \<noteq> []" "\<not> is_space (last (join [tab] (dump_fields p)))"
    by simp_all
qed

definition seen_peer :: "dump_peer \<Rightarrow> string \<times> peer_info" where
  "seen_peer p = (dp_key p, \<lparr>allowed_ips = dp_allowed p, endpoint = dp_handshake p\<rparr>)"

lemma add_dump_line:
  "plain_peer p \<Longrightarrow> add_line peers (join [tab] (dump_fields p)) = dict_set peers (fst (seen_peer p)) (snd (seen_peer p))"
  unfolding add_line_def by (simp only: dump_line) (simp add: dump_fields_def seen_peer_def)

lemma add_dump_lines:
  "list_all plain_peer ps \<Longrightarrow>
    foldl add_line d (map (\<lambda>p. join [tab] (dump_fields p)) ps) = foldl (\<lambda>d (k, v). dict_set d k v) d (map seen_peer ps)"
  by (induction ps arbitrary: d) (auto simp: add_dump_line case_prod_unfold)

lemma dump_parsed:
  assumes "list_all plain_peer ps" "newline \<notin> set interface_line"
    and "interface_line \<noteq> []" "\<not> is_space (hd interface_line)" "\<not> is_space (last interface_line)"
  shows "get_wg_peers (Completed (wg_dump interface_line ps)) = Inr (dict_of (map seen_peer ps))"
proof -
  let ?lines = "interface_line # map (\<lambda>p. join [tab] (dump_fields p)) ps"
  have last_line: "last ?lines \<noteq> [] \<and> \<not> is_space (last (last ?lines))"
    using assms dump_line(3,4) by (cases ps rule: rev_cases) simp_all
  have "strip (wg_dump interface_line ps) = join [newline] ?lines"
    unfolding wg_dump_def
    by (rule strip_trailing_newline)
      (use last_join [of ?lines "[newline]"] hd_join [of ?lines "[newline]"] last_line assms(3,4) in simp_all)
  moreover have "split_on newline (join [newline] ?lines) = ?lines"
    by (rule split_on_join) (use assms(1,2) dump_line(2) in \<open>auto simp: list_all_iff\<close>)
  ultimately show ?thesis
    using add_dump_lines [OF assms(1), of "[]"] by (simp add: get_wg_peers_def parse_peers_def dict_of_def)
qed

text \<open>
  What the bridge reads from \<open>wg\<close>. From a dump in the documented format it gets every peer's
  key and allowed addresses, later lines for a key replacing earlier ones; what it calls the endpoint
  is the time of the latest handshake, the field after the addresses.
\<close>

theorem peers_from_dump:
  assumes "list_all plain_peer ps" "newline \<notin> set interface_line"
    and "interface_line \<noteq> []" "\<not> is_space (hd interface_line)" "\<not> is_space (last interface_line)"
  shows "get_wg_peers (Completed (wg_dump interface_line ps)) = Inr (dict_of (map seen_peer ps))"
  by (rule dump_parsed [OF assms])

subsection \<open>Worked examples\<close>

definition sample_key :: "char \<Rightarrow> string" where
  "sample_key c = replicate 43 c @ ''=''"

definition sample_peer :: dump_peer where
  "sample_peer =
     \<lparr>dp_key = sample_key (CHR ''A''), dp_psk = ''(none)'', dp_endpoint = ''1.2.3.4:51820'',
      dp_allowed = ''10.8.0.7/32'', dp_handshake = ''1700000000'', dp_rx = ''1'', dp_tx = ''2'', dp_keepalive = ''off''\<rparr>"

definition sample_tool :: wg_tool where
  "sample_tool = \<lparr>wg_show = Completed (wg_dump ''wg0'' [sample_peer]), wg_exec = (\<lambda>_. Completed [])\<rparr>"

lemma sample_dump:
  "list_all plain_peer [sample_peer]" "newline \<notin> set ''wg0''" "''wg0'' \<noteq> []"
  "\<not> is_space (hd ''wg0'')" "\<not> is_space (last ''wg0'')"
  by code_simp+

lemma sample_peers: "get_wg_peers (wg_show sample_tool) = Inr (dict_of [seen_peer sample_peer])"
  using dump_parsed [OF sample_dump] by (simp add: sample_tool_def)

definition empty_world :: world where
  "empty_world = sample_world\<lparr>w_store := Doc (JObj [])\<rparr>"

definition peer_request :: "char \<Rightarrow> request" where
  "peer_request c = (sample_request ''/api/peers'')\<lparr>req_json := Some (JObj [(''public_key'', JStr (sample_key c))])\<rparr>"

lemma peer_read:
  "read_peer (peer_request (CHR ''B'')) =
     Inr \<lparr>np_key = sample_key (CHR ''B''), np_device = ''unnamed'', np_email = [], np_fixed = []\<rparr>"
  "read_peer (peer_request (CHR ''C'')) =
     Inr \<lparr>np_key = sample_key (CHR ''C''), np_device = ''unnamed'', np_email = [], np_fixed = []\<rparr>"
  by code_simp+

lemma key_formats: "key_format (sample_key (CHR ''B''))" "key_format (sample_key (CHR ''C''))"
  by code_simp+

lemma first_address: "target_address sample_settings (w_store empty_world) [] = Inr (Target (candidate sample_settings 10))"
proof -
  have "candidates sample_settings = candidate sample_settings 10 # map (candidate sample_settings) [11..<255]"
    by (simp add: candidates_def upt_conv_Cons del: upt.simps)
  then show ?thesis
    by (simp add: target_address_def empty_world_def next_available_ip_def existing_ips_def candidate_def)
qed

lemma peer_added:
  assumes "c = CHR ''B'' \<or> c = CHR ''C''"
  shows "\<exists>m l'. add_peer sample_platform sample_settings empty_world sample_tool (peer_request c) [] =
    (m, l', [SetPeer (sample_key c) (candidate sample_settings 10 @ ''/32'')])"
proof -
  have "check_identity sample_platform (w_oauth empty_world) hs =
      Inr (identity_of (JStr ''a@b.c'') True 1000 (JArr [JStr ''admins'']) True)" for hs
    using sample_identity by (simp add: empty_world_def)
  moreover have "sample_key c \<noteq> [] \<and> 20 \<le> length (sample_key c) \<and> key_format (sample_key c)"
    using assms key_formats by (auto simp: sample_key_def)
  moreover have "dict_get (dict_of [seen_peer sample_peer]) (sample_key c) = None"
    using assms by (auto simp: dict_get_dict_of seen_peer_def sample_peer_def sample_key_def)
  moreover have "read_peer (peer_request c) =
      Inr \<lparr>np_key = sample_key c, np_device = ''unnamed'', np_email = [], np_fixed = []\<rparr>"
    using assms peer_read by blast
  ultimately show ?thesis
    by (simp add: add_peer_def may_administer_def first_address provision_def sample_peers add_wg_peer_def)
      (simp add: sample_tool_def)
qed


lemma sample_subnet: "proper_subnet sample_settings"
proof -
  have "wg_subnet sample_settings = join ''.'' (map dec_nat [10, 8, 0])" by code_simp
  then show ?thesis unfolding proper_subnet_def by (intro exI [of _ 10] exI [of _ 8] exI [of _ 0]) simp
qed

lemma next_ip_first_free_witness:
  "\<exists>r. next_available_ip sample_settings (Doc (JObj [(''10.8.0.10'', JNull)])) = Inr r \<and>
    r \<noteq> Some ''10.8.0.10''"
proof -
  let ?store = "[(''10.8.0.10'', JNull)]"
  obtain r where r: "next_available_ip sample_settings (Doc (JObj ?store)) = Inr r"
    "case r of
       Some ip \<Rightarrow> \<exists>i. 10 \<le> i \<and> i < 255 \<and> ip = candidate sample_settings i \<and> dict_get ?store ip = None \<and>
         (\<forall>j. 10 \<le> j \<and> j < i \<longrightarrow> dict_get ?store (candidate sample_settings j) \<noteq> None)
     | None \<Rightarrow> \<forall>i. 10 \<le> i \<and> i < 255 \<longrightarrow> dict_get ?store (candidate sample_settings i) \<noteq> None"
    using next_ip_first_free [OF sample_subnet, of ?store] by blast
  have "dict_get ?store ip = None" if "r = Some ip" for ip
    using r(2) unfolding that option.case by blast
  then have "r \<noteq> Some ''10.8.0.10''" by force
  with r(1) show ?thesis by blast
qed

lemma peer_commands_need_admin_witness:
  "\<exists>key peers. wireguard_key key \<and> get_wg_peers (wg_show sample_tool) = Inr peers \<and> dict_get peers key = None"
proof -
  obtain m l' where "add_peer sample_platform sample_settings empty_world sample_tool (peer_request (CHR ''B'')) [] =
      (m, l', [SetPeer (sample_key (CHR ''B'')) (candidate sample_settings 10 @ ''/32'')])"
    using peer_added [OF disjI1 [OF refl]] by (elim exE)
  with peer_commands_need_admin show ?thesis by blast
qed

lemma same_address_twice_witness:
  "\<exists>a b. a = b \<and>
    (\<exists>m l'. add_peer sample_platform sample_settings empty_world sample_tool (peer_request (CHR ''B'')) [] =
      (m, l', [SetPeer (sample_key (CHR ''B'')) a])) \<and>
    (\<exists>m l'. add_peer sample_platform sample_settings empty_world sample_tool (peer_request (CHR ''C'')) [] =
      (m, l', [SetPeer (sample_key (CHR ''C'')) b]))"
proof -
  let ?a = "candidate sample_settings 10 @ ''/32''"
  obtain m1 l1 where one: "add_peer sample_platform sample_settings empty_world sample_tool (peer_request (CHR ''B'')) [] =
      (m1, l1, [SetPeer (sample_key (CHR ''B'')) ?a])"
    using peer_added [OF disjI1 [OF refl]] by (elim exE)
  obtain m2 l2 where two: "add_peer sample_platform sample_settings empty_world sample_tool (peer_request (CHR ''C'')) [] =
      (m2, l2, [SetPeer (sample_key (CHR ''C'')) ?a])"
    using peer_added [OF disjI2 [OF refl]] by (elim exE)
  have "\<forall>p. read_peer (peer_request (CHR ''B'')) = Inr p \<or> read_peer (peer_request (CHR ''C'')) = Inr p \<longrightarrow>
      np_fixed p = []"
    unfolding peer_read sum.inject by (intro allI impI, elim disjE; drule sym; simp only: new_peer.simps)
  from same_address_twice [OF one two refl this] one two show ?thesis by (intro exI conjI)
qed

lemma full_key_removes_itself_witness:
  "snd (snd (remove_peer sample_platform sample_settings sample_world sample_tool (sample_request ''/'')
     (sample_key (CHR ''A'')) [])) = [RemovePeer (sample_key (CHR ''A''))]"
proof -
  have keys: "fst ` set (dict_of [seen_peer sample_peer]) = {sample_key (CHR ''A'')}"
    by (simp add: dict_of_def dict_set_def seen_peer_def sample_peer_def)
  have "length (sample_key c) = 44" for c by (simp add: sample_key_def)
  with full_key_removes_itself [OF sample_identity _ sample_peers, of sample_settings "sample_request ''/''"
      "sample_key (CHR ''A'')" sample_platform "[]"]
  show ?thesis by (simp add: keys may_administer_def)
qed

lemma peers_from_dump_witness:
  "get_wg_peers (Completed (wg_dump ''wg0'' [sample_peer])) =
    Inr [(sample_key (CHR ''A''), \<lparr>allowed_ips = ''10.8.0.7/32'', endpoint = ''1700000000''\<rparr>)]"
  using peers_from_dump [OF sample_dump] by (simp add: dict_of_def dict_set_def seen_peer_def sample_peer_def)

end
