(* ===== verification/PeerSession.thy ===== *)
theory PeerSession
  imports WireGuard
begin

section \<open>Sequences of peer requests\<close>

text \<open>
  The \<open>/api/peers\<close> endpoints of \<open>gateway/authz-bridge/app.py\<close> as a service: a sequence of calls, each
  on the table of peers that the commands issued before have left. The table belongs to \<open>wg\<close>; \<open>wg_table\<close>
  states what the tool is documented to do with it. The abstract state is the set of listed keys, and
  \<open>peer_spec\<close> says which answers a call may give on it and which set it leaves. Locale \<open>simulation\<close>
  lifts the commuting diagram of one call to sequences of calls.
\<close>

subsection \<open>Services and their specifications\<close>

fun run_calls :: "('c \<Rightarrow> 's \<Rightarrow> 'r \<times> 's) \<Rightarrow> 'c list \<Rightarrow> 's \<Rightarrow> 'r list \<times> 's" where
  "run_calls handle [] s = ([], s)"
| "run_calls handle (c # cs) s =
     (let (r, s1) = handle c s; (rs, s2) = run_calls handle cs s1 in (r # rs, s2))"

inductive spec_run :: "('c \<Rightarrow> 'r \<Rightarrow> 'a \<Rightarrow> 'a \<Rightarrow> bool) \<Rightarrow> 'c list \<Rightarrow> 'r list \<Rightarrow> 'a \<Rightarrow> 'a \<Rightarrow> bool"
  for spec where
  no_calls: "spec_run spec [] [] a a"
| one_call: "spec c r a b \<Longrightarrow> spec_run spec cs rs b d \<Longrightarrow> spec_run spec (c # cs) (r # rs) a d"

inductive_simps spec_run_Nil [simp]: "spec_run spec [] rs a b"
inductive_simps spec_run_Cons [simp]: "spec_run spec (c # cs) rs a b"

lemma spec_run_keeps:
  assumes "\<And>c r a b. c \<in> set cs \<Longrightarrow> spec c r a b \<Longrightarrow> J a \<Longrightarrow> J b"
  shows "spec_run spec cs rs a b \<Longrightarrow> J a \<Longrightarrow> J b"
  using assms by (induction cs arbitrary: rs a) (simp, fastforce)

locale simulation =
  fixes handle :: "'c \<Rightarrow> 's \<Rightarrow> 'r \<times> 's" and spec :: "'c \<Rightarrow> 'r \<Rightarrow> 'a \<Rightarrow> 'a \<Rightarrow> bool"
    and rel :: "'s \<Rightarrow> 'a \<Rightarrow> bool"
  assumes commutes: "rel s a \<Longrightarrow> \<exists>b. spec c (fst (handle c s)) a b \<and> rel (snd (handle c s)) b"
begin

lemma run_refines:
  "rel s a \<Longrightarrow> \<exists>b. spec_run spec cs (fst (run_calls handle cs s)) a b \<and> rel (snd (run_calls handle cs s)) b"
proof (induction cs arbitrary: s a)
  case (Cons c cs)
  obtain b where b: "spec c (fst (handle c s)) a b" "rel (snd (handle c s)) b"
    using commutes [OF Cons.prems] by blast
  with Cons.IH [OF b(2)] show ?case
    by (auto simp: case_prod_unfold Let_def)
qed simp

end

subsection \<open>Calls\<close>

text \<open>
  A call with the surroundings it meets. The tool is a function of the commands issued so far; a call
  appends the commands it issues.
\<close>

datatype call = AddPeer world request | RemoveBy world request string | ListPeers

record session =
  ss_tool :: "wg_command list \<Rightarrow> wg_tool"
  ss_cmds :: "wg_command list"
  ss_log :: string

definition issue :: "outcome \<Rightarrow> session \<Rightarrow> response py \<times> session" where
  "issue out s = (fst out, s\<lparr>ss_cmds := ss_cmds s @ snd (snd out), ss_log := fst (snd out)\<rparr>)"

fun serve_call :: "platform \<Rightarrow> settings \<Rightarrow> call \<Rightarrow> session \<Rightarrow> response py \<times> session" where
  "serve_call P cfg (AddPeer W req) s =
     issue (add_peer P cfg W (ss_tool s (ss_cmds s)) req (ss_log s)) s"
| "serve_call P cfg (RemoveBy W req pubkey) s =
     issue (remove_peer P cfg W (ss_tool s (ss_cmds s)) req pubkey (ss_log s)) s"
| "serve_call P cfg ListPeers s = (list_peers (ss_tool s (ss_cmds s)), s)"

subsection \<open>The documented behaviour of the tool\<close>

definition listed_keys :: "dump_peer list \<Rightarrow> string set" where
  "listed_keys ps = dp_key ` set ps"

fun command_effect :: "wg_command \<Rightarrow> string set \<Rightarrow> string set" where
  "command_effect (SetPeer k a) K = insert k K"
| "command_effect (RemovePeer k) K = K - {k}"

text \<open>
  \<open>wg show dump\<close> prints the interface line and the table in its format; a command that succeeds adds or
  removes the one key, and a command that fails changes no key. Nothing is said of the addresses, which
  \<open>wg\<close> moves between peers. Two idealisations are part of it: \<open>wg show\<close> always completes, and a \<open>wg set\<close> that
  the bridge gives up on after its time limit has changed nothing.
\<close>

definition wg_table :: "(wg_command list \<Rightarrow> wg_tool) \<Rightarrow> string \<Rightarrow> (wg_command list \<Rightarrow> dump_peer list) \<Rightarrow> bool" where
  "wg_table T line table \<longleftrightarrow>
     newline \<notin> set line \<and> line \<noteq> [] \<and> \<not> is_space (hd line) \<and> \<not> is_space (last line) \<and>
     (\<forall>cmds. list_all plain_peer (table cmds) \<and> wg_show (T cmds) = Completed (wg_dump line (table cmds))) \<and>
     (\<forall>cmds c. listed_keys (table (cmds @ [c])) =
        (case wg_exec (T cmds) c of
           Completed _ \<Rightarrow> command_effect c (listed_keys (table cmds))
         | _ \<Rightarrow> listed_keys (table cmds)))"

definition session_keys ::
    "string \<Rightarrow> (wg_command list \<Rightarrow> dump_peer list) \<Rightarrow> session \<Rightarrow> string set \<Rightarrow> bool" where
  "session_keys line table s K \<longleftrightarrow>
     wg_table (ss_tool s) line table \<and> K = listed_keys (table (ss_cmds s))"

subsection \<open>The specification\<close>

definition answers :: "response py \<Rightarrow> nat \<Rightarrow> bool" where
  "answers m status = (case m of Inl _ \<Rightarrow> False | Inr r \<Rightarrow> resp_status r = status)"

text \<open>The tool could not do it: an error response, or the exception of a missing program.\<close>

definition tool_failed :: "response py \<Rightarrow> bool" where
  "tool_failed m = (m = Inl FileNotFoundError \<or> answers m 500)"

text \<open>Sent by someone who may change the peers.\<close>

definition permitted :: "platform \<Rightarrow> settings \<Rightarrow> world \<Rightarrow> request \<Rightarrow> bool" where
  "permitted P cfg W req =
     (case check_identity P (w_oauth W) (req_headers req) of
        Inl _ \<Rightarrow> False
      | Inr identity \<Rightarrow> administrator cfg W req identity)"

lemma permitted_alt:
  "permitted P cfg W req =
     (case check_identity P (w_oauth W) (req_headers req) of
        Inl _ \<Rightarrow> False
      | Inr identity \<Rightarrow> may_administer cfg req identity)"
  by (auto simp: permitted_def may_administer_iff split: sum.split)

text \<open>The key that a permitted and well-formed request asks for.\<close>

definition wanted_key :: "platform \<Rightarrow> settings \<Rightarrow> world \<Rightarrow> request \<Rightarrow> string option" where
  "wanted_key P cfg W req =
     (if \<not> permitted P cfg W req then None
      else case read_peer req of
        Inl _ \<Rightarrow> None
      | Inr p \<Rightarrow>
          (case target_address cfg (w_store W) (np_fixed p) of
             Inr (Target _) \<Rightarrow> if key_format (np_key p) then Some (np_key p) else None
           | _ \<Rightarrow> None))"

fun peer_spec :: "platform \<Rightarrow> settings \<Rightarrow> call \<Rightarrow> response py \<Rightarrow> string set \<Rightarrow> string set \<Rightarrow> bool" where
  "peer_spec P cfg (AddPeer W req) m K K' =
     (case wanted_key P cfg W req of
        None \<Rightarrow> K' = K \<and> \<not> answers m 201
      | Some k \<Rightarrow>
          if k \<in> K then K' = K \<and> answers m 409
          else K' = insert k K \<and> answers m 201 \<or> K' = K \<and> tool_failed m)"
| "peer_spec P cfg (RemoveBy W req pubkey) m K K' =
     (if \<not> permitted P cfg W req then K' = K \<and> \<not> answers m 200
      else if \<exists>k \<in> K. startswith k pubkey
      then \<exists>k \<in> K. startswith k pubkey \<and> (K' = K - {k} \<and> answers m 200 \<or> K' = K \<and> tool_failed m)
      else K' = K \<and> answers m 404)"
| "peer_spec P cfg ListPeers m K K' =
     (K' = K \<and> (\<exists>ps. m = Inr (json_response 200 (JObj
        [(''peers'', JArr (map peer_json ps)), (''count'', JInt (int (card K)))])) \<and>
        fst ` set ps = K \<and> distinct (map fst ps)))"

subsection \<open>What a call reads\<close>

lemma fst_set_dict_of: "fst ` set (dict_of ps) = fst ` set ps"
proof -
  have "k \<in> fst ` set (dict_of ps) \<longleftrightarrow> k \<in> fst ` set ps" for k
  proof -
    have "k \<in> fst ` set (dict_of ps) \<longleftrightarrow> dict_get (dict_of ps) k \<noteq> None"
      by (simp add: dict_get_def map_of_eq_None_iff)
    also have "\<dots> \<longleftrightarrow> k \<in> fst ` set ps"
      by (simp add: dict_get_dict_of map_of_eq_None_iff)
    finally show ?thesis .
  qed
  then show ?thesis by blast
qed

lemma table_read:
  assumes "wg_table T line table"
  obtains peers where "get_wg_peers (wg_show (T cmds)) = Inr peers"
    "fst ` set peers = listed_keys (table cmds)" "distinct (map fst peers)"
proof
  let ?peers = "dict_of (map seen_peer (table cmds))"
  have "list_all plain_peer (table cmds)" "wg_show (T cmds) = Completed (wg_dump line (table cmds))"
    "newline \<notin> set line" "line \<noteq> []" "\<not> is_space (hd line)" "\<not> is_space (last line)"
    using assms by (simp_all add: wg_table_def)
  then show "get_wg_peers (wg_show (T cmds)) = Inr ?peers"
    by (simp add: dump_parsed)
  show "fst ` set ?peers = listed_keys (table cmds)"
    by (simp add: fst_set_dict_of listed_keys_def seen_peer_def image_image)
  show "distinct (map fst ?peers)"
    using is_dict_dict_of [of "map seen_peer (table cmds)"] by (simp add: is_dict_def)
qed

lemma listed_key_plain:
  assumes "wg_table T line table" "k \<in> listed_keys (table cmds)"
  shows "k \<noteq> []"
proof -
  have "list_all plain_peer (table cmds)" using assms(1) by (simp add: wg_table_def)
  with assms(2) show ?thesis
    by (auto simp: listed_keys_def list_all_iff plain_peer_def dump_fields_def plain_field_def)
qed

text \<open>What a command does to the keys, by what \<open>subprocess.run(.., check=True)\<close> makes of its outcome.\<close>

lemma command_keys:
  assumes "wg_table T line table"
  shows "run_checked (wg_exec (T cmds) c) = Inr True \<Longrightarrow>
      listed_keys (table (cmds @ [c])) = command_effect c (listed_keys (table cmds))"
    and "run_checked (wg_exec (T cmds) c) \<noteq> Inr True \<Longrightarrow> listed_keys (table (cmds @ [c])) = listed_keys (table cmds)"
proof -
  have "listed_keys (table (cmds @ [c])) =
      (case wg_exec (T cmds) c of
         Completed _ \<Rightarrow> command_effect c (listed_keys (table cmds)) | _ \<Rightarrow> listed_keys (table cmds))"
    using assms by (simp add: wg_table_def)
  then show "run_checked (wg_exec (T cmds) c) = Inr True \<Longrightarrow>
      listed_keys (table (cmds @ [c])) = command_effect c (listed_keys (table cmds))"
    and "run_checked (wg_exec (T cmds) c) \<noteq> Inr True \<Longrightarrow> listed_keys (table (cmds @ [c])) = listed_keys (table cmds)"
    by (cases "wg_exec (T cmds) c"; simp)+
qed

lemma run_checked_error: "run_checked r = Inl e \<Longrightarrow> e = FileNotFoundError"
  by (cases r) auto

lemma answers_simps [simp]:
  "answers (Inl e) n = False"
  "answers (Inr (json_response m j)) n = (m = n)"
  by (simp_all add: answers_def json_response_def)

subsection \<open>Every call keeps the diagram\<close>

lemma provision_keys:
  assumes "wg_table T line table" "K = listed_keys (table cmds)"
  shows "\<exists>K'. (if np_key p \<in> K then K' = K \<and> answers (fst (provision P W (T cmds) p ip l)) 409
      else K' = insert (np_key p) K \<and> answers (fst (provision P W (T cmds) p ip l)) 201 \<or>
        K' = K \<and> tool_failed (fst (provision P W (T cmds) p ip l))) \<and>
    K' = listed_keys (table (cmds @ snd (snd (provision P W (T cmds) p ip l))))"
proof -
  obtain peers where peers: "get_wg_peers (wg_show (T cmds)) = Inr peers" "fst ` set peers = K"
    unfolding assms(2) using assms(1) by (rule table_read)
  have listed: "dict_get peers (np_key p) \<noteq> None \<longleftrightarrow> np_key p \<in> K"
    using peers(2) by (auto simp: dict_get_def map_of_eq_None_iff)
  let ?c = "SetPeer (np_key p) (ip @ ''/32'')"
  show ?thesis
  proof (cases "np_key p \<in> K")
    case True
    then show ?thesis using listed peers(1) by (simp add: provision_def assms(2))
  next
    case False
    then have new: "dict_get peers (np_key p) = None" using listed by blast
    note run = peers(1) new add_wg_peer_def Let_def
    show ?thesis
    proof (cases "run_checked (wg_exec (T cmds) ?c)")
      case (Inl e)
      then show ?thesis
        using False command_keys(2) [OF assms(1), of cmds ?c] run_checked_error [OF Inl]
        by (simp add: provision_def run tool_failed_def assms(2))
    next
      case (Inr ok)
      then show ?thesis
        using False command_keys [OF assms(1), of cmds ?c]
        by (cases ok) (simp_all add: provision_def run tool_failed_def assms(2) provisioned_response_def)
    qed
  qed
qed

lemma key_format_length: "key_format k \<Longrightarrow> k \<noteq> [] \<and> \<not> length k < 20"
proof -
  assume "key_format k"
  then have "length (drop 43 k) = 1" by (simp add: key_format_def)
  then show ?thesis by auto
qed

lemma add_peer_wanted:
  assumes "wanted_key P cfg W req = Some k"
  obtains p ip where "np_key p = k" "add_peer P cfg W G req l = provision P W G p ip l"
proof -
  from assms obtain identity p ip where "check_identity P (w_oauth W) (req_headers req) = Inr identity"
    "may_administer cfg req identity" "read_peer req = Inr p"
    "target_address cfg (w_store W) (np_fixed p) = Inr (Target ip)" "key_format (np_key p)" "np_key p = k"
    by (auto simp: wanted_key_def permitted_alt split: if_splits sum.splits target.splits)
  moreover from this(5) have "np_key p \<noteq> [] \<and> \<not> length (np_key p) < 20" by (rule key_format_length)
  ultimately show ?thesis by (intro that [of p ip]) (simp_all add: add_peer_def)
qed

lemma refused_status: "target_address cfg f a = Inr (Refused status msg) \<Longrightarrow> status = 400 \<or> status = 507"
  by (auto simp: target_address_def py_bind_eq_Inr split: sum.splits if_splits option.splits)

lemma add_peer_unwanted:
  assumes "wanted_key P cfg W req = None"
  shows "snd (snd (add_peer P cfg W G req l)) = [] \<and> \<not> answers (fst (add_peer P cfg W G req l)) 201"
proof (cases "permitted P cfg W req")
  case False
  then show ?thesis
    by (cases "check_identity P (w_oauth W) (req_headers req)") (simp_all add: add_peer_def permitted_alt)
next
  case True
  then obtain identity where "check_identity P (w_oauth W) (req_headers req) = Inr identity"
    "may_administer cfg req identity"
    by (auto simp: permitted_alt split: sum.splits)
  note who = this
  show ?thesis
  proof (cases "read_peer req")
    case (Inl e)
    with who show ?thesis by (simp add: add_peer_def)
  next
    case (Inr p)
    with assms True have "\<not> key_format (np_key p) \<or> (\<nexists>ip. target_address cfg (w_store W) (np_fixed p) = Inr (Target ip))"
      by (auto simp: wanted_key_def split: sum.splits target.splits if_splits)
    then show ?thesis
    proof (cases "target_address cfg (w_store W) (np_fixed p)")
      case (Inr t)
      with \<open>read_peer req = Inr p\<close> who show ?thesis
        using \<open>\<not> key_format (np_key p) \<or> _\<close> refused_status [of cfg "w_store W" "np_fixed p"]
        by (cases t) (simp_all add: add_peer_def, force)
    qed (use who Inr in \<open>simp add: add_peer_def\<close>)
  qed
qed

lemma session_keysI:
  "wg_table (ss_tool s) line table \<Longrightarrow>
    session_keys line table (snd (issue out s)) (listed_keys (table (ss_cmds s @ snd (snd out))))"
  by (auto simp: session_keys_def issue_def)

lemma add_refines:
  assumes "session_keys line table s K"
  shows "\<exists>K'. peer_spec P cfg (AddPeer W req) (fst (serve_call P cfg (AddPeer W req) s)) K K' \<and>
    session_keys line table (snd (serve_call P cfg (AddPeer W req) s)) K'"
proof -
  from assms have T: "wg_table (ss_tool s) line table" "K = listed_keys (table (ss_cmds s))"
    by (simp_all add: session_keys_def)
  let ?out = "add_peer P cfg W (ss_tool s (ss_cmds s)) req (ss_log s)"
  have called: "serve_call P cfg (AddPeer W req) s = issue ?out s" by simp
  show ?thesis
  proof (cases "wanted_key P cfg W req")
    case None
    with session_keysI [OF T(1), of ?out] T(2) show ?thesis
      unfolding called by (auto simp: add_peer_unwanted issue_def)
  next
    case (Some k)
    then obtain p ip where p: "np_key p = k" "?out = provision P W (ss_tool s (ss_cmds s)) p ip (ss_log s)"
      by (rule add_peer_wanted)
    from provision_keys [OF T, of p P W ip "ss_log s"] obtain K' where
      "if k \<in> K then K' = K \<and> answers (fst ?out) 409
       else K' = insert k K \<and> answers (fst ?out) 201 \<or> K' = K \<and> tool_failed (fst ?out)"
      "K' = listed_keys (table (ss_cmds s @ snd (snd ?out)))"
      unfolding p by blast
    with session_keysI [OF T(1), of ?out] Some show ?thesis
      unfolding called by (intro exI [of _ K']) (auto simp: issue_def split: if_splits)
  qed
qed

text \<open>Of the peers that a removal names, it takes the first one listed.\<close>

lemma remove_keys:
  assumes "wg_table T line table" "K = listed_keys (table cmds)" "permitted P cfg W req"
    and "out = remove_peer P cfg W (T cmds) req pubkey l"
  shows "\<exists>K'. peer_spec P cfg (RemoveBy W req pubkey) (fst out) K K' \<and>
    K' = listed_keys (table (cmds @ snd (snd out)))"
proof -
  obtain peers where peers: "get_wg_peers (wg_show (T cmds)) = Inr peers" "fst ` set peers = K"
    unfolding assms(2) using assms(1) by (rule table_read)
  obtain identity where who: "check_identity P (w_oauth W) (req_headers req) = Inr identity"
    "may_administer cfg req identity"
    using assms(3) by (auto simp: permitted_alt split: sum.splits)
  let ?named = "\<lambda>key. key = pubkey \<or> startswith key pubkey"
  have named: "?named key \<longleftrightarrow> startswith key pubkey" for key by (auto simp: startswith_def)
  show ?thesis
  proof (cases "List.find ?named (map fst peers)")
    case None
    then have "\<not> (\<exists>k \<in> K. startswith k pubkey)"
      using peers(2) by (auto simp: find_None_iff)
    then show ?thesis
      using None who peers(1) assms(2-4) by (simp add: remove_peer_def)
  next
    case (Some key)
    then have key: "key \<in> K" "startswith key pubkey"
      using find_Some_in [OF Some] peers(2) named [of key] by auto
    then have ne: "key \<noteq> []" using listed_key_plain [OF assms(1)] assms(2) by blast
    let ?r = "run_checked (wg_exec (T cmds) (RemovePeer key))"
    have "fst out = (case ?r of Inl e \<Rightarrow> Inl e | Inr False \<Rightarrow> Inr (json_response 500 (error_body ''failed to remove peer''))
        | Inr True \<Rightarrow> Inr (json_response 200 (JObj [(''status'', JStr ''removed''), (''public_key'', JStr (short_key key))])))"
      and cmd: "snd (snd out) = [RemovePeer key]"
      using Some who peers(1) ne unfolding assms(4) by (simp_all add: remove_peer_def split: sum.split bool.split)
    then have "if ?r = Inr True then answers (fst out) 200 else tool_failed (fst out)"
      using run_checked_error by (auto simp: tool_failed_def split: sum.splits bool.splits)
    then have "listed_keys (table (cmds @ [RemovePeer key])) = K - {key} \<and> answers (fst out) 200 \<or>
        listed_keys (table (cmds @ [RemovePeer key])) = K \<and> tool_failed (fst out)"
      using command_keys [OF assms(1), of cmds "RemovePeer key"] assms(2)
      by (cases "?r = Inr True") simp_all
    with key assms(3) cmd show ?thesis by auto
  qed
qed

lemma remove_refines:
  assumes "session_keys line table s K"
  shows "\<exists>K'. peer_spec P cfg (RemoveBy W req pubkey) (fst (serve_call P cfg (RemoveBy W req pubkey) s)) K K' \<and>
    session_keys line table (snd (serve_call P cfg (RemoveBy W req pubkey) s)) K'"
proof -
  from assms have T: "wg_table (ss_tool s) line table" "K = listed_keys (table (ss_cmds s))"
    by (simp_all add: session_keys_def)
  let ?out = "remove_peer P cfg W (ss_tool s (ss_cmds s)) req pubkey (ss_log s)"
  have called: "serve_call P cfg (RemoveBy W req pubkey) s = issue ?out s" by simp
  have same: "fst (issue ?out s) = fst ?out" by (simp add: issue_def)
  show ?thesis
  proof (cases "permitted P cfg W req")
    case True
    from remove_keys [OF T True refl, of pubkey "ss_log s"] session_keysI [OF T(1), of ?out]
    show ?thesis unfolding called same by blast
  next
    case False
    then have "snd (snd ?out) = []" "\<not> answers (fst ?out) 200"
      by (auto simp: remove_peer_def permitted_alt split: sum.splits if_splits)
    with session_keysI [OF T(1), of ?out] T(2) False show ?thesis
      unfolding called same by (intro exI [of _ K]) simp
  qed
qed

lemma list_refines:
  assumes "session_keys line table s K"
  shows "peer_spec P cfg ListPeers (fst (serve_call P cfg ListPeers s)) K K"
proof -
  from assms have T: "wg_table (ss_tool s) line table" "K = listed_keys (table (ss_cmds s))"
    by (simp_all add: session_keys_def)
  obtain peers where peers: "get_wg_peers (wg_show (ss_tool s (ss_cmds s))) = Inr peers" "fst ` set peers = K"
    "distinct (map fst peers)"
    unfolding T(2) using T(1) by (rule table_read)
  have "card K = length peers"
    using distinct_card [OF peers(3)] peers(2) by simp
  with peers show ?thesis by (auto simp: list_peers_def)
qed

interpretation peers: simulation "serve_call P cfg" "peer_spec P cfg" "session_keys line table" for P cfg line table
proof
  fix s K c
  assume "session_keys line table s K"
  then show "\<exists>K'. peer_spec P cfg c (fst (serve_call P cfg c s)) K K' \<and> session_keys line table (snd (serve_call P cfg c s)) K'"
    using add_refines remove_refines list_refines by (cases c) (blast, blast, fastforce)
qed

subsection \<open>Properties\<close>

definition session :: "(wg_command list \<Rightarrow> wg_tool) \<Rightarrow> session" where
  "session T = \<lparr>ss_tool = T, ss_cmds = [], ss_log = []\<rparr>"

lemma session_start: "wg_table T line table \<Longrightarrow> session_keys line table (session T) (listed_keys (table []))"
  by (simp add: session_keys_def session_def)

lemma session_refines:
  assumes "wg_table T line table" "run_calls (serve_call P cfg) calls (session T) = (results, s)"
  shows "spec_run (peer_spec P cfg) calls results (listed_keys (table [])) (listed_keys (table (ss_cmds s)))"
  using peers.run_refines [OF session_start [OF assms(1)], of P cfg calls] assms(2)
  by (auto simp: session_keys_def)


text \<open>Calls that may remove and that may add the peer of a key.\<close>

fun may_remove :: "platform \<Rightarrow> settings \<Rightarrow> string \<Rightarrow> call \<Rightarrow> bool" where
  "may_remove P cfg k (RemoveBy W req pubkey) = (permitted P cfg W req \<and> startswith k pubkey)"
| "may_remove P cfg k _ = False"

fun may_add :: "platform \<Rightarrow> settings \<Rightarrow> string \<Rightarrow> call \<Rightarrow> bool" where
  "may_add P cfg k (AddPeer W req) = (wanted_key P cfg W req = Some k)"
| "may_add P cfg k _ = False"

lemma spec_keeps_key: "peer_spec P cfg c m K K' \<Longrightarrow> \<not> may_remove P cfg k c \<Longrightarrow> k \<in> K \<Longrightarrow> k \<in> K'"
  by (cases c) (auto split: option.splits if_splits)

lemma spec_keeps_absent: "peer_spec P cfg c m K K' \<Longrightarrow> \<not> may_add P cfg k c \<Longrightarrow> k \<notin> K \<Longrightarrow> k \<notin> K'"
  by (cases c) (auto split: option.splits if_splits)

lemma run_keeps_key:
  assumes "spec_run (peer_spec P cfg) calls rs K K'" "\<not> list_ex (may_remove P cfg k) calls" "k \<in> K"
  shows "k \<in> K'"
proof (rule spec_run_keeps [where J = "\<lambda>K. k \<in> K", OF _ assms(1,3)])
  fix c r A B
  assume "c \<in> set calls" "peer_spec P cfg c r A B" "k \<in> A"
  with assms(2) show "k \<in> B" by (intro spec_keeps_key [of P cfg c r A B k]) (simp_all add: list_ex_iff)
qed

lemma run_keeps_absent:
  assumes "spec_run (peer_spec P cfg) calls rs K K'" "\<not> list_ex (may_add P cfg k) calls" "k \<notin> K"
  shows "k \<notin> K'"
proof (rule spec_run_keeps [where J = "\<lambda>K. k \<notin> K", OF _ assms(1,3)])
  fix c r A B
  assume "c \<in> set calls" "peer_spec P cfg c r A B" "k \<notin> A"
  with assms(2) show "k \<notin> B" by (intro spec_keeps_absent [of P cfg c r A B k]) (simp_all add: list_ex_iff)
qed

text \<open>
  A peer changes only by a call for it. Over any sequence of calls, a listed key stays listed unless
  a permitted removal with a text that starts the key is among them, and a key that is not listed stays
  away unless a permitted and well-formed request for it is.
\<close>

theorem peer_changes_by_call:
  assumes "wg_table T line table" "run_calls (serve_call P cfg) calls (session T) = (results, s)"
  shows "(k \<in> listed_keys (table []) \<and> k \<notin> listed_keys (table (ss_cmds s)) \<longrightarrow> list_ex (may_remove P cfg k) calls) \<and>
    (k \<notin> listed_keys (table []) \<and> k \<in> listed_keys (table (ss_cmds s)) \<longrightarrow> list_ex (may_add P cfg k) calls)"
  using run_keeps_key [OF session_refines [OF assms], of k] run_keeps_absent [OF session_refines [OF assms], of k]
  by blast

subsection \<open>Worked examples\<close>

text \<open>
  A tool that accepts keys and addresses without spaces, keeps one entry per key, and at the start has
  one peer; the calls list it, add another one twice and remove the first.
\<close>

definition new_entry :: "string \<Rightarrow> string \<Rightarrow> dump_peer" where
  "new_entry k a =
     \<lparr>dp_key = k, dp_psk = ''(none)'', dp_endpoint = ''(none)'', dp_allowed = a, dp_handshake = ''0'',
      dp_rx = ''0'', dp_tx = ''0'', dp_keepalive = ''off''\<rparr>"

fun good_command :: "wg_command \<Rightarrow> bool" where
  "good_command (SetPeer k a) = (plain_field k \<and> plain_field a)"
| "good_command (RemovePeer k) = True"

fun change_table :: "wg_command \<Rightarrow> dump_peer list \<Rightarrow> dump_peer list" where
  "change_table (SetPeer k a) ps = filter (\<lambda>p. dp_key p \<noteq> k) ps @ [new_entry k a]"
| "change_table (RemovePeer k) ps = filter (\<lambda>p. dp_key p \<noteq> k) ps"

definition tool_table :: "wg_command list \<Rightarrow> dump_peer list" where
  "tool_table cmds = foldl (\<lambda>ps c. if good_command c then change_table c ps else ps) [sample_peer] cmds"

definition table_tool :: "wg_command list \<Rightarrow> wg_tool" where
  "table_tool cmds =
     \<lparr>wg_show = Completed (wg_dump ''wg0'' (tool_table cmds)),
      wg_exec = (\<lambda>c. if good_command c then Completed [] else CalledProcessError)\<rparr>"

lemma literal_fields: "plain_field ''(none)''" "plain_field ''0''" "plain_field ''off''"
  by code_simp+

lemma plain_change: "list_all plain_peer ps \<Longrightarrow> good_command c \<Longrightarrow> list_all plain_peer (change_table c ps)"
  by (cases c) (auto simp: list_all_iff plain_peer_def dump_fields_def new_entry_def literal_fields)

lemma keys_change: "listed_keys (change_table c ps) = command_effect c (listed_keys ps)"
  by (cases c) (auto simp: listed_keys_def new_entry_def)

lemma tool_table_plain: "list_all plain_peer (tool_table cmds)"
proof (induction cmds rule: rev_induct)
  case Nil
  show ?case using sample_dump(1) by (simp add: tool_table_def)
next
  case (snoc c cmds)
  then show ?case by (simp add: tool_table_def plain_change)
qed

lemma table_tool_table: "wg_table table_tool ''wg0'' tool_table"
proof -
  have "listed_keys (tool_table (cmds @ [c])) =
      (case wg_exec (table_tool cmds) c of
         Completed _ \<Rightarrow> command_effect c (listed_keys (tool_table cmds))
       | _ \<Rightarrow> listed_keys (tool_table cmds))" for cmds c
    by (simp add: tool_table_def table_tool_def keys_change)
  then show ?thesis
    unfolding wg_table_def
    by (intro conjI allI sample_dump(2-5) tool_table_plain) (simp_all add: table_tool_def)
qed

definition sample_calls :: "call list" where
  "sample_calls =
     [AddPeer empty_world (peer_request (CHR ''B'')), AddPeer empty_world (peer_request (CHR ''B'')),
      RemoveBy empty_world (sample_request ''/'') (sample_key (CHR ''A''))]"

lemma sample_start: "listed_keys (tool_table []) = {sample_key (CHR ''A'')}"
  by (simp add: tool_table_def listed_keys_def sample_peer_def)


text \<open>Nobody asks for the key of C's in the calls, so it is not listed in the end.\<close>

lemma peer_changes_by_call_witness:
  "\<exists>results s. run_calls (serve_call sample_platform sample_settings) sample_calls (session table_tool) = (results, s) \<and>
    sample_key (CHR ''C'') \<notin> listed_keys (tool_table (ss_cmds s))"
proof -
  obtain results s where
    run: "run_calls (serve_call sample_platform sample_settings) sample_calls (session table_tool) = (results, s)"
    by (cases "run_calls (serve_call sample_platform sample_settings) sample_calls (session table_tool)")
  have asked: "k = sample_key (CHR ''B'')"
    if "wanted_key sample_platform sample_settings empty_world (peer_request (CHR ''B'')) = Some k" for k
    using that by (simp add: wanted_key_def peer_read split: if_splits sum.splits target.splits)
  have "sample_key (CHR ''C'') \<noteq> sample_key (CHR ''A'')" "sample_key (CHR ''C'') \<noteq> sample_key (CHR ''B'')"
    by (simp_all add: sample_key_def)
  moreover from this(2) have
    "\<not> list_ex (may_add sample_platform sample_settings (sample_key (CHR ''C''))) sample_calls"
    using asked by (auto simp: sample_calls_def)
  ultimately have "sample_key (CHR ''C'') \<notin> listed_keys (tool_table (ss_cmds s))"
    using peer_changes_by_call [OF table_tool_table run, of "sample_key (CHR ''C'')"] sample_start by simp
  with run show ?thesis by blast
qed

end
