(* ===== verification/Revoker.thy ===== *)
theory Revoker
  imports WireGuard
begin

section \<open>The posture revoker\<close>

text \<open>
  \<open>scripts/posture_revoker.py\<close>: the daemon that polls the posture log and, when a device turns from
  healthy to unhealthy, removes its tunnel peer and ends its user's sessions. The state is the two
  dictionaries of the module together with what the daemon has done so far, newest last: commands,
  requests and revocation events. What \<open>wg\<close> and the identity provider answer may depend on what was
  done before. A step returns the state and whether an exception left it; the state keeps what was
  done up to there.
\<close>

datatype action =
    RemoveCommand string
  | SearchUser string
  | EndSessions string
  | Revoked json json jdict

text \<open>\<open>urlopen\<close>: a reply below 400, an HTTPError or URLError, or another failure of the connection.\<close>

datatype fetched = Fetched nat string | UrlError | BrokenConnection

record revoker_env =
  re_show :: "action list \<Rightarrow> run_result"
  re_remove :: "action list \<Rightarrow> string \<Rightarrow> run_result"
  re_search :: "action list \<Rightarrow> string \<Rightarrow> fetched"
  re_terminate :: "action list \<Rightarrow> string \<Rightarrow> fetched"
  re_token :: string
  re_quote :: "string \<Rightarrow> string"
  re_float :: "rat \<Rightarrow> string"

record revoker =
  device_state :: "(json, json) dict"
  user_device_map :: "(json, json) dict"
  done_so_far :: "action list"

text \<open>A step: an exception, or nothing, and the state.\<close>

type_synonym step = "pyerr option \<times> revoker"

definition act :: "action \<Rightarrow> revoker \<Rightarrow> revoker" where
  "act a st = st\<lparr>done_so_far := done_so_far st @ [a]\<rparr>"

definition and_then :: "step \<Rightarrow> (revoker \<Rightarrow> step) \<Rightarrow> step" where
  "and_then s f = (case s of (Some e, st) \<Rightarrow> (Some e, st) | (None, st) \<Rightarrow> f st)"

fun each :: "('a \<Rightarrow> revoker \<Rightarrow> step) \<Rightarrow> 'a list \<Rightarrow> revoker \<Rightarrow> step" where
  "each f [] st = (None, st)"
| "each f (x # xs) st = and_then (f x st) (each f xs)"

subsection \<open>Tunnel peers\<close>

definition add_allowed :: "(string, string) dict \<Rightarrow> string \<Rightarrow> (string, string) dict" where
  "add_allowed peers line =
     (let parts = split_on tab line in
      if 5 \<le> length parts then dict_set peers (parts ! 0) (parts ! 3) else peers)"

definition get_wireguard_peers :: "run_result \<Rightarrow> (string, string) dict py" where
  "get_wireguard_peers result =
     (case result of
        Completed out \<Rightarrow> Inr (foldl add_allowed [] (tl (split_on newline (strip out))))
      | NoCommand \<Rightarrow> Inl FileNotFoundError
      | _ \<Rightarrow> Inr [])"

definition remove_wireguard_peer :: "revoker_env \<Rightarrow> string \<Rightarrow> revoker \<Rightarrow> step" where
  "remove_wireguard_peer E pubkey st =
     (case run_checked (re_remove E (done_so_far st) pubkey) of
        Inl e \<Rightarrow> (Some e, act (RemoveCommand pubkey) st)
      | Inr _ \<Rightarrow> (None, act (RemoveCommand pubkey) st))"

text \<open>The bridge and the revoker read the same peers, with the same addresses, from the same output.\<close>

lemma dict_set_map:
  "dict_set (map (\<lambda>(k, v). (k, f v)) d) k (f v) = map (\<lambda>(k, v). (k, f v)) (dict_set d k v)"
  unfolding dict_set_def by (induction d) auto

lemma same_peers_as_bridge:
  "get_wireguard_peers r = py_bind (get_wg_peers r) (\<lambda>ps. Inr (map (\<lambda>(k, i). (k, allowed_ips i)) ps))"
proof -
  let ?addresses = "map (\<lambda>(k, i). (k, allowed_ips i))"
  have step: "add_allowed (?addresses d) line = ?addresses (add_line d line)" for d line
  proof -
    let ?parts = "split_on tab line"
    show ?thesis
      using dict_set_map [of allowed_ips d "?parts ! 0" "\<lparr>allowed_ips = ?parts ! 3, endpoint = ?parts ! 4\<rparr>"]
      by (simp add: add_allowed_def add_line_def Let_def)
  qed
  have "foldl add_allowed (?addresses d) ls = ?addresses (foldl add_line d ls)" for d ls
    by (induction ls arbitrary: d) (simp_all add: step)
  from this [of "[]"] show ?thesis
    by (cases r) (simp_all add: get_wireguard_peers_def get_wg_peers_def parse_peers_def)
qed

text \<open>Whether one of the comma-separated networks of a peer holds the device's address.\<close>

definition cidr_matches :: "ip_addr option \<Rightarrow> string \<Rightarrow> bool" where
  "cidr_matches device_ip cidr =
     (case ip_network (strip cidr) of
        Inl _ \<Rightarrow> False
      | Inr net \<Rightarrow> (case device_ip of None \<Rightarrow> False | Some ip \<Rightarrow> in_net ip net))"

definition peer_matches :: "ip_addr option \<Rightarrow> string \<Rightarrow> bool" where
  "peer_matches device_ip allowed =
     list_ex (\<lambda>cidr. strip cidr \<noteq> [] \<and> cidr_matches device_ip cidr) (split_on (CHR '','') allowed)"

definition revoke_peer :: "revoker_env \<Rightarrow> ip_addr option \<Rightarrow> string \<times> string \<Rightarrow> revoker \<Rightarrow> step" where
  "revoke_peer E device_ip p st =
     (if peer_matches device_ip (snd p) then remove_wireguard_peer E (fst p) st else (None, st))"

subsection \<open>Sessions\<close>

text \<open>\<open>urllib.parse.quote\<close> on text; anything else is a TypeError.\<close>

definition search_url :: "revoker_env \<Rightarrow> string \<Rightarrow> string" where
  "search_url E email = ''https://10.10.1.10/api/v3/users/?search='' @ re_quote E email"

text \<open>\<open>users[0]["pk"]\<close>, with the errors of indexing a value of another shape.\<close>

fun first_item :: "json \<Rightarrow> json py" where
  "first_item (JArr (x # _)) = Inr x"
| "first_item (JStr (c # _)) = Inr (JStr [c])"
| "first_item (JObj _) = Inl KeyError"
| "first_item _ = Inl TypeError"

fun item_of :: "json \<Rightarrow> string \<Rightarrow> json py" where
  "item_of (JObj d) k = getitem d k"
| "item_of _ k = Inl TypeError"

text \<open>The key of the user to end the sessions of; \<open>None\<close> when nobody is found.\<close>

definition found_user :: "string \<Rightarrow> json option py" where
  "found_user body =
     py_bind (loads_bytes body) (\<lambda>j.
     py_bind (as_dict j) (\<lambda>data.
       let users = get_or data ''results'' (JArr []) in
       if \<not> truthy users then Inr None
       else py_bind (first_item users) (\<lambda>u. py_bind (item_of u ''pk'') (\<lambda>pk. Inr (Some pk)))))"

definition terminate_sessions :: "revoker_env \<Rightarrow> json \<Rightarrow> revoker \<Rightarrow> step" where
  "terminate_sessions E pk st =
     (let url = ''https://10.10.1.10/api/v3/users/'' @ py_str (re_float E) pk @ ''/sessions/terminate/'' in
      case re_terminate E (done_so_far st) url of
        BrokenConnection \<Rightarrow> (Some OSError, act (EndSessions url) st)
      | _ \<Rightarrow> (None, act (EndSessions url) st))"

definition revoke_authentik_sessions :: "revoker_env \<Rightarrow> json \<Rightarrow> revoker \<Rightarrow> step" where
  "revoke_authentik_sessions E user_email st =
     (if re_token E = [] then (None, st)
      else case user_email of
        JStr email \<Rightarrow>
          (let url = search_url E email; st' = act (SearchUser url) st in
           case re_search E (done_so_far st) url of
             BrokenConnection \<Rightarrow> (Some OSError, st')
           | UrlError \<Rightarrow> (None, st')
           | Fetched _ body \<Rightarrow>
               (case found_user body of
                  Inl e \<Rightarrow> if e \<in> set [JSONDecodeError, KeyError, TypeError] then (None, st') else (Some e, st')
                | Inr None \<Rightarrow> (None, st')
                | Inr (Some pk) \<Rightarrow> terminate_sessions E pk st'))
      | _ \<Rightarrow> (None, st))"

subsection \<open>Revocation\<close>

definition device_address :: "json \<Rightarrow> ip_addr option" where
  "device_address device_id = (case item_address device_id of Inl _ \<Rightarrow> None | Inr a \<Rightarrow> Some a)"

text \<open>
  The event of a revocation, and its line in the log for the dashboard. In the state of the daemon the
  action \<open>Revoked\<close> stands for it; \<open>revocation_log\<close> is the file that the actions leave, the clock and
  the file as each of them finds them.
\<close>

definition revocation_event :: "string \<Rightarrow> json \<Rightarrow> json \<Rightarrow> jdict \<Rightarrow> json" where
  "revocation_event stamp device_id user_email entry =
     JObj [(''timestamp'', JStr stamp), (''event'', JStr ''automatic_revocation''), (''device_id'', device_id),
           (''user_email'', user_email), (''trigger'', JStr ''posture_failure''), (''posture_entry'', JObj entry)]"

definition write_revocation_log :: "platform \<Rightarrow> bool \<Rightarrow> json \<Rightarrow> string \<Rightarrow> string" where
  "write_revocation_log P writable event written =
     (if writable then written @ dumps_default (float_repr P) event @ [newline] else written)"

fun revocation_log :: "platform \<Rightarrow> log_file list \<Rightarrow> action list \<Rightarrow> string \<Rightarrow> string" where
  "revocation_log P (f # fs) (Revoked device_id user_email entry # as) written =
     revocation_log P fs as (write_revocation_log P (lf_writable f)
       (revocation_event (lf_stamp f) device_id user_email entry) written)"
| "revocation_log P fs (_ # as) written = revocation_log P fs as written"
| "revocation_log P fs [] written = written"

definition revoke_device :: "revoker_env \<Rightarrow> json \<Rightarrow> json \<Rightarrow> jdict \<Rightarrow> revoker \<Rightarrow> step" where
  "revoke_device E device_id user_email entry st =
     (case get_wireguard_peers (re_show E (done_so_far st)) of
        Inl e \<Rightarrow> (Some e, st)
      | Inr peers \<Rightarrow>
          and_then (each (revoke_peer E (device_address device_id)) peers st) (\<lambda>st.
          and_then (if truthy user_email then revoke_authentik_sessions E user_email st else (None, st)) (\<lambda>st.
            (None, act (Revoked device_id user_email entry) st))))"

text \<open>
  The key of a dictionary: booleans and whole floats equal the integers, lists and dictionaries are
  not hashable.
\<close>

fun dict_key :: "json \<Rightarrow> json py" where
  "dict_key (JBool b) = Inr (JInt (if b then 1 else 0))"
| "dict_key (JFloat (Fin q)) = Inr (if of_int \<lfloor>q\<rfloor> = q then JInt \<lfloor>q\<rfloor> else JFloat (Fin q))"
| "dict_key (JArr _) = Inl TypeError"
| "dict_key (JObj _) = Inl TypeError"
| "dict_key j = Inr j"

definition process_entry :: "revoker_env \<Rightarrow> jdict \<Rightarrow> revoker \<Rightarrow> step" where
  "process_entry E entry st =
     (let device_id = get_or entry ''device_id'' (JStr ''unknown'');
          healthy = get_or entry ''healthy'' (JBool False);
          user_email = get_or entry ''user_email'' (JStr []) in
      case dict_key device_id of
        Inl e \<Rightarrow> (Some e, st)
      | Inr key \<Rightarrow>
          and_then
            (if dict_get (device_state st) key = Some (JBool True) \<and> healthy = JBool False
             then revoke_device E device_id user_email entry st else (None, st))
            (\<lambda>st.
              let st = st\<lparr>device_state := dict_set (device_state st) key healthy\<rparr> in
              (None,
               if truthy user_email
               then st\<lparr>user_device_map := dict_set (user_device_map st) key user_email\<rparr> else st)))"

definition process_line :: "revoker_env \<Rightarrow> string \<Rightarrow> revoker \<Rightarrow> step" where
  "process_line E raw st =
     (let line = strip raw in
      if line = [] then (None, st)
      else case loads line of
        Inl e \<Rightarrow> if e = JSONDecodeError then (None, st) else (Some e, st)
      | Inr j \<Rightarrow>
          (case as_dict j of
             Inl e \<Rightarrow> (Some e, st)
           | Inr entry \<Rightarrow> process_entry E entry st))"

text \<open>The log file as its lines, or absent, or unreadable.\<close>

datatype log_source = NoLog | UnreadableLog | LogLines "string list"

definition process_posture_log :: "revoker_env \<Rightarrow> log_source \<Rightarrow> revoker \<Rightarrow> step" where
  "process_posture_log E src st =
     (case src of LogLines lines \<Rightarrow> each (process_line E) lines st | _ \<Rightarrow> (None, st))"

text \<open>One turn of the loop in \<open>main\<close>: every exception is logged and the loop goes on.\<close>

definition poll :: "revoker_env \<Rightarrow> log_source \<Rightarrow> revoker \<Rightarrow> revoker" where
  "poll E src st = snd (process_posture_log E src st)"

definition initial :: revoker where
  "initial = \<lparr>device_state = [], user_device_map = [], done_so_far = []\<rparr>"

text \<open>The runs of the daemon, over whatever the log holds at each turn.\<close>

inductive reachable :: "revoker_env \<Rightarrow> revoker \<Rightarrow> bool" for E where
  start: "reachable E initial"
| turn: "reachable E st \<Longrightarrow> reachable E (poll E src st)"

inductive_cases reachable_turn: "reachable E st"

subsection \<open>The revocation log\<close>

text \<open>It keeps the contract of the audit log.\<close>

interpretation revocations: append_log "write_revocation_log P True" log_entries "Inr" complete_lines plain_json for P
proof unfold_locales
  fix l e
  assume "complete_lines l" "plain_json e"
  then show "log_entries (write_revocation_log P True e l) = log_entries l @ [Inr e]"
    using log_lines_append [of l "dumps_default (float_repr P) e"] printable_dumps_default [of e "float_repr P"]
    by (auto simp: write_revocation_log_def log_entries_def plain_json_def loads_dumps_default
        dest: printable_no_newline)
  show "complete_lines (write_revocation_log P True e l)"
    by (simp add: write_revocation_log_def complete_lines_def)
qed

fun revocation :: "action \<Rightarrow> bool" where
  "revocation (Revoked _ _ _) = True"
| "revocation _ = False"

text \<open>The events of the revocations among the actions, in order.\<close>

fun revocation_events :: "log_file list \<Rightarrow> action list \<Rightarrow> json list" where
  "revocation_events (f # fs) (Revoked device_id user_email entry # as) =
     revocation_event (lf_stamp f) device_id user_email entry # revocation_events fs as"
| "revocation_events fs (_ # as) = revocation_events fs as"
| "revocation_events fs [] = []"

lemma revocation_log_fold:
  "list_all lf_writable fs \<Longrightarrow> length (filter revocation as) \<le> length fs \<Longrightarrow>
    revocation_log P fs as l = fold (write_revocation_log P True) (revocation_events fs as) l"
  by (induction P fs as l rule: revocation_log.induct) (simp_all split: if_splits)

lemma revocation_log_faithful:
  assumes "list_all lf_writable fs" "length (filter revocation as) \<le> length fs"
    and "list_all plain_json (revocation_events fs as)" "complete_lines l"
  shows "log_entries (revocation_log P fs as l) = log_entries l @ map Inr (revocation_events fs as)"
  using revocations.entries_fold [OF assms(4,3)] revocation_log_fold [OF assms(1,2)] by simp


subsection \<open>What a step leaves alone\<close>

lemma and_then_simps [simp]:
  "and_then (None, st) f = f st" "and_then (Some e, st) f = (Some e, st)"
  by (simp_all add: and_then_def)

lemma and_then_cases:
  obtains (raised) e st' where "s = (Some e, st')" "and_then s f = (Some e, st')"
  | (went_on) st' where "s = (None, st')" "and_then s f = f st'"
  by (cases s; cases "fst s") auto

lemma each_append: "each f (xs @ ys) st = and_then (each f xs st) (each f ys)"
proof (induction xs arbitrary: st)
  case (Cons x xs)
  then show ?case
    by (cases "f x st"; cases "fst (f x st)") auto
qed simp

text \<open>A relation between states that holds of every step holds of a sequence of steps.\<close>

lemma each_rel:
  assumes "\<And>x st. R st (snd (f x st))" "\<And>st. R st st" "\<And>a b c. R a b \<Longrightarrow> R b c \<Longrightarrow> R a c"
  shows "R st (snd (each f xs st))"
proof (induction xs arbitrary: st)
  case (Cons x xs)
  have one: "R st (snd (f x st))" by (rule assms(1))
  show ?case
  proof (cases "f x st")
    case (Pair r st')
    with one Cons.IH [of st'] assms(3) show ?thesis by (cases r) auto
  qed
qed (simp add: assms(2))

lemma each_none: "(\<And>x st. x \<in> set xs \<Longrightarrow> fst (f x st) = None) \<Longrightarrow> fst (each f xs st) = None"
proof (induction xs arbitrary: st)
  case (Cons x xs)
  from Cons.prems [of x st] obtain st' where "f x st = (None, st')" by (cases "f x st") auto
  with Cons show ?case by simp
qed simp

text \<open>The dictionaries and the revocation events are the same; only commands and requests were added.\<close>

definition only_acts :: "revoker \<Rightarrow> revoker \<Rightarrow> bool" where
  "only_acts st st' \<longleftrightarrow>
     device_state st' = device_state st \<and> user_device_map st' = user_device_map st \<and>
     filter revocation (done_so_far st') = filter revocation (done_so_far st)"

lemma only_acts_refl [simp]: "only_acts st st"
  by (simp add: only_acts_def)

lemma only_acts_trans: "only_acts a b \<Longrightarrow> only_acts b c \<Longrightarrow> only_acts a c"
  by (simp add: only_acts_def)

lemma only_acts_act: "\<not> revocation a \<Longrightarrow> only_acts st (act a st)"
  by (simp add: only_acts_def act_def)

lemma revoke_peer_acts: "only_acts st (snd (revoke_peer E ip p st))"
  by (auto simp: revoke_peer_def remove_wireguard_peer_def only_acts_act split: sum.split)

lemma revoke_peers_act: "only_acts st (snd (each (revoke_peer E ip) peers st))"
  by (rule each_rel) (auto intro: revoke_peer_acts only_acts_trans)

lemma terminate_sessions_acts: "only_acts st (snd (terminate_sessions E pk st))"
  by (simp add: terminate_sessions_def only_acts_act Let_def split: fetched.split)

lemma revoke_authentik_sessions_acts: "only_acts st (snd (revoke_authentik_sessions E email st))"
  using only_acts_trans [OF only_acts_act terminate_sessions_acts]
  by (auto simp: revoke_authentik_sessions_def only_acts_act Let_def
      split: json.split fetched.split sum.split option.split)

lemma revoke_device_cases:
  obtains (raised) e st' where "revoke_device E d u entry st = (Some e, st')" "only_acts st st'"
  | (revoked) st' where "revoke_device E d u entry st = (None, act (Revoked d u entry) st')" "only_acts st st'"
proof (cases "get_wireguard_peers (re_show E (done_so_far st))")
  case (Inl e)
  then show ?thesis using raised [of e st] by (simp add: revoke_device_def)
next
  case (Inr peers)
  let ?a = "each (revoke_peer E (device_address d)) peers st"
  let ?b = "\<lambda>st. if truthy u then revoke_authentik_sessions E u st else (None, st)"
  have a: "only_acts st (snd ?a)" by (rule revoke_peers_act)
  have b: "only_acts t (snd (?b t))" for t by (simp add: revoke_authentik_sessions_acts)
  show ?thesis
  proof (cases ?a)
    case (Pair ra sa)
    show ?thesis
    proof (cases ra)
      case (Some e)
      with Pair Inr a show ?thesis using raised [of e sa] by (simp add: revoke_device_def)
    next
      case None
      obtain rb sb where bb: "?b sa = (rb, sb)" by fastforce
      have acts: "only_acts st sb"
        using only_acts_trans [of st sa sb] a b [of sa] unfolding Pair bb by simp
      show ?thesis
      proof (cases rb)
        case (Some e)
        with None Pair Inr bb acts show ?thesis using raised [of e sb] by (simp add: revoke_device_def)
      next
        case None': None
        with None Pair Inr bb acts show ?thesis using revoked [of sb] by (simp add: revoke_device_def)
      qed
    qed
  qed
qed


subsection \<open>Verdicts and transitions\<close>

definition entry_device :: "jdict \<Rightarrow> json" where
  "entry_device entry = get_or entry ''device_id'' (JStr ''unknown'')"

definition entry_verdict :: "jdict \<Rightarrow> json" where
  "entry_verdict entry = get_or entry ''healthy'' (JBool False)"

text \<open>The verdicts of one device in the order of the log, and how often they turn from healthy.\<close>

definition verdicts :: "json \<Rightarrow> jdict list \<Rightarrow> json list" where
  "verdicts key es = map entry_verdict (filter (\<lambda>e. dict_key (entry_device e) = Inr key) es)"

fun degradations :: "json option \<Rightarrow> json list \<Rightarrow> nat" where
  "degradations prev [] = 0"
| "degradations prev (v # vs) =
     (if prev = Some (JBool True) \<and> v = JBool False then 1 else 0) + degradations (Some v) vs"

fun event_of :: "json \<Rightarrow> action \<Rightarrow> bool" where
  "event_of key (Revoked d _ _) = (dict_key d = Inr key)"
| "event_of key _ = False"

definition revocations :: "json \<Rightarrow> revoker \<Rightarrow> nat" where
  "revocations key st = length (filter (event_of key) (done_so_far st))"

lemma event_of_filter: "filter (event_of key) (filter revocation as) = filter (event_of key) as"
proof -
  have "revocation a" if "event_of key a" for a using that by (cases a) auto
  then show ?thesis by (auto intro: filter_cong)
qed

lemma revocations_acts: "only_acts st st' \<Longrightarrow> revocations key st' = revocations key st"
  unfolding revocations_def only_acts_def by (metis event_of_filter)

text \<open>An environment in which every call comes back.\<close>

definition calm :: "revoker_env \<Rightarrow> bool" where
  "calm E \<longleftrightarrow> (\<forall>d u entry st. fst (revoke_device E d u entry st) = None)"

text \<open>For example one without a token, where \<open>wg\<close> is installed.\<close>

lemma calm_without_token:
  assumes "re_token E = []" "\<And>h. re_show E h \<noteq> NoCommand" "\<And>h k. re_remove E h k \<noteq> NoCommand"
  shows "calm E"
proof -
  have "fst (revoke_peer E ip p st) = None" for ip p st
    using assms(3) [of "done_so_far st" "fst p"]
    by (cases "re_remove E (done_so_far st) (fst p)") (auto simp: revoke_peer_def remove_wireguard_peer_def)
  then have peers: "fst (each (revoke_peer E ip) ps st) = None" for ip ps st
    by (intro each_none)
  have listed: "\<exists>ps. get_wireguard_peers (re_show E h) = Inr ps" for h
    using assms(2) [of h] by (cases "re_show E h") (auto simp: get_wireguard_peers_def)
  have "fst (revoke_device E d u entry st) = None" for d u entry st
  proof -
    obtain ps where ps: "get_wireguard_peers (re_show E (done_so_far st)) = Inr ps" using listed by blast
    obtain st' where "each (revoke_peer E (device_address d)) ps st = (None, st')"
      using peers [of "device_address d" ps st] by (metis prod.collapse)
    with ps assms(1) show ?thesis by (simp add: revoke_device_def revoke_authentik_sessions_def)
  qed
  then show ?thesis by (simp add: calm_def)
qed

lemma calm_revoke_device:
  assumes "calm E"
  obtains st' where "revoke_device E d u entry st = (None, act (Revoked d u entry) st')" "only_acts st st'"
proof (cases rule: revoke_device_cases [of E d u entry st])
  case (raised e st')
  then show ?thesis using assms by (simp add: calm_def) (metis fst_conv option.distinct(1))
next
  case (revoked st')
  then show ?thesis by (rule that)
qed

lemma revocations_act:
  "revocations k (act (Revoked d u entry) st) = revocations k st + (if dict_key d = Inr k then 1 else 0)"
  by (simp add: revocations_def act_def)

lemma revocations_frame [simp]:
  "revocations k (st\<lparr>device_state := m\<rparr>) = revocations k st"
  "revocations k (st\<lparr>user_device_map := n\<rparr>) = revocations k st"
  by (simp_all add: revocations_def)

lemma process_entry_calm:
  assumes "calm E" "dict_key (entry_device e) = Inr key"
  shows "\<exists>st'. process_entry E e st = (None, st') \<and>
    device_state st' = dict_set (device_state st) key (entry_verdict e) \<and>
    (\<forall>k. revocations k st' = revocations k st +
      (if k = key \<and> dict_get (device_state st) key = Some (JBool True) \<and> entry_verdict e = JBool False
       then 1 else 0))"
proof (cases "dict_get (device_state st) key = Some (JBool True) \<and> entry_verdict e = JBool False")
  case True
  obtain st' where st': "revoke_device E (entry_device e) (get_or e ''user_email'' (JStr [])) e st =
      (None, act (Revoked (entry_device e) (get_or e ''user_email'' (JStr [])) e) st')" "only_acts st st'"
    using assms(1) by (rule calm_revoke_device)
  have "revocations k st' = revocations k st" for k
    using st'(2) by (rule revocations_acts)
  moreover have "device_state st' = device_state st"
    using st'(2) by (simp add: only_acts_def)
  ultimately show ?thesis
    using True st'(1) assms(2)
    by (auto simp: process_entry_def entry_device_def entry_verdict_def Let_def revocations_act)
      (simp_all add: act_def)
next
  case False
  then have skip: "\<not> (dict_get (device_state st) key = Some (JBool True) \<and> get_or e ''healthy'' (JBool False) = JBool False)"
    by (simp add: entry_verdict_def)
  show ?thesis
    using assms(2) False
    by (simp add: process_entry_def entry_device_def Let_def skip) (simp add: entry_verdict_def)
qed

text \<open>A whole pass over entries.\<close>

definition last_verdict :: "json option \<Rightarrow> json list \<Rightarrow> json option" where
  "last_verdict prev vs = (if vs = [] then prev else Some (last vs))"

lemma process_entries:
  assumes "calm E" "\<forall>e \<in> set es. \<exists>k. dict_key (entry_device e) = Inr k"
  shows "\<exists>st'. each (process_entry E) es st = (None, st') \<and>
    (\<forall>k. dict_get (device_state st') k = last_verdict (dict_get (device_state st) k) (verdicts k es) \<and>
      revocations k st' = revocations k st + degradations (dict_get (device_state st) k) (verdicts k es))"
  using assms(2)
proof (induction es arbitrary: st)
  case Nil
  then show ?case by (simp add: verdicts_def last_verdict_def)
next
  case (Cons e es)
  then obtain key where key: "dict_key (entry_device e) = Inr key" by auto
  from process_entry_calm [OF assms(1) key] obtain st1 where st1: "process_entry E e st = (None, st1)"
    "device_state st1 = dict_set (device_state st) key (entry_verdict e)"
    "\<And>k. revocations k st1 = revocations k st +
      (if k = key \<and> dict_get (device_state st) key = Some (JBool True) \<and> entry_verdict e = JBool False then 1 else 0)"
    by blast
  from Cons.IH [of st1] Cons.prems obtain st2 where st2: "each (process_entry E) es st1 = (None, st2)"
    "\<And>k. dict_get (device_state st2) k = last_verdict (dict_get (device_state st1) k) (verdicts k es)"
    "\<And>k. revocations k st2 = revocations k st1 + degradations (dict_get (device_state st1) k) (verdicts k es)"
    by auto
  have verd: "verdicts k (e # es) = (if k = key then entry_verdict e # verdicts k es else verdicts k es)" for k
    using key by (auto simp: verdicts_def)
  show ?case
    using st1 st2 by (auto simp: verd pd.lookup_store last_verdict_def)
qed


text \<open>Lines that hold entries for devices with a usable identifier.\<close>

definition log_of :: "string list \<Rightarrow> jdict list \<Rightarrow> bool" where
  "log_of lines es =
     list_all2 (\<lambda>l e. strip l \<noteq> [] \<and> loads (strip l) = Inr (JObj e) \<and> (\<exists>k. dict_key (entry_device e) = Inr k))
       lines es"

lemma process_lines: "log_of lines es \<Longrightarrow> each (process_line E) lines st = each (process_entry E) es st"
  unfolding log_of_def
proof (induction arbitrary: st rule: list_all2_induct)
  case (Cons l ls e es)
  then have "process_line E l st = process_entry E e st" for st by (simp add: process_line_def)
  with Cons.IH show ?case by (simp add: and_then_def split: prod.split option.split)
qed simp

lemma log_devices: "log_of lines es \<Longrightarrow> \<forall>e \<in> set es. \<exists>k. dict_key (entry_device e) = Inr k"
  unfolding log_of_def by (induction rule: list_all2_induct) auto

lemma poll_log:
  assumes "calm E" "log_of lines es"
  shows "dict_get (device_state (poll E (LogLines lines) st)) k =
      last_verdict (dict_get (device_state st) k) (verdicts k es) \<and>
    revocations k (poll E (LogLines lines) st) =
      revocations k st + degradations (dict_get (device_state st) k) (verdicts k es)"
proof -
  obtain st' where "each (process_line E) lines st = (None, st')"
    "dict_get (device_state st') k = last_verdict (dict_get (device_state st) k) (verdicts k es)"
    "revocations k st' = revocations k st + degradations (dict_get (device_state st) k) (verdicts k es)"
    using process_entries [OF assms(1) log_devices [OF assms(2)], of st] process_lines [OF assms(2)] by auto
  then show ?thesis by (simp add: poll_def process_posture_log_def)
qed

lemma degradations_fresh: "degradations None vs \<le> degradations prev vs"
  by (cases vs) simp_all

subsection \<open>Every revocation has a cause\<close>

definition justified :: "action list \<Rightarrow> bool" where
  "justified as \<longleftrightarrow> (\<forall>d u entry. Revoked d u entry \<in> set as \<longrightarrow> entry_verdict entry = JBool False \<and> entry_device entry = d)"

lemma justified_acts: "only_acts st st' \<Longrightarrow> justified (done_so_far st) \<Longrightarrow> justified (done_so_far st')"
proof -
  assume acts: "only_acts st st'" "justified (done_so_far st)"
  have "Revoked d u e \<in> set (done_so_far st) \<longleftrightarrow> Revoked d u e \<in> set (done_so_far st')" for d u e
  proof -
    have "Revoked d u e \<in> set as \<longleftrightarrow> Revoked d u e \<in> set (filter revocation as)" for "as" by simp
    then show ?thesis using acts(1) unfolding only_acts_def by metis
  qed
  with acts(2) show ?thesis by (simp add: justified_def)
qed

lemma justified_entry:
  assumes "justified (done_so_far st)"
  shows "justified (done_so_far (snd (process_entry E e st)))"
proof (cases "dict_key (entry_device e)")
  case (Inl x)
  then show ?thesis using assms by (simp add: process_entry_def entry_device_def Let_def)
next
  case (Inr key)
  let ?u = "get_or e ''user_email'' (JStr [])"
  let ?revoke = "dict_get (device_state st) key = Some (JBool True) \<and> entry_verdict e = JBool False"
  have justified: "justified (done_so_far (snd (revoke_device E (entry_device e) ?u e st)))" if ?revoke
  proof (cases rule: revoke_device_cases [of E "entry_device e" ?u e st])
    case (raised x st')
    then show ?thesis using justified_acts assms by simp
  next
    case (revoked st')
    with justified_acts [OF this(2) assms] that show ?thesis by (auto simp: justified_def act_def)
  qed
  then show ?thesis
    using Inr assms
    by (cases "revoke_device E (entry_device e) ?u e st")
      (auto simp: process_entry_def entry_device_def entry_verdict_def and_then_def Let_def split: option.splits)
qed

lemma justified_line: "justified (done_so_far st) \<Longrightarrow> justified (done_so_far (snd (process_line E l st)))"
  by (auto simp: process_line_def justified_entry Let_def split: sum.splits)

lemma justified_poll: "justified (done_so_far st) \<Longrightarrow> justified (done_so_far (poll E src st))"
proof -
  assume "justified (done_so_far st)"
  moreover have "justified (done_so_far st) \<longrightarrow> justified (done_so_far (snd (each (process_line E) ls st)))" for ls
    by (rule each_rel [where R = "\<lambda>a b. justified (done_so_far a) \<longrightarrow> justified (done_so_far b)"])
      (auto intro: justified_line)
  ultimately show ?thesis by (simp add: poll_def process_posture_log_def split: log_source.split)
qed

subsection \<open>The peers that a device has\<close>

text \<open>The assignment that the bridge makes: one host network per peer.\<close>

definition host_peers :: "(string \<times> 32 word) list \<Rightarrow> (string, string) dict" where
  "host_peers ps = map (\<lambda>(k, w). (k, str_ipv4 w @ ''/32'')) ps"

lemma strip_plain: "list_all (\<lambda>c. \<not> is_space c) s \<Longrightarrow> strip s = s"
proof -
  assume s: "list_all (\<lambda>c. \<not> is_space c) s"
  have keep: "dropWhile is_space t = t" if "list_all (\<lambda>c. \<not> is_space c) t" for t
    using that by (cases t) simp_all
  with s show ?thesis by (simp add: strip_def)
qed

lemma host_text:
  "strip (str_ipv4 w @ ''/32'') = str_ipv4 w @ ''/32''" "CHR '','' \<notin> set (str_ipv4 w @ ''/32'')"
proof -
  have digit: "\<not> is_space c \<and> c \<noteq> CHR '',''" if "is_digit c" for c
  proof -
    have "\<not> is_digit (CHR '','')" by code_simp
    then show ?thesis using that by (auto simp: is_digit_def is_space_def Let_def)
  qed
  have other: "\<not> is_space (CHR ''.'')" "list_all (\<lambda>c. \<not> is_space c) ''/32''" "CHR '','' \<notin> set ''/32''"
    by code_simp+
  have chars: "\<not> is_space c \<and> c \<noteq> CHR '',''" if "c \<in> set (str_ipv4 w)" for c
    using str_ipv4_chars [OF that] digit other(1) by auto
  then have "list_all (\<lambda>c. \<not> is_space c) (str_ipv4 w @ ''/32'')"
    using other(2) by (simp add: list_all_iff)
  then show "strip (str_ipv4 w @ ''/32'') = str_ipv4 w @ ''/32''" by (rule strip_plain)
  show "CHR '','' \<notin> set (str_ipv4 w @ ''/32'')" using chars other(3) by auto
qed

lemma host_matches: "peer_matches (Some (IPv4 x)) (str_ipv4 w @ ''/32'') \<longleftrightarrow> x = w"
  unfolding peer_matches_def split_on_absent [OF host_text(2)]
  by (simp add: cidr_matches_def host_text(1) ip_network_host in_host_net del: append.simps)

lemma device_address_ipv4: "device_address (JStr (str_ipv4 w)) = Some (IPv4 w)"
  by (simp add: device_address_def ip_address_ipv4)

fun removed_key :: "action \<Rightarrow> string option" where
  "removed_key (RemoveCommand k) = Some k"
| "removed_key _ = None"

definition removed_keys :: "revoker \<Rightarrow> string list" where
  "removed_keys st = List.map_filter removed_key (done_so_far st)"


lemma removed_keys_act [simp]:
  "removed_keys (act a st) = removed_keys st @ (case removed_key a of None \<Rightarrow> [] | Some k \<Rightarrow> [k])"
  by (simp add: removed_keys_def act_def map_filter_def split: option.split)

text \<open>An environment where \<open>wg\<close> runs: removals may fail, but do not raise.\<close>

definition wg_runs :: "revoker_env \<Rightarrow> bool" where
  "wg_runs E \<longleftrightarrow> (\<forall>as k. re_remove E as k \<noteq> NoCommand)"

lemma remove_wireguard_peer_runs:
  "wg_runs E \<Longrightarrow> remove_wireguard_peer E k st = (None, act (RemoveCommand k) st)"
  by (cases "re_remove E (done_so_far st) k") (auto simp: wg_runs_def remove_wireguard_peer_def)

lemma revoke_peers_keys:
  assumes "wg_runs E"
  shows "\<exists>st'. each (revoke_peer E ip) ps st = (None, st') \<and>
    removed_keys st' = removed_keys st @ map fst (filter (\<lambda>p. peer_matches ip (snd p)) ps)"
proof (induction ps arbitrary: st)
  case (Cons p ps)
  show ?case
    using Cons.IH [of st] Cons.IH [of "act (RemoveCommand (fst p)) st"]
    by (auto simp: revoke_peer_def remove_wireguard_peer_runs [OF assms])
qed simp

lemma sessions_keep_keys: "removed_keys (snd (revoke_authentik_sessions E u st)) = removed_keys st"
  by (auto simp: revoke_authentik_sessions_def terminate_sessions_def Let_def
      split: json.split fetched.split sum.split option.split)

lemma revoke_device_keys:
  assumes "wg_runs E" "get_wireguard_peers (re_show E (done_so_far st)) = Inr peers"
  shows "removed_keys (snd (revoke_device E d u entry st)) =
    removed_keys st @ map fst (filter (\<lambda>p. peer_matches (device_address d) (snd p)) peers)"
proof -
  obtain st' where st': "each (revoke_peer E (device_address d)) peers st = (None, st')"
    "removed_keys st' = removed_keys st @ map fst (filter (\<lambda>p. peer_matches (device_address d) (snd p)) peers)"
    using revoke_peers_keys [OF assms(1)] by blast
  show ?thesis
    using st' assms(2) sessions_keep_keys [of E u st']
    by (cases "revoke_authentik_sessions E u st'")
      (auto simp: revoke_device_def and_then_def split: option.split)
qed

text \<open>
  A revocation hits exactly its device. For a tunnel in which every peer has one host address, as
  the bridge assigns them, revoking the device with an address issues the removal of the peers that
  have this address, in the order of the listing, and of no other.
\<close>

lemma revocation_hits_its_device:
  assumes "wg_runs E" "get_wireguard_peers (re_show E (done_so_far st)) = Inr (host_peers ps)"
  shows "removed_keys (snd (revoke_device E (JStr (str_ipv4 w)) u entry st)) =
    removed_keys st @ map fst (filter (\<lambda>p. snd p = w) ps)"
proof -
  have "map fst (filter (\<lambda>p. peer_matches (Some (IPv4 w)) (snd p)) (host_peers ps)) = map fst (filter (\<lambda>p. snd p = w) ps)"
    by (induction ps) (auto simp: host_peers_def host_matches simp del: append.simps)
  then show ?thesis
    using revoke_device_keys [OF assms] by (simp add: device_address_ipv4)
qed

subsection \<open>Properties\<close>

text \<open>
  C27: a pass over the log revokes a device exactly once for every turn from healthy to unhealthy in
  its verdicts, the remembered verdict included, and remembers the last one, however the entries of
  different devices interleave, as long as no call raises.
\<close>

theorem revokes_each_degradation:
  assumes "calm E" "log_of lines es"
  shows "dict_get (device_state (poll E (LogLines lines) st)) k =
      last_verdict (dict_get (device_state st) k) (verdicts k es) \<and>
    revocations k (poll E (LogLines lines) st) =
      revocations k st + degradations (dict_get (device_state st) k) (verdicts k es)"
  by (rule poll_log [OF assms])

text \<open>
  C30: history is replayed. The daemon reads the whole log again at every turn, so each degradation
  that the log holds is revoked again every time: after \<open>n\<close> turns on the same log there are at least
  \<open>n\<close> times as many revocations as degradations, even of a device whose last verdict is healthy.
\<close>

theorem history_replayed:
  assumes "calm E" "log_of lines es"
  shows "n * degradations None (verdicts k es) \<le> revocations k ((poll E (LogLines lines) ^^ n) initial)"
proof (induction n)
  case (Suc n)
  let ?st = "(poll E (LogLines lines) ^^ n) initial"
  have "degradations None (verdicts k es) \<le> degradations (dict_get (device_state ?st) k) (verdicts k es)"
    by (rule degradations_fresh)
  with Suc poll_log [OF assms, of ?st k] show ?case by simp
qed simp

text \<open>
  C31: one line can stop the daemon for good. A line with JSON that is no object raises, so the pass
  ends there, and whatever is logged after it, degradations included, is never acted upon, at this
  turn or any later one.
\<close>

theorem bad_line_blocks_the_rest:
  assumes "strip bad \<noteq> []" "loads (strip bad) = Inr j" "\<forall>d. j \<noteq> JObj d"
  shows "(poll E (LogLines (before @ bad # rest)) ^^ n) st = (poll E (LogLines before) ^^ n) st"
proof -
  have "as_dict j = Inl AttributeError" using assms(3) by (cases j) auto
  then have "process_line E bad st' = (Some AttributeError, st')" for st'
    using assms(1,2) by (simp add: process_line_def)
  then have "poll E (LogLines (before @ bad # rest)) st' = poll E (LogLines before) st'" for st'
    by (simp add: poll_def process_posture_log_def each_append and_then_def split: prod.split option.split)
  then have "poll E (LogLines (before @ bad # rest)) = poll E (LogLines before)" by (simp add: fun_eq_iff)
  then show ?thesis by simp
qed

text \<open>
  C28: no revocation without a failed verdict. In every state that the daemon can reach, whatever the
  log holds at each turn and whatever \<open>wg\<close> and the identity provider answer, each revocation event
  carries an entry of that device whose verdict is unhealthy.
\<close>

theorem revocations_justified:
  assumes "reachable E st" "Revoked d u entry \<in> set (done_so_far st)"
  shows "get_or entry ''healthy'' (JBool False) = JBool False \<and> get_or entry ''device_id'' (JStr ''unknown'') = d"
proof -
  have "justified (done_so_far st)"
    using assms(1)
  proof (induction rule: reachable.induct)
    case start
    show ?case by (simp add: justified_def initial_def)
  next
    case (turn st src)
    from turn.IH show ?case by (rule justified_poll)
  qed
  with assms(2) show ?thesis by (auto simp: justified_def entry_verdict_def entry_device_def)
qed


subsection \<open>Worked examples\<close>

lemma strip_ends:
  "s \<noteq> [] \<Longrightarrow> \<not> is_space (hd s) \<Longrightarrow> \<not> is_space (last s) \<Longrightarrow> strip s = s"
proof -
  assume s: "s \<noteq> []" "\<not> is_space (hd s)" "\<not> is_space (last s)"
  have "dropWhile is_space s = s" using s(1,2) by (cases s) simp_all
  moreover have "dropWhile is_space (rev s) = rev s"
    using s(1,3) by (cases s rule: rev_cases) simp_all
  ultimately show ?thesis by (simp add: strip_def)
qed

lemma strip_printed: "strip (dumps_default fr (JObj d)) = dumps_default fr (JObj d)"
proof -
  have braces: "\<not> is_space (CHR 0x7B)" "\<not> is_space (CHR 0x7D)" by code_simp+
  show ?thesis
    unfolding dumps_default_def dumps.simps
    by (rule strip_ends) (simp_all add: braces last_append)
qed

lemma printed_log:
  assumes "\<forall>e \<in> set es. plain_json (JObj e) \<and> (\<exists>k. dict_key (entry_device e) = Inr k)"
  shows "log_of (map (\<lambda>e. dumps_default fr (JObj e)) es) es"
  unfolding log_of_def list_all2_conv_all_nth
proof (intro conjI allI impI)
  fix i assume "i < length (map (\<lambda>e. dumps_default fr (JObj e)) es)"
  then have i: "i < length es" by simp
  then have e: "plain_json (JObj (es ! i))" "\<exists>k. dict_key (entry_device (es ! i)) = Inr k"
    using assms by auto
  show "strip (map (\<lambda>e. dumps_default fr (JObj e)) es ! i) \<noteq> []"
    using i by (simp add: strip_printed) (simp add: dumps_default_def)
  show "loads (strip (map (\<lambda>e. dumps_default fr (JObj e)) es ! i)) = Inr (JObj (es ! i))"
    using i e(1) by (simp add: strip_printed loads_dumps_default plain_json_def)
  show "\<exists>k. dict_key (entry_device (es ! i)) = Inr k" by (rule e(2))
qed simp

definition sample_entry :: "bool \<Rightarrow> jdict" where
  "sample_entry b = [(''device_id'', JStr (str_ipv4 7)), (''healthy'', JBool b)]"

definition sample_log :: "string list" where
  "sample_log = map (\<lambda>e. dumps_default (\<lambda>_. []) (JObj e)) [sample_entry True, sample_entry False, sample_entry True]"

definition quiet_env :: revoker_env where
  "quiet_env =
     \<lparr>re_show = (\<lambda>_. Completed []), re_remove = (\<lambda>_ _. Completed []), re_search = (\<lambda>_ _. UrlError),
      re_terminate = (\<lambda>_ _. UrlError), re_token = [], re_quote = (\<lambda>s. s), re_float = (\<lambda>_. [])\<rparr>"

lemma quiet: "calm quiet_env" "wg_runs quiet_env"
  by (rule calm_without_token) (simp_all add: quiet_env_def wg_runs_def)

lemma sample_log_of: "log_of sample_log [sample_entry True, sample_entry False, sample_entry True]"
  unfolding sample_log_def
  by (rule printed_log) (simp add: sample_entry_def plain_json_def is_dict_def entry_device_def)

lemma sample_verdicts:
  "verdicts (JStr (str_ipv4 7)) [sample_entry True, sample_entry False, sample_entry True] =
    [JBool True, JBool False, JBool True]"
  by (simp add: verdicts_def sample_entry_def entry_device_def entry_verdict_def)

lemma revokes_each_degradation_witness:
  "revocations (JStr (str_ipv4 7)) (poll quiet_env (LogLines sample_log) initial) = 1 \<and>
   dict_get (device_state (poll quiet_env (LogLines sample_log) initial)) (JStr (str_ipv4 7)) = Some (JBool True)"
  using revokes_each_degradation [OF quiet(1) sample_log_of, of initial "JStr (str_ipv4 7)"]
  by (simp add: sample_verdicts last_verdict_def initial_def revocations_def)

lemma history_replayed_witness:
  "3 \<le> revocations (JStr (str_ipv4 7)) ((poll quiet_env (LogLines sample_log) ^^ 3) initial)"
  using history_replayed [OF quiet(1) sample_log_of, of 3 "JStr (str_ipv4 7)"]
  by (simp add: sample_verdicts del: funpow.simps)

text \<open>A tunnel with two peers, as the bridge sets it up, listed by \<open>wg\<close>.\<close>

definition tunnel_env :: revoker_env where
  "tunnel_env = quiet_env\<lparr>re_show := (\<lambda>_. Completed
     (join [newline] [''wg0'', join [tab] [''A'', ''p'', ''e'', str_ipv4 7 @ ''/32'', ''0'', ''0'', ''0'', ''off''],
                      join [tab] [''B'', ''p'', ''e'', str_ipv4 8 @ ''/32'', ''0'', ''0'', ''0'', ''off'']]))\<rparr>"

lemma tunnel_peers: "get_wireguard_peers (re_show tunnel_env as) = Inr (host_peers [(''A'', 7), (''B'', 8)])"
proof -
  have "octets_of (unat (7 :: 32 word)) = [0, 0, 0, 7]" "octets_of (unat (8 :: 32 word)) = [0, 0, 0, 8]"
    by (simp_all add: octets_of_def)
  then have addresses: "str_ipv4 7 = join ''.'' (map dec_nat [0, 0, 0, 7])" "str_ipv4 8 = join ''.'' (map dec_nat [0, 0, 0, 8])"
    by (simp_all only: str_ipv4_def)
  show ?thesis
    unfolding tunnel_env_def host_peers_def list.map prod.case addresses by code_simp
qed

lemma revocation_hits_its_device_witness:
  "removed_keys (snd (revoke_device tunnel_env (JStr (str_ipv4 7)) JNull [] initial)) = [''A'']"
proof -
  have "wg_runs tunnel_env" using quiet(2) by (simp add: wg_runs_def tunnel_env_def)
  from revocation_hits_its_device [OF this tunnel_peers, of 7 JNull "[]" initial] show ?thesis
    by (simp add: removed_keys_def initial_def map_filter_def)
qed

lemma bad_line_blocks_the_rest_witness:
  "poll quiet_env (LogLines (''[]'' # sample_log)) initial = initial"
proof -
  have "strip ''[]'' \<noteq> []" "strip ''[]'' = ''[]''" by code_simp+
  then have "(poll quiet_env (LogLines ([] @ ''[]'' # sample_log)) ^^ 1) initial = (poll quiet_env (LogLines []) ^^ 1) initial"
    by (intro bad_line_blocks_the_rest [where j = "JArr []"]) (simp_all add: sample_loads)
  then show ?thesis by (simp add: poll_def [of _ "LogLines []"] process_posture_log_def)
qed

lemma revocations_justified_witness:
  "reachable quiet_env (poll quiet_env (LogLines sample_log) initial) \<and>
   (\<exists>d u entry. Revoked d u entry \<in> set (done_so_far (poll quiet_env (LogLines sample_log) initial)) \<and>
      get_or entry ''healthy'' (JBool False) = JBool False)"
proof -
  let ?st = "poll quiet_env (LogLines sample_log) initial"
  have r: "reachable quiet_env ?st" by (intro reachable.intros)
  have "revocations (JStr (str_ipv4 7)) ?st = 1"
    using poll_log [OF quiet(1) sample_log_of, of initial "JStr (str_ipv4 7)"]
    by (simp add: sample_verdicts initial_def revocations_def)
  then obtain a where a: "a \<in> set (done_so_far ?st)" "event_of (JStr (str_ipv4 7)) a"
    unfolding revocations_def by (metis filter_eq_Cons_iff in_set_conv_decomp length_Suc_conv One_nat_def)
  have "\<exists>d u entry. a = Revoked d u entry" using a(2) by (cases a) simp_all
  then obtain d u entry where "a = Revoked d u entry" by blast
  with a revocations_justified [OF r] r show ?thesis by blast
qed

end
