(* ===== verification/MockOidc.thy ===== *)
theory MockOidc
  imports Validate
begin

section \<open>The mock identity provider\<close>

text \<open>
  \<open>gateway/mock-oidc/app.py\<close>: the two documents it publishes, the token endpoint and the user
  information endpoint. A token is three Base64 segments; the time and the identifier that
  \<open>make_jwt\<close> puts into it are the record \<open>mint\<close>. \<open>user_directory\<close> is the contract between the two
  endpoints.
\<close>

definition ISSUER :: string where
  "ISSUER = ''http://mock-oidc:9000''"

definition CLIENT_ID :: string where
  "CLIENT_ID = ''ztlab-client''"

definition JWK :: "string \<Rightarrow> json" where
  "JWK signing_key =
     JObj [(''kty'', JStr ''oct''), (''alg'', JStr ''HS256''), (''k'', JStr (urlsafe_b64encode signing_key))]"

definition CONFIG :: json where
  "CONFIG =
     JObj [(''issuer'', JStr ISSUER),
           (''authorization_endpoint'', JStr (ISSUER @ ''/oauth/authorize'')),
           (''token_endpoint'', JStr (ISSUER @ ''/oauth/token'')),
           (''userinfo_endpoint'', JStr (ISSUER @ ''/userinfo'')),
           (''jwks_uri'', JStr (ISSUER @ ''/.well-known/jwks.json'')),
           (''response_types_supported'', JArr [JStr ''code'', JStr ''id_token'']),
           (''subject_types_supported'', JArr [JStr ''public'']),
           (''id_token_signing_alg_values_supported'', JArr [JStr ''HS256''])]"

record user_info =
  ui_sub :: string
  ui_name :: string
  ui_username :: string
  ui_email :: string
  ui_groups :: "string list"

definition USERINFO_STORE :: "(string, user_info) dict" where
  "USERINFO_STORE =
     [(''admin'',
        \<lparr>ui_sub = ''user-ztlab-001'', ui_name = ''Alice Zero-Trust'', ui_username = ''alice'',
         ui_email = ''alice@zerotrust.lab'', ui_groups = [''engineers'', ''admins'']\<rparr>),
      (''non-admin'',
        \<lparr>ui_sub = ''user-ztlab-002'', ui_name = ''Bob No-Admin'', ui_username = ''bob'',
         ui_email = ''bob@zerotrust.lab'', ui_groups = [''engineers'']\<rparr>)]"

definition admin_info :: user_info where
  "admin_info = snd (USERINFO_STORE ! 0)"

definition info_json :: "user_info \<Rightarrow> json" where
  "info_json u =
     JObj [(''sub'', JStr (ui_sub u)), (''name'', JStr (ui_name u)),
           (''preferred_username'', JStr (ui_username u)), (''email'', JStr (ui_email u)),
           (''groups'', JArr (map JStr (ui_groups u)))]"

subsection \<open>Tokens\<close>

record mint =
  mint_iat :: rat
  mint_exp :: rat
  mint_jti :: string

definition b64_encode :: "platform \<Rightarrow> json \<Rightarrow> string" where
  "b64_encode P data = rstrip_eq (urlsafe_b64encode (dumps_default (float_repr P) data))"

text \<open>The keys of the payload replace or follow those of the body.\<close>

definition token_body :: "mint \<Rightarrow> jdict \<Rightarrow> json" where
  "token_body m payload =
     JObj (foldl (\<lambda>d (k, v). dict_set d k v)
       [(''iss'', JStr ISSUER), (''aud'', JStr CLIENT_ID), (''iat'', JInt (trunc_rat (mint_iat m))),
        (''exp'', JInt (trunc_rat (mint_exp m) + 3600)), (''jti'', JStr (mint_jti m))] payload)"

definition make_jwt :: "platform \<Rightarrow> mint \<Rightarrow> jdict \<Rightarrow> string" where
  "make_jwt P m payload =
     b64_encode P (JObj [(''alg'', JStr ''HS256''), (''typ'', JStr ''JWT'')]) @ ''.'' @
     b64_encode P (token_body m payload) @ ''.'' @
     b64_encode P (JObj [(''sig'', JStr ''mock'')])"

definition access_payload :: "user_info \<Rightarrow> jdict" where
  "access_payload u = [(''sub'', JStr (ui_sub u)), (''scope'', JStr ''openid profile email'')]"

definition id_payload :: "user_info \<Rightarrow> jdict" where
  "id_payload u =
     [(''sub'', JStr (ui_sub u)), (''name'', JStr (ui_name u)), (''preferred_username'', JStr (ui_username u)),
      (''email'', JStr (ui_email u)), (''groups'', JArr (map JStr (ui_groups u)))]"

subsection \<open>Endpoints\<close>

definition openid_config :: response where
  "openid_config = json_response 200 CONFIG"

definition jwks :: "string \<Rightarrow> response" where
  "jwks signing_key = json_response 200 (JObj [(''keys'', JArr [JWK signing_key])])"

definition requested_user :: "request \<Rightarrow> user_info" where
  "requested_user req = get_or USERINFO_STORE (get_or (req_form req) ''user'' ''admin'') admin_info"

text \<open>\<open>m\<close> and \<open>m'\<close> belong to the access token and the identity token.\<close>

definition token :: "platform \<Rightarrow> mint \<Rightarrow> mint \<Rightarrow> request \<Rightarrow> response" where
  "token P m m' req =
     (if get_or (req_form req) ''grant_type'' ''authorization_code'' \<noteq> ''authorization_code''
      then json_response 400 (error_body ''unsupported_grant_type'')
      else
        (let u = requested_user req in
         json_response 200 (JObj
           [(''access_token'', JStr (make_jwt P m (access_payload u))),
            (''id_token'', JStr (make_jwt P m' (id_payload u))),
            (''token_type'', JStr ''Bearer''), (''expires_in'', JInt 3600)])))"

definition token_subject :: "string \<Rightarrow> json py" where
  "token_subject payload_b64 =
     py_bind (urlsafe_b64decode (repad payload_b64)) (\<lambda>bytes.
     py_bind (loads_bytes bytes) (\<lambda>j.
     py_bind (as_dict j) (\<lambda>decoded. Inr (get_or decoded ''sub'' (JStr [])))))"

definition find_user :: "json \<Rightarrow> user_info" where
  "find_user sub =
     (case List.find (\<lambda>u. JStr (ui_sub u) = sub) (map snd USERINFO_STORE) of
        Some u \<Rightarrow> u
      | None \<Rightarrow> admin_info)"

definition userinfo :: "request \<Rightarrow> response py" where
  "userinfo req =
     (let auth = header_or (req_headers req) ''Authorization'' [] in
      if \<not> startswith auth ''Bearer '' then Inr (json_response 401 (error_body ''invalid_token''))
      else
        (let parts = split_on (CHR ''.'') (drop 7 auth) in
         if length parts \<noteq> 3 then Inr (json_response 401 (error_body ''invalid_token''))
         else case token_subject (parts ! 1) of
           Inl e \<Rightarrow>
             if e = ValueError \<or> e = JSONDecodeError
             then Inr (json_response 401 (error_body ''invalid_token'')) else Inl e
         | Inr sub \<Rightarrow> Inr (json_response 200 (info_json (find_user sub)))))"

subsection \<open>A directory read back through tokens\<close>

locale user_directory =
  fixes issue :: "'u \<Rightarrow> 'm \<Rightarrow> string" and resolve :: "string \<Rightarrow> 'u py" and registered :: "'u \<Rightarrow> bool"
    and sound :: "'m \<Rightarrow> bool"
  assumes resolve_issue: "registered u \<Longrightarrow> sound m \<Longrightarrow> resolve (issue u m) = Inr u"
begin

lemma issue_distinct: "registered u \<Longrightarrow> registered v \<Longrightarrow> sound m \<Longrightarrow> sound n \<Longrightarrow> issue u m = issue v n \<Longrightarrow> u = v"
  by (metis resolve_issue sum.inject(2))

end

lemma b64_encode_segment: "b64_encode P j = segment_enc (dumps_default (float_repr P) j)"
  by (simp add: b64_encode_def segment_enc_def)

lemma b64_encode_no_dot: "CHR ''.'' \<notin> set (b64_encode P j)"
  by (simp add: b64_encode_segment segment_no_dot)

lemma make_jwt_parts:
  "split_on (CHR ''.'') (make_jwt P m payload) =
    [b64_encode P (JObj [(''alg'', JStr ''HS256''), (''typ'', JStr ''JWT'')]), b64_encode P (token_body m payload),
     b64_encode P (JObj [(''sig'', JStr ''mock'')])]"
  by (simp add: make_jwt_def split_on_append split_on_absent b64_encode_no_dot)

lemma plain_fold:
  "plain_json (JObj d) \<Longrightarrow> list_all (\<lambda>(_, v). plain_json v) ps \<Longrightarrow>
    plain_json (JObj (foldl (\<lambda>d (k, v). dict_set d k v) d ps))"
proof (induction ps arbitrary: d)
  case (Cons p ps)
  obtain k v where p: "p = (k, v)" by (cases p)
  have "set (dict_set d k v) \<subseteq> insert (k, v) (set d)"
    unfolding dict_set_def by (induction d) auto
  then have "plain_json (JObj (dict_set d k v))"
    using Cons.prems p pd.valid_store [of d k v] by (auto simp: plain_json_def)
  with Cons p show ?case by simp
qed simp

lemma plain_token_body: "list_all (\<lambda>(_, v). plain_json v) payload \<Longrightarrow> plain_json (token_body m payload)"
  unfolding token_body_def by (rule plain_fold) (simp_all add: plain_json_def is_dict_def)

lemma token_body_get:
  assumes "k \<in> fst ` set payload" "distinct (map fst payload)"
  shows "\<exists>d. token_body m payload = JObj d \<and> dict_get d k = map_of payload k"
proof -
  have "map_of (rev payload) = map_of payload"
    using assms(2) by (subst map_of_inject_set) (simp_all add: rev_map [symmetric])
  moreover obtain v where "map_of payload k = Some v"
    using assms(1) by (metis map_of_eq_None_iff not_None_eq)
  ultimately have "dict_get (foldl (\<lambda>d (k, v). dict_set d k v) d payload) k = map_of payload k" for d
    using pd.lookup_store_all [of d payload k] by (simp add: pd.store_all_def)
  then show ?thesis by (simp add: token_body_def)
qed

text \<open>The subject of a token, read back from its middle segment.\<close>

lemma token_subject_jwt:
  assumes "list_all (\<lambda>(_, v). plain_json v) payload" "distinct (map fst payload)" "map_of payload ''sub'' = Some s"
  shows "token_subject (b64_encode P (token_body m payload)) = Inr s"
proof -
  have "urlsafe_b64decode (repad (segment_enc t)) = Inr t" for t
    using seg.outer.dec_enc by (simp add: segment_dec_def)
  moreover obtain d where "token_body m payload = JObj d" "dict_get d ''sub'' = Some s"
    using token_body_get [OF _ assms(2), of "''sub''" m] assms(3) by (metis map_of_SomeD fst_conv image_eqI)
  ultimately show ?thesis
    using loads_bytes_dumps_default [OF plain_token_body [OF assms(1), of m], of "float_repr P"]
    by (simp add: token_subject_def b64_encode_segment get_or_def)
qed

definition known_user :: "user_info \<Rightarrow> bool" where
  "known_user u \<longleftrightarrow> u \<in> snd ` set USERINFO_STORE"

lemma find_known: "known_user u \<Longrightarrow> find_user (JStr (ui_sub u)) = u"
  by (auto simp: known_user_def find_user_def USERINFO_STORE_def)

lemma plain_payloads:
  "list_all (\<lambda>(_, v). plain_json v) (access_payload u)" "list_all (\<lambda>(_, v). plain_json v) (id_payload u)"
  by (simp_all add: access_payload_def id_payload_def plain_json_def)

text \<open>What \<open>/userinfo\<close> makes of the payload segment of an access token.\<close>

definition issue_segment :: "platform \<Rightarrow> user_info \<Rightarrow> mint \<Rightarrow> string" where
  "issue_segment P u m = b64_encode P (token_body m (access_payload u))"

definition resolve_segment :: "string \<Rightarrow> user_info py" where
  "resolve_segment s = py_bind (token_subject s) (\<lambda>sub. Inr (find_user sub))"

interpretation directory: user_directory "issue_segment P" resolve_segment known_user "\<lambda>_. True" for P
proof unfold_locales
  fix u and m :: mint
  assume "known_user u"
  moreover have "token_subject (issue_segment P u m) = Inr (JStr (ui_sub u))"
    unfolding issue_segment_def
    by (rule token_subject_jwt [OF plain_payloads(1)]) (simp_all add: access_payload_def)
  ultimately show "resolve_segment (issue_segment P u m) = Inr u"
    by (simp add: resolve_segment_def find_known)
qed

lemma known_requested: "known_user (requested_user req)"
proof -
  have "admin_info \<in> snd ` set USERINFO_STORE" by (simp add: admin_info_def USERINFO_STORE_def)
  moreover have "v \<in> snd ` set USERINFO_STORE" if "dict_get USERINFO_STORE k = Some v" for k v
    using that by (metis dict_get_def image_eqI map_of_SomeD snd_conv)
  ultimately show ?thesis
    by (auto simp: known_user_def requested_user_def get_or_def split: option.split)
qed

text \<open>The identity that the bridge gets out of an identity token of the provider.\<close>

lemma id_token_claims:
  "token_body m (id_payload u) =
    JObj [(''iss'', JStr ISSUER), (''aud'', JStr CLIENT_ID), (''iat'', JInt (trunc_rat (mint_iat m))),
          (''exp'', JInt (trunc_rat (mint_exp m) + 3600)), (''jti'', JStr (mint_jti m)),
          (''sub'', JStr (ui_sub u)), (''name'', JStr (ui_name u)), (''preferred_username'', JStr (ui_username u)),
          (''email'', JStr (ui_email u)), (''groups'', JArr (map JStr (ui_groups u)))]"
  by (simp add: token_body_def id_payload_def dict_set_def)

lemma decode_id_token_jwt: "decode_id_token (''Bearer '' @ make_jwt P m (id_payload u)) = Inr (token_body m (id_payload u))"
  unfolding make_jwt_def b64_encode_segment [of P "token_body m (id_payload u)"]
  by (rule decode_token [OF plain_token_body [OF plain_payloads(2)]]) (simp_all add: b64_encode_no_dot)

lemma str_in_groups: "str_in s (JArr (map JStr xs)) = Inr (s \<in> set xs)"
  by (auto simp: image_iff)

lemma bridge_identity:
  assumes "oauth (header_or hs ''Cookie'' []) = Reply 202 rh body"
    and "header rh ''Authorization'' = Some (''Bearer '' @ make_jwt P m (id_payload u))"
  shows "check_identity P oauth hs =
    Inr (identity_of (JStr (ui_email u)) False 0 (JArr (map JStr (ui_groups u))) (''admins'' \<in> set (ui_groups u)))"
proof -
  have "\<not> str_contains (lower ''[]'') ''mfa''" by code_simp
  moreover have "decode_id_token (header_or rh ''Authorization'' []) = Inr (token_body m (id_payload u))"
    unfolding header_or_def assms(2) option.case by (rule decode_id_token_jwt)
  ultimately show ?thesis
    using assms(1) by (simp add: check_identity_def id_token_claims mfa_in_amr_def identity_of_def image_iff)
qed

subsection \<open>Properties\<close>

text \<open>
  C39: the two endpoints agree. The access token that \<open>/oauth/token\<close> issues, presented as a bearer
  token, makes \<open>/userinfo\<close> answer with the user that the token was issued for; a user type that the
  provider does not know gets the administrator's token.
\<close>

theorem token_resolves_to_user:
  assumes "get_or (req_form req) ''grant_type'' ''authorization_code'' = ''authorization_code''"
    and "header (req_headers req') ''Authorization'' = Some (''Bearer '' @ tok)"
    and "resp_body (token P m m' req) = JObj d" "get_or d ''access_token'' JNull = JStr tok"
  shows "userinfo req' = Inr (json_response 200 (info_json (requested_user req))) \<and>
    (dict_get USERINFO_STORE (get_or (req_form req) ''user'' ''admin'') = None \<longrightarrow> requested_user req = admin_info)"
proof -
  let ?u = "requested_user req"
  have tok: "tok = make_jwt P m (access_payload ?u)"
    using assms(1,3,4) by (auto simp: token_def json_response_def Let_def)
  have "py_bind (token_subject (issue_segment P ?u m)) (\<lambda>sub. Inr (find_user sub)) = Inr ?u"
    using directory.resolve_issue [OF known_requested] by (simp add: resolve_segment_def)
  then obtain sub where sub: "token_subject (b64_encode P (token_body m (access_payload ?u))) = Inr sub" "find_user sub = ?u"
    by (auto simp: py_bind_eq_Inr issue_segment_def)
  have "userinfo req' = Inr (json_response 200 (info_json ?u))"
    using assms(2) sub by (simp add: userinfo_def header_or_def tok make_jwt_parts Let_def)
  then show ?thesis by (simp add: requested_user_def get_or_def)
qed


text \<open>
  C40: the mock provider's users never get through. Its identity tokens carry no \<open>amr\<close> claim, so the
  bridge takes MFA as not verified, and with OPA serving the policy every request that is answered is
  answered with 403, whatever the device and the path.
\<close>

theorem mock_users_never_pass:
  assumes "w_oauth W (header_or (req_headers req) ''Cookie'' []) = Reply 202 rh body"
    and "header rh ''Authorization'' = Some (''Bearer '' @ make_jwt P m (id_payload u))"
    and "serves_policy cfg W now" "fst (validate P cfg W req l) = Inr r"
  shows "resp_status r = 403"
proof -
  obtain l' where "validate P cfg W req l = (Inr r, l')"
    using assms(4) by (cases "validate P cfg W req l") auto
  then show ?thesis
  proof (cases rule: validate_cases)
    case (1 identity posture allowed why)
    have identity: "identity = identity_of (JStr (ui_email u)) False 0 (JArr (map JStr (ui_groups u)))
        (''admins'' \<in> set (ui_groups u))"
      using bridge_identity [where oauth = "w_oauth W" and P = P and m = m and u = u, OF assms(1,2)] 1(1) by simp
    then have "\<not> allow now (opa_input (original_uri req) (source_ip req) identity posture)"
      by (simp add: allow_opa_input)
    then have "\<not> truthy allowed" using served_decision [OF assms(3) 1(3)] by blast
    with decision_status [OF 1(4)] identity show ?thesis by simp
  qed
qed

subsection \<open>Worked examples\<close>

definition sample_mint :: mint where
  "sample_mint = \<lparr>mint_iat = 1000, mint_exp = 1000, mint_jti = ''j''\<rparr>"

definition token_request :: request where
  "token_request = (sample_request ''/'')\<lparr>req_form := [(''user'', ''mallory'')]\<rparr>"

definition sample_token :: string where
  "sample_token = make_jwt sample_platform sample_mint (access_payload (requested_user token_request))"

definition token_bearer :: request where
  "token_bearer = (sample_request ''/'')\<lparr>req_headers := [(''Authorization'', ''Bearer '' @ sample_token)]\<rparr>"

lemma sample_token_issued:
  "\<exists>d. resp_body (token sample_platform sample_mint sample_mint token_request) = JObj d \<and>
    get_or d ''access_token'' JNull = JStr sample_token"
  by (simp add: token_def json_response_def token_request_def sample_token_def Let_def)

lemma token_resolves_to_user_witness:
  "userinfo token_bearer = Inr (json_response 200 (info_json (requested_user token_request))) \<and>
    requested_user token_request = admin_info"
proof -
  obtain d where d: "resp_body (token sample_platform sample_mint sample_mint token_request) = JObj d"
    "get_or d ''access_token'' JNull = JStr sample_token"
    using sample_token_issued by blast
  have form: "get_or (req_form token_request) ''grant_type'' ''authorization_code'' = ''authorization_code''"
    "get_or (req_form token_request) ''user'' ''admin'' = ''mallory''"
    by (simp_all add: token_request_def)
  have bearer: "header (req_headers token_bearer) ''Authorization'' = Some (''Bearer '' @ sample_token)"
    by (simp add: token_bearer_def del: append.simps)
  have "dict_get USERINFO_STORE ''mallory'' = None" by (simp add: USERINFO_STORE_def)
  with token_resolves_to_user [OF form(1) bearer d] show ?thesis unfolding form(2) by blast
qed

definition mock_headers :: headers where
  "mock_headers = [(''Authorization'', ''Bearer '' @ make_jwt sample_platform sample_mint (id_payload admin_info))]"

definition mock_world :: world where
  "mock_world = sample_world\<lparr>w_oauth := (\<lambda>_. Reply 202 mock_headers [])\<rparr>"

lemma mock_reply:
  "w_oauth mock_world c = Reply 202 mock_headers []"
  "header mock_headers ''Authorization'' = Some (''Bearer '' @ make_jwt sample_platform sample_mint (id_payload admin_info))"
  by (simp_all add: mock_world_def mock_headers_def del: append.simps)

lemma mock_served: "serves_policy open_settings mock_world 1060"
  using sample_served by (simp add: serves_policy_def mock_world_def)

lemma mock_decision:
  "\<exists>r. fst (validate sample_platform open_settings mock_world (sample_request ''/public'') []) = Inr r"
proof -
  let ?i = "identity_of (JStr (ui_email admin_info)) False 0 (JArr (map JStr (ui_groups admin_info)))
    (''admins'' \<in> set (ui_groups admin_info))"
  let ?inp = "opa_input ''/public'' ''10.8.0.2'' ?i sample_record"
  have fin: "finite_json ?inp" by (simp add: opa_input_def sample_record_def)
  have same: "opa_post open_settings mock_world = opa_post open_settings sample_world"
    "w_store mock_world = w_store sample_world" "w_now mock_world = w_now sample_world"
    by (simp_all add: mock_world_def opa_post_def fun_eq_iff)
  have "check_identity sample_platform (w_oauth mock_world) (req_headers (sample_request ''/public'')) = Inr ?i"
    by (rule bridge_identity [OF mock_reply])
  from validate_decision [OF mock_served this, of sample_record _ "''r''" "[]"] show ?thesis
    using sample_posture sample_reason [OF fin] fin
    by (auto simp: same opa_result_def policy_server_result line_breaks_def)
qed

lemma mock_users_never_pass_witness:
  "\<exists>r. fst (validate sample_platform open_settings mock_world (sample_request ''/public'') []) = Inr r \<and>
    resp_status r = 403"
proof -
  obtain r where r: "fst (validate sample_platform open_settings mock_world (sample_request ''/public'') []) = Inr r"
    using mock_decision by blast
  have "resp_status r = 403"
    by (rule mock_users_never_pass [OF mock_reply mock_served r])
  with r show ?thesis by blast
qed

end
