(* ===== verification/Dashboard.thy ===== *)
theory Dashboard
  imports WireGuard
begin

section \<open>The admin dashboard\<close>

text \<open>
  \<open>gateway/authz-bridge/app.py\<close>, \<open>_get_wg_peers_list\<close>, \<open>_load_posture_for_dashboard\<close>,
  \<open>admin_dashboard\<close> and \<open>healthz\<close>. A \<open>page\<close> is the context that the handler hands to the template,
  which \<open>AdminPage\<close> renders. Ages are integers or floats as they come, so the arithmetic is on
  JSON numbers.
\<close>

subsection \<open>Arithmetic on JSON numbers\<close>

fun sub_num :: "int \<Rightarrow> json \<Rightarrow> json py" where
  "sub_num now (JInt i) = Inr (JInt (now - i))"
| "sub_num now (JBool b) = Inr (JInt (now - (if b then 1 else 0)))"
| "sub_num now (JFloat x) = Inr (JFloat (minus_num (of_int now) x))"
| "sub_num now _ = Inl TypeError"

fun below :: "json \<Rightarrow> int \<Rightarrow> bool" where
  "below (JInt i) k = (i < k)"
| "below (JFloat (Fin q)) k = (q < of_int k)"
| "below (JFloat NegInf) k = True"
| "below _ k = False"

text \<open>\<open>x // k\<close>; an infinity or NaN gives NaN.\<close>

fun floor_div :: "json \<Rightarrow> int \<Rightarrow> json" where
  "floor_div (JInt i) k = JInt (i div k)"
| "floor_div (JFloat (Fin q)) k = JFloat (Fin (of_int \<lfloor>q / of_int k\<rfloor>))"
| "floor_div _ k = JFloat NaN"

definition age_str :: "platform \<Rightarrow> json \<Rightarrow> string" where
  "age_str P age =
     (let str = py_str (float_repr P) in
      if below age 60 then str age @ ''s ago''
      else if below age 3600 then str (floor_div age 60) @ ''m ago''
      else str (floor_div age 3600) @ ''h ago'')"

subsection \<open>Devices\<close>

definition annotate :: "platform \<Rightarrow> json \<Rightarrow> jdict \<Rightarrow> jdict" where
  "annotate P age data =
     (let d = dict_set data ''age_str'' (JStr (age_str P age)) in
      if dict_get d ''signals'' = None then dict_set d ''signals'' (JObj []) else d)"

definition dashboard_device :: "platform \<Rightarrow> int \<Rightarrow> string \<times> json \<Rightarrow> (string \<times> jdict) py" where
  "dashboard_device P now item =
     py_bind (as_dict (fst (open_envelope (snd item)))) (\<lambda>data.
     py_bind (sub_num now (get_or data ''checked_at'' (get_or data ''last_seen'' (JInt 0)))) (\<lambda>age.
       Inr (fst item, annotate P age data)))"

definition load_posture_for_dashboard :: "platform \<Rightarrow> json_file \<Rightarrow> rat \<Rightarrow> (string, jdict) dict py" where
  "load_posture_for_dashboard P file clock =
     py_bind (py_catch [FileNotFoundError, JSONDecodeError] (read_json file) (Inr (JObj []))) (\<lambda>doc.
     py_bind (as_dict doc) (\<lambda>store.
       py_mapM (dashboard_device P (trunc_rat clock)) store))"

definition get_wg_peers_list :: "wg_tool \<Rightarrow> json list py" where
  "get_wg_peers_list G =
     py_bind (get_wg_peers (wg_show G)) (\<lambda>peers.
       Inr (map (\<lambda>p. JObj [(''public_key_short'', JStr (short_key (fst p))),
                           (''allowed_ips'', JStr (allowed_ips (snd p))),
                           (''endpoint'', JStr (endpoint (snd p)))]) peers))"

record page =
  pg_devices :: "(string, jdict) dict"
  pg_peers :: "json list"
  pg_device_count :: nat
  pg_healthy :: nat
  pg_unhealthy :: nat
  pg_peer_count :: nat

definition shows_healthy :: "jdict \<Rightarrow> bool" where
  "shows_healthy d = (get_or d ''posture'' JNull = JStr ''healthy'')"

definition admin_dashboard :: "platform \<Rightarrow> json_file \<Rightarrow> rat \<Rightarrow> wg_tool \<Rightarrow> page py" where
  "admin_dashboard P file clock G =
     py_bind (load_posture_for_dashboard P file clock) (\<lambda>devices.
     py_bind (get_wg_peers_list G) (\<lambda>peers.
       let healthy = length (filter shows_healthy (map snd devices)) in
       Inr \<lparr>pg_devices = devices, pg_peers = peers, pg_device_count = length devices, pg_healthy = healthy,
            pg_unhealthy = length devices - healthy, pg_peer_count = length peers\<rparr>))"

definition healthz :: response where
  "healthz = json_response 200 (JObj [(''status'', JStr ''ok'')])"

subsection \<open>What the page shows\<close>

lemma py_mapM_fst:
  "(\<And>x y. f x = Inr y \<Longrightarrow> fst y = fst x) \<Longrightarrow> py_mapM f xs = Inr ys \<Longrightarrow> map fst ys = map fst xs"
  by (induction xs arbitrary: ys) (auto simp: py_bind_eq_Inr)

lemma py_mapM_lookup:
  assumes "\<And>x y. f x = Inr y \<Longrightarrow> fst y = fst x"
  shows "py_mapM f xs = Inr ys \<Longrightarrow> dict_get xs k = Some v \<Longrightarrow> \<exists>w. f (k, v) = Inr (k, w) \<and> dict_get ys k = Some w"
proof (induction xs arbitrary: ys)
  case (Cons x xs)
  obtain k' v' where x: "x = (k', v')" by (cases x)
  from Cons.prems(1) obtain y zs where y: "f x = Inr y" "py_mapM f xs = Inr zs" "ys = y # zs"
    by (auto simp: py_bind_eq_Inr)
  obtain w where "y = (k', w)" using assms [OF y(1)] x by (cases y) simp
  with Cons x y show ?case by (cases "k = k'") auto
qed simp

lemma dashboard_device_key: "dashboard_device P now item = Inr y \<Longrightarrow> fst y = fst item"
  by (auto simp: dashboard_device_def py_bind_eq_Inr)

lemma annotate_get:
  "k \<noteq> ''age_str'' \<Longrightarrow> k \<noteq> ''signals'' \<Longrightarrow> get_or (annotate P age d) k x = get_or d k x"
  by (simp add: annotate_def Let_def)

lemma load_posture_cases:
  assumes "load_posture_for_dashboard P file clock = Inr devices"
  obtains store where "file = Doc (JObj store) \<or> (file = Missing \<or> file = BadJson) \<and> store = []"
    "py_mapM (dashboard_device P (trunc_rat clock)) store = Inr devices"
proof -
  from assms obtain doc store where "py_catch [FileNotFoundError, JSONDecodeError] (read_json file) (Inr (JObj [])) = Inr doc"
    "doc = JObj store" and mapped: "py_mapM (dashboard_device P (trunc_rat clock)) store = Inr devices"
    by (auto simp: load_posture_for_dashboard_def py_bind_eq_Inr)
  then have "file = Doc (JObj store) \<or> (file = Missing \<or> file = BadJson) \<and> store = []"
    by (cases "file") auto
  then show ?thesis using mapped by (rule that)
qed

subsection \<open>Properties\<close>

text \<open>
  The page accounts for every device. The devices shown are the addresses of the store, in its
  order; the healthy and the unhealthy ones add up to the number of devices, and a device counts as
  healthy exactly when its record says so.
\<close>

theorem dashboard_accounts_for_devices:
  assumes "admin_dashboard P (Doc (JObj store)) clock G = Inr pg"
  shows "map fst (pg_devices pg) = map fst store \<and> pg_device_count pg = length store \<and>
    pg_healthy pg + pg_unhealthy pg = pg_device_count pg \<and>
    pg_healthy pg = length (filter (\<lambda>(_, entry). \<exists>d. fst (open_envelope entry) = JObj d \<and> shows_healthy d) store)"
proof -
  from assms obtain devices where load: "load_posture_for_dashboard P (Doc (JObj store)) clock = Inr devices"
    and pg: "pg_devices pg = devices" "pg_device_count pg = length devices"
      "pg_healthy pg = length (filter shows_healthy (map snd devices))"
      "pg_unhealthy pg = length devices - pg_healthy pg"
    by (auto simp: admin_dashboard_def py_bind_eq_Inr Let_def)
  from load have mapped: "py_mapM (dashboard_device P (trunc_rat clock)) store = Inr devices"
    by (cases rule: load_posture_cases) auto
  have keys: "map fst devices = map fst store"
    by (rule py_mapM_fst [where f = "dashboard_device P (trunc_rat clock)"]) (rule dashboard_device_key, assumption, rule mapped)
  from mapped have "length (filter shows_healthy (map snd devices)) =
      length (filter (\<lambda>(_, entry). \<exists>d. fst (open_envelope entry) = JObj d \<and> shows_healthy d) store)"
    by (induction store arbitrary: devices)
      (auto simp: py_bind_eq_Inr dashboard_device_def shows_healthy_def annotate_get)
  moreover have "length devices = length store" using keys by (metis length_map)
  moreover have "length (filter shows_healthy (map snd devices)) \<le> length devices"
    by (metis length_filter_le length_map)
  ultimately show ?thesis using keys pg by simp
qed

text \<open>
  The dashboard believes what the gate refuses. A record whose signature does not verify makes
  the gate answer unhealthy, while the page shows the device with the posture that the record claims.
\<close>

theorem dashboard_shows_unverified:
  assumes "dict_get store ip = Some (JObj env)" "env \<noteq> []" "get_or env ''data'' (JObj env) = JObj d"
    and "\<not> verify_posture_sig P (posture_signing_secret cfg) (JObj d) (get_or env ''sig'' (JStr []))"
    and "admin_dashboard P' (Doc (JObj store)) clock G = Inr pg"
  shows "get_posture P cfg (Doc (JObj store)) now ip = Inr (unhealthy ''invalid posture signature'') \<and>
    (\<exists>shown. dict_get (pg_devices pg) ip = Some shown \<and> get_or shown ''posture'' JNull = get_or d ''posture'' JNull)"
proof -
  from assms(5) obtain devices where load: "load_posture_for_dashboard P' (Doc (JObj store)) clock = Inr devices"
    and pg: "pg_devices pg = devices"
    by (auto simp: admin_dashboard_def py_bind_eq_Inr Let_def)
  from load have mapped: "py_mapM (dashboard_device P' (trunc_rat clock)) store = Inr devices"
    by (cases rule: load_posture_cases) auto
  have "\<exists>w. dashboard_device P' (trunc_rat clock) (ip, JObj env) = Inr (ip, w) \<and> dict_get devices ip = Some w"
    by (rule py_mapM_lookup [where f = "dashboard_device P' (trunc_rat clock)"])
      (rule dashboard_device_key, assumption, rule mapped, rule assms(1))
  then obtain shown where
    "dashboard_device P' (trunc_rat clock) (ip, JObj env) = Inr (ip, shown)" "dict_get devices ip = Some shown"
    by blast
  moreover from this(1) have "get_or shown ''posture'' JNull = get_or d ''posture'' JNull"
    using assms(3) by (auto simp: dashboard_device_def py_bind_eq_Inr annotate_get)
  moreover have "get_posture P cfg (Doc (JObj store)) now ip = Inr (unhealthy ''invalid posture signature'')"
    using assms(1-4) by (simp add: get_posture_def get_or_def Let_def)
  ultimately show ?thesis using pg by blast
qed

subsection \<open>Worked examples\<close>

definition forged_store :: jdict where
  "forged_store = [(''10.8.0.2'', JObj [(''data'', JObj [(''posture'', JStr ''healthy'')]), (''sig'', JStr [])])]"

lemma forged_page: "\<exists>pg. admin_dashboard sample_platform (Doc (JObj forged_store)) 1000 sample_tool = Inr pg"
  by (simp add: admin_dashboard_def load_posture_for_dashboard_def forged_store_def dashboard_device_def
      get_wg_peers_list_def sample_peers)

lemma dashboard_accounts_for_devices_witness:
  "\<exists>pg. admin_dashboard sample_platform (Doc (JObj forged_store)) 1000 sample_tool = Inr pg \<and>
    pg_device_count pg = 1 \<and> pg_healthy pg = 1 \<and> pg_unhealthy pg = 0"
proof -
  obtain pg where pg: "admin_dashboard sample_platform (Doc (JObj forged_store)) 1000 sample_tool = Inr pg"
    using forged_page by blast
  with dashboard_accounts_for_devices [OF pg] show ?thesis
    by (auto simp: forged_store_def shows_healthy_def)
qed

lemma dashboard_shows_unverified_witness:
  "\<exists>pg. admin_dashboard sample_platform (Doc (JObj forged_store)) 1000 sample_tool = Inr pg \<and>
    (\<exists>shown. dict_get (pg_devices pg) ''10.8.0.2'' = Some shown \<and>
      get_or shown ''posture'' JNull = JStr ''healthy'') \<and>
    get_posture sample_platform sample_settings (Doc (JObj forged_store)) 1000 ''10.8.0.2''
      = Inr (unhealthy ''invalid posture signature'')"
proof -
  obtain pg where pg: "admin_dashboard sample_platform (Doc (JObj forged_store)) 1000 sample_tool = Inr pg"
    using forged_page by blast
  have "get_posture sample_platform sample_settings (Doc (JObj forged_store)) 1000 ''10.8.0.2''
      = Inr (unhealthy ''invalid posture signature'') \<and>
    (\<exists>shown. dict_get (pg_devices pg) ''10.8.0.2'' = Some shown \<and>
      get_or shown ''posture'' JNull = get_or [(''posture'', JStr ''healthy'')] ''posture'' JNull)"
    by (rule dashboard_shows_unverified [where store = forged_store and
          env = "[(''data'', JObj [(''posture'', JStr ''healthy'')]), (''sig'', JStr [])]" and
          d = "[(''posture'', JStr ''healthy'')]", OF _ _ _ _ pg])
      (simp_all add: forged_store_def verify_posture_sig_def sample_settings_def)
  with pg show ?thesis by simp
qed

end
