(* ===== verification/AdminPage.thy ===== *)
theory AdminPage
  imports Dashboard
begin

section \<open>The page of the dashboard\<close>

text \<open>
  \<open>ADMIN_TEMPLATE\<close> of \<open>gateway/authz-bridge/app.py\<close>, rendered from the context that \<open>admin_dashboard\<close>
  hands to it. The template language is Jinja's: text outside the tags is copied, with the line breaks
  around the tags, an expression is printed as escaped text, a missing field prints nothing, and calling
  what is missing is an error. The escaped text of a value, \<open>markupsafe.escape\<close>, is the argument \<open>esc\<close>;
  \<open>escapes\<close> states what it is documented to do.
\<close>

definition html :: "string list \<Rightarrow> string" where
  "html ls = join [newline] ls"

definition show_field :: "(json \<Rightarrow> string) \<Rightarrow> jdict \<Rightarrow> string \<Rightarrow> string" where
  "show_field esc d k = (case dict_get d k of None \<Rightarrow> [] | Some v \<Rightarrow> esc v)"

definition badge :: "bool \<Rightarrow> string" where
  "badge ok = (if ok then ''healthy'' else ''unhealthy'')"

subsection \<open>Rows\<close>

definition signal_badge :: "(json \<Rightarrow> string) \<Rightarrow> string \<times> json \<Rightarrow> string" where
  \<open>signal_badge esc s =
     html [[], ''            <span class="badge ''] @ badge (truthy (snd s)) @
     html [''">''] @ esc (JStr (fst s)) @ html [''</span>'', ''            '']\<close>

text \<open>\<open>device.signals.items()\<close>: only a dictionary has the method.\<close>

definition signal_items :: "jdict \<Rightarrow> (string \<times> json) list py" where
  "signal_items d =
     (case dict_get d ''signals'' of Some (JObj signals) \<Rightarrow> Inr signals | _ \<Rightarrow> Inl UndefinedError)"

definition device_row :: "(json \<Rightarrow> string) \<Rightarrow> string \<times> jdict \<Rightarrow> string py" where
  \<open>device_row esc e =
     (let d = snd e in
      py_bind (signal_items d) (\<lambda>signals.
      Inr (html [[], ''        <tr>'', ''          <td>''] @ esc (JStr (fst e)) @
        html [''</td>'', ''          <td>''] @ show_field esc d ''device_id'' @
        html [''</td>'', ''          <td><span class="badge ''] @ badge (shows_healthy d) @
        html [''">''] @ show_field esc d ''posture'' @
        html [''</span></td>'', ''          <td>''] @ show_field esc d ''age_str'' @
        html [''</td>'', ''          <td>'', ''            ''] @
        concat (map (signal_badge esc) signals) @
        html
       [[],
        ''          </td>'',
        ''        </tr>'',
        ''        ''])))\<close>

definition peer_fields :: "json \<Rightarrow> jdict" where
  "peer_fields p = (case p of JObj d \<Rightarrow> d | _ \<Rightarrow> [])"

definition peer_row :: "(json \<Rightarrow> string) \<Rightarrow> string \<Rightarrow> json \<Rightarrow> string" where
  \<open>peer_row esc dash p =
     (let d = peer_fields p in
      html [[], ''        <tr>'', ''          <td>''] @ show_field esc d ''public_key_short'' @
      html [''</td>'', ''          <td>''] @ show_field esc d ''allowed_ips'' @
      html [''</td>'', ''          <td>''] @
      (if truthy (get_or d ''endpoint'' JNull) then show_field esc d ''endpoint'' else esc (JStr dash)) @
      html [''</td>'', ''        </tr>'', ''        ''])\<close>

subsection \<open>The whole page\<close>

definition page_head :: string where
  \<open>page_head =
     html
       [[],
        ''<!DOCTYPE html>'',
        ''<html>'',
        ''<head>'',
        ''  <meta charset="utf-8">'',
        ''  <title>ZTLab Admin Dashboard</title>'',
        ''  <meta http-equiv="refresh" content="30">'',
        ''  <style>'',
        ''    * { box-sizing: border-box; margin: 0; padding: 0; }'',
        ''    body { font-family: -apple-system, Segoe UI, sans-serif; background: #0f1115; color: #e6e6e6; }'',
        ''    .header { padding: 24px 32px; background: #1a1d24; border-bottom: 1px solid #2a2d34; }'',
        ''    .header h1 { font-size: 20px; font-weight: 600; }'',
        ''    .header .subtitle { color: #9aa0ac; font-size: 13px; margin-top: 4px; }'',
        ''    .grid { display: grid; grid-template-columns: repeat(auto-fit, minmax(320px, 1fr)); gap: 20px; padding: 24px 32px; }'',
        ''    .card { background: #1a1d24; border-radius: 12px; padding: 20px; border: 1px solid #2a2d34; }'',
        ''    .card h2 { font-size: 14px; text-transform: uppercase; letter-spacing: 0.08em; color: #9aa0ac; margin-bottom: 16px; }'',
        ''    .stat { font-size: 36px; font-weight: 700; }'',
        ''    .stat.green { color: #3ddc97; }'',
        ''    .stat.red { color: #ff6b6b; }'',
        ''    .stat.yellow { color: #ffd93d; }'',
        ''    table { width: 100%; border-collapse: collapse; font-size: 13px; }'',
        ''    th { text-align: left; color: #9aa0ac; padding: 8px; border-bottom: 1px solid #2a2d34; }'',
        ''    td { padding: 8px; border-bottom: 1px solid #1a1d24; font-family: monospace; }'',
        ''    .badge { display: inline-block; padding: 2px 8px; border-radius: 4px; font-size: 11px; font-weight: 700; }'',
        ''    .badge.healthy { background: #3ddc97; color: #0f1115; }'',
        ''    .badge.unhealthy { background: #ff6b6b; color: #0f1115; }'',
        ''    .badge.unknown { background: #888; color: #0f1115; }'',
        ''  </style>'',
        ''</head>'',
        ''<body>'',
        ''  <div class="header">'',
        ''    <h1>ZTLab Admin Dashboard</h1>'',
        ''    <div class="subtitle">Auto-refreshes every 30 seconds &mdash; '']\<close>

definition overview :: "(json \<Rightarrow> string) \<Rightarrow> page \<Rightarrow> string" where
  \<open>overview esc pg =
     (let count = (\<lambda>n. esc (JInt (int n))) in
      count (pg_device_count pg) @
      html
       ['' devices tracked</div>'',
        ''  </div>'',
        ''  <div class="grid">'',
        ''    <div class="card">'',
        ''      <h2>Device Posture Overview</h2>'',
        ''      <div style="display:flex;gap:24px;">'',
        ''        <div><span class="stat green">''] @ count (pg_healthy pg) @
      html [''</span><br><small style="color:#9aa0ac">Healthy</small></div>'', ''        <div><span class="stat red">''] @ count (pg_unhealthy pg) @
      html
       [''</span><br><small style="color:#9aa0ac">Unhealthy</small></div>'',
        ''      </div>'',
        ''    </div>'',
        ''    <div class="card">'',
        ''      <h2>WireGuard Peers</h2>'',
        ''      <div class="stat yellow">''] @ count (pg_peer_count pg))\<close>

definition device_heading :: string where
  \<open>device_heading =
     html
       [''</div>'',
        ''      <small style="color:#9aa0ac">Active tunnel peers</small>'',
        ''    </div>'',
        ''    <div class="card" style="grid-column: 1 / -1;">'',
        ''      <h2>Device Status</h2>'',
        ''      <table>'',
        ''        <tr><th>IP</th><th>Device</th><th>Status</th><th>Last Check</th><th>Signals</th></tr>'',
        ''        '']\<close>

definition no_devices :: string where
  \<open>no_devices =
     html [[], ''        <tr><td colspan="5" style="color:#9aa0ac;text-align:center;">No devices registered</td></tr>'', ''        '']\<close>

definition peer_heading :: string where
  \<open>peer_heading =
     html
       [[],
        ''      </table>'',
        ''    </div>'',
        ''    <div class="card" style="grid-column: 1 / -1;">'',
        ''      <h2>WireGuard Peers</h2>'',
        ''      <table>'',
        ''        <tr><th>Public Key</th><th>Allowed IPs</th><th>Endpoint</th></tr>'',
        ''        '']\<close>

definition no_peers :: string where
  \<open>no_peers =
     html [[], ''        <tr><td colspan="3" style="color:#9aa0ac;text-align:center;">No peers connected</td></tr>'', ''        '']\<close>

definition page_end :: string where
  \<open>page_end =
     html
       [[],
        ''      </table>'',
        ''    </div>'',
        ''  </div>'',
        ''</body>'',
        ''</html>'']\<close>

definition render_admin :: "(json \<Rightarrow> string) \<Rightarrow> string \<Rightarrow> page \<Rightarrow> string py" where
  \<open>render_admin esc dash pg =
     py_bind (py_mapM (device_row esc) (pg_devices pg)) (\<lambda>rows.
     Inr (page_head @ overview esc pg @ device_heading @
       concat rows @ html [[], ''        ''] @ (if pg_devices pg = [] then no_devices else []) @
       peer_heading @ concat (map (peer_row esc dash) (pg_peers pg)) @
       html [[], ''        ''] @ (if pg_peers pg = [] then no_peers else []) @ page_end))\<close>

definition admin_page ::
    "(json \<Rightarrow> string) \<Rightarrow> string \<Rightarrow> platform \<Rightarrow> json_file \<Rightarrow> rat \<Rightarrow> wg_tool \<Rightarrow> response py" where
  "admin_page esc dash P f clock G =
     py_bind (admin_dashboard P f clock G) (\<lambda>pg.
     py_bind (render_admin esc dash pg) (\<lambda>text.
       Inr (json_response 200 (JStr text))))"

subsection \<open>Markup\<close>

text \<open>
  The characters that can open or close a tag or an attribute. \<open>markupsafe.escape\<close> replaces them all.
\<close>

definition markup_char :: "char \<Rightarrow> bool" where
  "markup_char c = (c = CHR ''<'' \<or> c = CHR ''>'' \<or> c = CHR 0x22 \<or> c = CHR 0x27)"

definition markup :: "string \<Rightarrow> string" where
  "markup s = filter markup_char s"

definition escapes :: "(json \<Rightarrow> string) \<Rightarrow> bool" where
  "escapes esc \<longleftrightarrow> (\<forall>v. markup (esc v) = [])"

lemma markup_append [simp]: "markup (a @ b) = markup a @ markup b"
  by (simp add: markup_def)

lemma markup_concat: "markup (concat xs) = concat (map markup xs)"
  by (induction xs) (simp_all add: markup_def)

lemma markup_badge [simp]: "markup (badge b) = []"
proof -
  have "markup ''healthy'' = []" "markup ''unhealthy'' = []" by code_simp+
  then show ?thesis by (simp add: badge_def)
qed

lemma markup_field: "escapes esc \<Longrightarrow> markup (show_field esc d k) = []"
  by (simp add: show_field_def escapes_def markup_def split: option.split)

lemma markup_shown: "escapes esc \<Longrightarrow> markup (esc v) = []"
  by (simp add: escapes_def)

lemmas shown = markup_shown markup_field

lemma concat_const: "(\<And>x. x \<in> set xs \<Longrightarrow> f x = k) \<Longrightarrow> concat (map f xs) = concat (replicate (length xs) k)"
  by (induction xs) auto

lemma signal_markup:
  "escapes esc \<Longrightarrow> escapes esc' \<Longrightarrow> markup (signal_badge esc s) = markup (signal_badge esc' s')"
  unfolding signal_badge_def by (simp only: markup_append shown markup_badge)

lemma peer_markup:
  "escapes esc \<Longrightarrow> escapes esc' \<Longrightarrow> markup (peer_row esc dash p) = markup (peer_row esc' dash' p')"
  unfolding peer_row_def Let_def by (cases "truthy (get_or (peer_fields p) ''endpoint'' JNull)";
    cases "truthy (get_or (peer_fields p') ''endpoint'' JNull)")
    (simp_all only: markup_append shown if_True if_False)

lemma same_markup:
  assumes "\<And>x y. markup (f x) = markup (g y)" "length xs = length ys"
  shows "markup (concat (map f xs)) = markup (concat (map g ys))"
  using assms(2)
proof (induction xs ys rule: list_induct2)
  case (Cons x xs y ys)
  then show ?case using assms(1) [of x y] by simp
qed simp

definition signal_count :: "jdict \<Rightarrow> nat" where
  "signal_count d = (case signal_items d of Inl _ \<Rightarrow> 0 | Inr signals \<Rightarrow> length signals)"

lemma row_markup:
  assumes "escapes esc" "escapes esc'" "device_row esc e = Inr r" "device_row esc' e' = Inr r'"
    and "signal_count (snd e) = signal_count (snd e')"
  shows "markup r = markup r'"
proof -
  from assms(3,4) obtain ss ss' where ss: "signal_items (snd e) = Inr ss" "signal_items (snd e') = Inr ss'"
    by (auto simp: device_row_def py_bind_eq_Inr Let_def)
  with assms(5) have len: "length ss = length ss'" by (simp add: signal_count_def)
  have signals: "markup (concat (map (signal_badge esc) ss)) = markup (concat (map (signal_badge esc') ss'))"
    by (rule same_markup [OF signal_markup [OF assms(1,2)] len])
  with assms(3,4) ss show ?thesis
    unfolding device_row_def Let_def ss py_bind_simps sum.inject
    by (elim subst) (simp only: markup_append shown [OF assms(1)] shown [OF assms(2)] markup_badge signals)
qed

lemma rows_markup:
  assumes "escapes esc" "escapes esc'"
  shows "py_mapM (device_row esc) ds = Inr rs \<Longrightarrow> py_mapM (device_row esc') ds' = Inr rs' \<Longrightarrow>
    map (\<lambda>e. signal_count (snd e)) ds = map (\<lambda>e. signal_count (snd e)) ds' \<Longrightarrow>
    markup (concat rs) = markup (concat rs')"
proof (induction ds arbitrary: ds' rs rs')
  case (Cons e ds)
  then obtain e' es' where ds': "ds' = e' # es'" by (cases ds') auto
  from Cons.prems(1,2) obtain r qs r' qs' where
    "device_row esc e = Inr r" "py_mapM (device_row esc) ds = Inr qs" "rs = r # qs"
    "device_row esc' e' = Inr r'" "py_mapM (device_row esc') es' = Inr qs'" "rs' = r' # qs'"
    unfolding ds' by (auto simp: py_bind_eq_Inr)
  with Cons.IH [of qs es' qs'] Cons.prems(3) row_markup [OF assms] ds'
  show ?case by simp
qed auto

text \<open>What of a page is structure: the number of signals of each device, and of peers.\<close>

definition page_shape :: "page \<Rightarrow> nat list \<times> nat" where
  "page_shape pg = (map (\<lambda>e. signal_count (snd e)) (pg_devices pg), length (pg_peers pg))"

lemma overview_markup:
  "escapes esc \<Longrightarrow> escapes esc' \<Longrightarrow> markup (overview esc pg) = markup (overview esc' pg')"
  unfolding overview_def Let_def by (simp only: markup_append shown)

lemma page_markup:
  assumes "escapes esc" "escapes esc'" "page_shape pg = page_shape pg'"
    and "render_admin esc dash pg = Inr t" "render_admin esc' dash' pg' = Inr t'"
  shows "markup t = markup t'"
proof -
  from assms(4,5) obtain rs rs' where rs: "py_mapM (device_row esc) (pg_devices pg) = Inr rs"
      "py_mapM (device_row esc') (pg_devices pg') = Inr rs'"
    by (auto simp: render_admin_def py_bind_eq_Inr)
  have shape: "map (\<lambda>e. signal_count (snd e)) (pg_devices pg) = map (\<lambda>e. signal_count (snd e)) (pg_devices pg')"
    "length (pg_peers pg) = length (pg_peers pg')"
    using assms(3) by (simp_all add: page_shape_def)
  then have none: "pg_devices pg = [] \<longleftrightarrow> pg_devices pg' = []" "pg_peers pg = [] \<longleftrightarrow> pg_peers pg' = []"
    by auto
  have peers: "markup (concat (map (peer_row esc dash) (pg_peers pg))) =
      markup (concat (map (peer_row esc' dash') (pg_peers pg')))"
    by (rule same_markup [OF _ shape(2)]) (rule peer_markup [OF assms(1,2)])
  note parts = rows_markup [OF assms(1,2) rs shape(1)] overview_markup [OF assms(1,2), of pg pg'] peers
  from assms(4,5) show ?thesis
    unfolding render_admin_def rs py_bind_simps sum.inject none
    by (elim subst) (simp only: markup_append parts)
qed

text \<open>The page is there unless the signals of some device are no dictionary.\<close>

lemma device_row_iff: "(\<exists>r. device_row esc e = Inr r) \<longleftrightarrow> \<not> isl (signal_items (snd e))"
  by (cases "signal_items (snd e)") (simp_all add: device_row_def Let_def)

lemma py_mapM_iff: "(\<exists>ys. py_mapM f xs = Inr ys) \<longleftrightarrow> (\<forall>x \<in> set xs. \<exists>y. f x = Inr y)"
  by (induction xs) (fastforce simp: py_bind_eq_Inr)+

lemma render_admin_iff:
  "(\<exists>t. render_admin esc dash pg = Inr t) \<longleftrightarrow> (\<forall>e \<in> set (pg_devices pg). \<not> isl (signal_items (snd e)))"
proof -
  have "(\<exists>t. render_admin esc dash pg = Inr t) \<longleftrightarrow> (\<exists>rs. py_mapM (device_row esc) (pg_devices pg) = Inr rs)"
    by (simp add: render_admin_def py_bind_eq_Inr)
  then show ?thesis by (simp only: py_mapM_iff device_row_iff)
qed

subsection \<open>Properties\<close>

text \<open>
  C34: what is stored cannot change the structure of the page. Two pages of the dashboard, for any two
  stores, clocks, tables of peers and machines, have the same characters that open or close tags and
  attributes, in the same order, whenever they show as many devices, with as many signals each, and as
  many peers. So no name, address, posture or signal that is stored adds an element to the page.
\<close>

theorem dashboard_markup_fixed:
  assumes "escapes esc"
    and "admin_dashboard P f clock G = Inr pg" "admin_dashboard P' f' clock' G' = Inr pg'"
    and "page_shape pg = page_shape pg'"
    and "admin_page esc dash P f clock G = Inr r" "admin_page esc dash P' f' clock' G' = Inr r'"
  shows "\<exists>t t'. resp_body r = JStr t \<and> resp_body r' = JStr t' \<and> markup t = markup t'"
proof -
  from assms(5,6) obtain t t' where "render_admin esc dash pg = Inr t" "r = json_response 200 (JStr t)"
    "render_admin esc dash pg' = Inr t'" "r' = json_response 200 (JStr t')"
    by (auto simp: admin_page_def assms(2,3) py_bind_eq_Inr)
  with page_markup [OF assms(1,1,4)] show ?thesis by (simp add: json_response_def)
qed

subsection \<open>Worked examples\<close>

text \<open>The escaping of \<open>markupsafe\<close>, and a store whose posture is text with a tag.\<close>

definition escape_char :: "char \<Rightarrow> string" where
  "escape_char c =
     (if c = CHR ''&'' then ''&amp;'' else if c = CHR ''<'' then ''&lt;'' else if c = CHR ''>'' then ''&gt;''
      else if c = CHR 0x22 then ''&#34;'' else if c = CHR 0x27 then ''&#39;'' else [c])"

definition escape_json :: "json \<Rightarrow> string" where
  "escape_json v = concat (map escape_char (py_str (\<lambda>_. []) v))"

lemma markup_escape_char: "markup (escape_char c) = []"
proof -
  have "markup ''&amp;'' = []" "markup ''&lt;'' = []" "markup ''&gt;'' = []" "markup ''&#34;'' = []" "markup ''&#39;'' = []"
    by code_simp+
  then show ?thesis by (simp add: escape_char_def) (simp add: markup_def markup_char_def)
qed

lemma escape_json_escapes: "escapes escape_json"
  by (simp add: escapes_def escape_json_def markup_concat comp_def markup_escape_char)

definition posture_store :: "string \<Rightarrow> json_file" where
  "posture_store x = Doc (JObj [(''10.8.0.2'', JObj [(''data'', JObj [(''posture'', JStr x)]), (''sig'', JStr [])])])"

lemma posture_page:
  "\<exists>pg. admin_dashboard sample_platform (posture_store x) 1000 sample_tool = Inr pg \<and>
    page_shape pg = ([0], 1) \<and> (\<exists>t. render_admin esc dash pg = Inr t)"
  by (simp add: admin_dashboard_def load_posture_for_dashboard_def posture_store_def dashboard_device_def
      get_wg_peers_list_def sample_peers page_shape_def signal_count_def signal_items_def annotate_def Let_def
      pd.lookup_store dict_of_def dict_set_def render_admin_iff)

lemma dashboard_markup_fixed_witness:
  "\<exists>t t'. admin_page escape_json ''-'' sample_platform (posture_store ''<script>'') 1000 sample_tool =
      Inr (json_response 200 (JStr t)) \<and>
    admin_page escape_json ''-'' sample_platform (posture_store ''healthy'') 1000 sample_tool =
      Inr (json_response 200 (JStr t')) \<and> markup t = markup t'"
proof -
  let ?page = "\<lambda>x. admin_dashboard sample_platform (posture_store x) 1000 sample_tool"
  obtain pg t where a: "?page ''<script>'' = Inr pg" "page_shape pg = ([0], 1)" "render_admin escape_json ''-'' pg = Inr t"
    using posture_page [of "''<script>''"] by blast
  obtain pg' t' where b: "?page ''healthy'' = Inr pg'" "page_shape pg' = ([0], 1)"
    "render_admin escape_json ''-'' pg' = Inr t'"
    using posture_page [of "''healthy''"] by blast
  have pages: "admin_page escape_json ''-'' sample_platform (posture_store ''<script>'') 1000 sample_tool =
      Inr (json_response 200 (JStr t))"
    "admin_page escape_json ''-'' sample_platform (posture_store ''healthy'') 1000 sample_tool =
      Inr (json_response 200 (JStr t'))"
    by (simp_all add: admin_page_def a b)
  have "page_shape pg = page_shape pg'" by (simp add: a b)
  from dashboard_markup_fixed [OF escape_json_escapes a(1) b(1) this pages] have "markup t = markup t'"
    by (simp add: json_response_def)
  with pages show ?thesis by blast
qed

end
