(* ===== verification/Bridge.thy ===== *)
theory Bridge
  imports PeerSession RiskScore AdminPage
begin

section \<open>The bridge as one service\<close>

text \<open>
  \<open>gateway/authz-bridge/app.py\<close>, the routes together: a request is dispatched by its path and method to
  a handler of \<open>Validate\<close>, \<open>WireGuard\<close>, \<open>RiskScore\<close> or \<open>Dashboard\<close>, and what comes back, an exception
  too, passes the \<open>after_request\<close> hook. The bridge keeps no state of its own; what its requests leave
  behind are the audit log and the commands given to \<open>wg\<close>. For other methods and paths Flask answers
  by itself, here without the \<open>Allow\<close> header.
\<close>

record surroundings =
  su_world :: world
  su_clock :: rat
  su_tool :: wg_tool

definition by_flask :: "request \<Rightarrow> string \<Rightarrow> outcome" where
  "by_flask req written = (Inr (json_response (if req_method req = ''OPTIONS'' then 200 else 405) JNull), written, [])"

definition reads :: "request \<Rightarrow> bool" where
  "reads req = (req_method req = ''GET'' \<or> req_method req = ''HEAD'')"

definition answer_only :: "response py \<Rightarrow> string \<Rightarrow> outcome" where
  "answer_only m written = (m, written, [])"

definition answer_logged :: "response py \<times> string \<Rightarrow> outcome" where
  "answer_logged o1 = (fst o1, snd o1, [])"

text \<open>The text between \<open>/api/peers/\<close> and the end, when it is one segment.\<close>

definition peer_segment :: "string \<Rightarrow> string option" where
  "peer_segment path =
     (let rest = drop 11 path in
      if startswith path ''/api/peers/'' \<and> rest \<noteq> [] \<and> CHR ''/'' \<notin> set rest then Some rest else None)"

text \<open>The routes that are registered, each with its path and its methods.\<close>

definition validate_route :: "request \<Rightarrow> bool" where
  "validate_route req = (req_path req = ''/validate'' \<and> reads req)"

definition list_peers_route :: "request \<Rightarrow> bool" where
  "list_peers_route req = (req_path req = ''/api/peers'' \<and> reads req)"

definition add_peer_route :: "request \<Rightarrow> bool" where
  "add_peer_route req = (req_path req = ''/api/peers'' \<and> req_method req = ''POST'')"

definition remove_peer_route :: "request \<Rightarrow> string option" where
  "remove_peer_route req = (if req_method req = ''DELETE'' then peer_segment (req_path req) else None)"

definition next_ip_route :: "request \<Rightarrow> bool" where
  "next_ip_route req = (req_path req = ''/api/peers/next-ip'' \<and> reads req)"

definition risk_score_route :: "request \<Rightarrow> bool" where
  "risk_score_route req = (req_path req = ''/api/risk-score'' \<and> reads req)"

definition admin_route :: "request \<Rightarrow> bool" where
  "admin_route req = (req_path req = ''/admin'' \<and> reads req)"

definition healthz_route :: "request \<Rightarrow> bool" where
  "healthz_route req = (req_path req = ''/healthz'' \<and> reads req)"

text \<open>A path that a route has, with whatever method.\<close>

definition known_path :: "string \<Rightarrow> bool" where
  "known_path path \<longleftrightarrow>
     path \<in> {''/validate'', ''/api/peers'', ''/api/risk-score'', ''/admin'', ''/healthz''} \<or> peer_segment path \<noteq> None"

definition bridge_route ::
    "platform \<Rightarrow> settings \<Rightarrow> (json \<Rightarrow> string) \<Rightarrow> string \<Rightarrow> surroundings \<Rightarrow> request \<Rightarrow> string \<Rightarrow> outcome" where
  "bridge_route P cfg esc dash S req written =
     (let W = su_world S; G = su_tool S in
      if validate_route req then answer_logged (validate P cfg W req written)
      else if list_peers_route req then answer_only (list_peers G) written
      else if add_peer_route req then add_peer P cfg W G req written
      else if next_ip_route req then answer_only (next_ip cfg (w_store W)) written
      else if risk_score_route req then answer_logged (risk_score P cfg W (su_clock S) req written)
      else if admin_route req then answer_only (admin_page esc dash P (w_store W) (w_now W) G) written
      else if healthz_route req then answer_only (Inr healthz) written
      else
        (case remove_peer_route req of
           Some pubkey \<Rightarrow> remove_peer P cfg W G req pubkey written
         | None \<Rightarrow>
             if known_path (req_path req) then by_flask req written
             else answer_only (Inr (json_response 404 JNull)) written))"

definition bridge_serve ::
    "platform \<Rightarrow> settings \<Rightarrow> (json \<Rightarrow> string) \<Rightarrow> string \<Rightarrow> surroundings \<Rightarrow> request \<Rightarrow> string \<Rightarrow> outcome" where
  "bridge_serve P cfg esc dash S req written =
     (let out = bridge_route P cfg esc dash S req written in
      (serve set_security_headers (fst out), snd out))"

text \<open>What the requests leave behind, and one request on it.\<close>

record bridge =
  br_log :: string
  br_cmds :: "wg_command list"

definition bridge_call ::
    "platform \<Rightarrow> settings \<Rightarrow> (json \<Rightarrow> string) \<Rightarrow> string \<Rightarrow> surroundings \<times> request \<Rightarrow> bridge \<Rightarrow> response py \<times> bridge" where
  "bridge_call P cfg esc dash c b =
     (let out = bridge_serve P cfg esc dash (fst c) (snd c) (br_log b) in
      (fst out, \<lparr>br_log = fst (snd out), br_cmds = br_cmds b @ snd (snd out)\<rparr>))"

subsection \<open>What a request leaves behind\<close>

fun sound_command :: "settings \<Rightarrow> wg_command \<Rightarrow> bool" where
  "sound_command cfg (SetPeer k a) = (wireguard_key k \<and> startswith a (wg_subnet cfg) \<and> endswith a ''/32'')"
| "sound_command cfg (RemovePeer k) = (k \<noteq> [])"

text \<open>At most one event in the log, and a command only for a permitted request.\<close>

definition grown :: "platform \<Rightarrow> string \<Rightarrow> string \<Rightarrow> bool" where
  "grown P l l' \<longleftrightarrow> (\<exists>ws. l' = fold (write_event P) ws l \<and> length ws \<le> 1)"

lemma grown_same [intro, simp]: "grown P l l"
  unfolding grown_def by (intro exI [of _ "[]"]) simp

lemma grown_event [intro, simp]: "grown P l (write_audit_log P lf e l)"
  unfolding grown_def by (intro exI [of _ "[(lf, e)]"]) (simp add: write_event_def)

definition issued :: "platform \<Rightarrow> settings \<Rightarrow> world \<Rightarrow> request \<Rightarrow> wg_command list \<Rightarrow> bool" where
  "issued P cfg W req cmds \<longleftrightarrow> cmds = [] \<or> permitted P cfg W req \<and> (\<exists>c. cmds = [c] \<and> sound_command cfg c)"

lemma issued_none [simp]: "issued P cfg W req []"
  by (simp add: issued_def)

lemma provision_grown: "grown P l (fst (snd (provision P W G p ip l)))"
  by (simp add: provision_def Let_def split: sum.split bool.split)

lemma add_peer_grown: "grown P l (fst (snd (add_peer P cfg W G req l)))"
  by (simp add: add_peer_def provision_grown split: sum.split target.split)

lemma remove_peer_grown: "grown P l (fst (snd (remove_peer P cfg W G req pubkey l)))"
  by (simp add: remove_peer_def split: sum.split option.split bool.split)

lemma add_peer_issued: "issued P cfg W req (snd (snd (add_peer P cfg W G req l)))"
proof (cases "snd (snd (add_peer P cfg W G req l)) = []")
  case False
  obtain m l' cmds where out: "add_peer P cfg W G req l = (m, l', cmds)" by (cases "add_peer P cfg W G req l")
  with False have "cmds \<noteq> []" by simp
  from add_peer_commands [OF out this] obtain identity p ip where
    who: "check_identity P (w_oauth W) (req_headers req) = Inr identity" "may_administer cfg req identity"
    and p: "key_format (np_key p)" "target_address cfg (w_store W) (np_fixed p) = Inr (Target ip)"
      "provision P W G p ip l = (m, l', cmds)" .
  have "startswith (ip @ ''/32'') (wg_subnet cfg)" "endswith (ip @ ''/32'') ''/32''"
    using target_in_subnet [OF p(2)] by (auto simp: startswith_def endswith_def prefix_def suffix_def)
  moreover have "cmds = [SetPeer (np_key p) (ip @ ''/32'')]"
    using provision_cases [OF p(3)] \<open>cmds \<noteq> []\<close> by auto
  ultimately show ?thesis
    using who p(1) by (simp add: issued_def permitted_alt out key_format_key)
qed simp

lemma remove_peer_issued: "issued P cfg W req (snd (snd (remove_peer P cfg W G req pubkey l)))"
proof (cases "snd (snd (remove_peer P cfg W G req pubkey l)) = []")
  case False
  obtain m l' cmds where out: "remove_peer P cfg W G req pubkey l = (m, l', cmds)"
    by (cases "remove_peer P cfg W G req pubkey l")
  with False have "cmds \<noteq> []" by simp
  from remove_peer_commands [OF out this] obtain identity key where
    "check_identity P (w_oauth W) (req_headers req) = Inr identity" "may_administer cfg req identity"
    "key \<noteq> []" "cmds = [RemovePeer key]" by metis
  then show ?thesis by (simp add: issued_def permitted_alt out)
qed simp

lemma validate_grown: "grown P l (snd (validate P cfg W req l))"
  unfolding validate_def Let_def by (simp split: sum.split prod.split)

lemma risk_score_grown: "grown P l (snd (risk_score P cfg W clock req l))"
  unfolding risk_score_def by (simp split: sum.split)

lemmas handler_facts =
  validate_grown risk_score_grown add_peer_grown remove_peer_grown add_peer_issued remove_peer_issued

lemma bridge_route_effects:
  "grown P l (fst (snd (bridge_route P cfg esc dash S req l))) \<and>
   issued P cfg (su_world S) req (snd (snd (bridge_route P cfg esc dash S req l)))"
  unfolding bridge_route_def Let_def
  by (simp add: handler_facts by_flask_def answer_only_def answer_logged_def split: option.split)

lemma secured_headers:
  assumes "serve set_security_headers m = Inr r"
  shows "resp_header r ''X-Frame-Options'' = Some ''DENY'' \<and>
    resp_header r ''X-Content-Type-Options'' = Some ''nosniff'' \<and>
    resp_header r ''X-XSS-Protection'' = Some ''1; mode=block'' \<and>
    resp_header r ''Content-Security-Policy'' = Some content_security_policy"
proof -
  have lowered: "lower ''X-Frame-Options'' = ''x-frame-options''" "lower ''X-XSS-Protection'' = ''x-xss-protection''"
    "lower ''X-Content-Type-Options'' = ''x-content-type-options''"
    "lower ''Content-Security-Policy'' = ''content-security-policy''"
    by code_simp+
  obtain r' where "r = set_security_headers r'"
    using assms by (auto simp: serve_def split: sum.splits pyerr.splits)
  then show ?thesis by (simp add: set_security_headers_def lowered)
qed

text \<open>The requests that may reach \<open>wg\<close>.\<close>

definition changes_peers :: "request \<Rightarrow> bool" where
  "changes_peers req =
     (req_method req = ''POST'' \<and> req_path req = ''/api/peers'' \<or>
      req_method req = ''DELETE'' \<and> peer_segment (req_path req) \<noteq> None)"

lemma bridge_route_reads:
  "\<not> changes_peers req \<Longrightarrow> snd (snd (bridge_route P cfg esc dash S req l)) = []"
  unfolding bridge_route_def Let_def
  by (auto simp: by_flask_def answer_only_def answer_logged_def changes_peers_def add_peer_route_def
      remove_peer_route_def split: option.split)

text \<open>The four headers that every response must carry.\<close>

definition secured :: "response py \<Rightarrow> bool" where
  "secured m =
     (case m of
        Inl e \<Rightarrow> e = Unmodelled
      | Inr r \<Rightarrow> resp_header r ''X-Frame-Options'' = Some ''DENY'' \<and>
          resp_header r ''X-Content-Type-Options'' = Some ''nosniff'' \<and>
          resp_header r ''X-XSS-Protection'' = Some ''1; mode=block'' \<and>
          resp_header r ''Content-Security-Policy'' = Some
            (''default-src '' @ single_quoted ''self'' @
             ''; style-src '' @ single_quoted ''self'' @ '' '' @ single_quoted ''unsafe-inline'' @
             ''; script-src '' @ single_quoted ''self'' @ '' '' @ single_quoted ''unsafe-inline''))"

lemma serve_secured: "secured (serve set_security_headers m)"
proof (cases "serve set_security_headers m")
  case (Inl e)
  then have "e = Unmodelled" by (auto simp: serve_def split: sum.splits pyerr.splits)
  with Inl show ?thesis by (simp add: secured_def)
next
  case (Inr r)
  with secured_headers [OF Inr] show ?thesis by (simp add: secured_def content_security_policy_def del: append.simps)
qed

text \<open>A caller with the right to administer peers, asking for a change of them.\<close>

definition entitled :: "platform \<Rightarrow> settings \<Rightarrow> surroundings \<times> request \<Rightarrow> bool" where
  "entitled P cfg c = (changes_peers (snd c) \<and> permitted P cfg (su_world (fst c)) (snd c))"

lemma bridge_call_effects:
  assumes "bridge_call P cfg esc dash c b = (m, b')"
  obtains cmds where "secured m" "grown P (br_log b) (br_log b')" "br_cmds b' = br_cmds b @ cmds"
    "list_all (sound_command cfg) cmds" "length cmds \<le> (if entitled P cfg c then 1 else 0)"
proof
  let ?out = "bridge_route P cfg esc dash (fst c) (snd c) (br_log b)"
  have out: "m = serve set_security_headers (fst ?out)" "br_log b' = fst (snd ?out)"
    "br_cmds b' = br_cmds b @ snd (snd ?out)"
    using assms by (auto simp: bridge_call_def bridge_serve_def Let_def)
  show "secured m" unfolding out(1) by (rule serve_secured)
  have effects: "grown P (br_log b) (fst (snd ?out))" "issued P cfg (su_world (fst c)) (snd c) (snd (snd ?out))"
    using bridge_route_effects by blast+
  then show "grown P (br_log b) (br_log b')" "br_cmds b' = br_cmds b @ snd (snd ?out)"
    by (simp_all add: out)
  show "list_all (sound_command cfg) (snd (snd ?out))"
    using effects(2) by (auto simp: issued_def)
  show "length (snd (snd ?out)) \<le> (if entitled P cfg c then 1 else 0)"
    using effects(2) bridge_route_reads [of "snd c"] by (auto simp: issued_def entitled_def)
qed

subsection \<open>Properties\<close>

text \<open>
  C23: the bridge is accountable. Whatever requests arrive, to any path, with any method, in any order and
  in any surroundings, the audit log only grows, by at most one event for each request; the commands
  issued to \<open>wg\<close> are at most as many as the requests for a change of the peers whose sender has the admin
  token or a session with oauth2-proxy and the group \<open>admins\<close>, each with a well-formed key and an address
  that starts with the configured prefix, or a removal; and every response, errors included, carries the
  four security headers, unless the model ends in text it does not cover.
\<close>

theorem bridge_accountable:
  assumes "run_calls (bridge_call P cfg esc dash) calls b = (ms, b')"
  shows "(\<exists>ws. br_log b' = fold (write_event P) ws (br_log b) \<and> length ws \<le> length calls) \<and>
    (\<exists>cmds. br_cmds b' = br_cmds b @ cmds \<and> list_all (sound_command cfg) cmds \<and>
       length cmds \<le> length (filter (entitled P cfg) calls)) \<and>
    list_all secured ms"
  using assms
proof (induction calls arbitrary: b ms)
  case Nil
  then show ?case by auto
next
  case (Cons c calls)
  obtain m b1 where call: "bridge_call P cfg esc dash c b = (m, b1)"
    by (cases "bridge_call P cfg esc dash c b")
  obtain ms1 where rest: "run_calls (bridge_call P cfg esc dash) calls b1 = (ms1, b')" "ms = m # ms1"
    using Cons.prems call by (auto split: prod.splits)
  from bridge_call_effects [OF call] obtain cmds where one: "secured m" "grown P (br_log b) (br_log b1)"
    "br_cmds b1 = br_cmds b @ cmds" "list_all (sound_command cfg) cmds"
    "length cmds \<le> (if entitled P cfg c then 1 else 0)" .
  from one(2) obtain ws where ws: "br_log b1 = fold (write_event P) ws (br_log b)" "length ws \<le> 1"
    by (auto simp: grown_def)
  from Cons.IH [OF rest(1)] obtain ws' cmds' where more:
    "br_log b' = fold (write_event P) ws' (br_log b1)" "length ws' \<le> length calls"
    "br_cmds b' = br_cmds b1 @ cmds'" "list_all (sound_command cfg) cmds'"
    "length cmds' \<le> length (filter (entitled P cfg) calls)" "list_all secured ms1"
    by blast
  show ?case
  proof (intro conjI)
    show "\<exists>ws. br_log b' = fold (write_event P) ws (br_log b) \<and> length ws \<le> length (c # calls)"
      using ws more(1,2) by (intro exI [of _ "ws @ ws'"]) simp
    show "\<exists>cmds. br_cmds b' = br_cmds b @ cmds \<and> list_all (sound_command cfg) cmds \<and>
        length cmds \<le> length (filter (entitled P cfg) (c # calls))"
      using one(3-5) more(3-5) by (intro exI [of _ "cmds @ cmds'"]) (auto split: if_splits)
    show "list_all secured ms" using one(1) more(6) rest(2) by simp
  qed
qed

text \<open>The event that a command leaves in the log once \<open>wg\<close> has carried it out.\<close>

fun change_event :: "wg_command \<Rightarrow> string \<times> string" where
  "change_event (SetPeer k a) = (''peer_provisioned'', take 16 k @ ''...'')"
| "change_event (RemovePeer k) = (''peer_removed'', take 16 k @ ''...'')"

definition names_change :: "jdict \<Rightarrow> wg_command \<Rightarrow> bool" where
  "names_change e c =
     (get_or e ''event'' JNull = JStr (fst (change_event c)) \<and>
      get_or e ''public_key'' JNull = JStr (snd (change_event c)))"

lemma add_peer_recorded:
  assumes "add_peer P cfg W G req l = (m, l', [c])" "run_checked (wg_exec G c) = Inr True"
  shows "(\<exists>k a. c = SetPeer k a) \<and> answers m 201 \<and> (\<exists>e. l' = write_audit_log P (w_log W) e l \<and> names_change e c)"
proof -
  from assms(1) obtain p ip where run: "provision P W G p ip l = (m, l', [c])"
    by (rule add_peer_commands) simp_all
  with provision_cases [OF this] obtain peers where c: "c = SetPeer (np_key p) (ip @ ''/32'')"
    and "get_wg_peers (wg_show G) = Inr peers" "dict_get peers (np_key p) = None"
    by auto
  with run assms(2) have "m = Inr (provisioned_response p ip)"
    "l' = write_audit_log P (w_log W) (provisioned_event p ip) l"
    by (simp_all add: provision_def add_wg_peer_def)
  moreover have "names_change (provisioned_event p ip) c"
    by (simp add: names_change_def provisioned_event_def short_key_def c)
  ultimately show ?thesis using c by (auto simp: provisioned_response_def)
qed

lemma remove_peer_recorded:
  assumes "remove_peer P cfg W G req pubkey l = (m, l', [c])" "run_checked (wg_exec G c) = Inr True"
  shows "(\<exists>k. c = RemovePeer k) \<and> answers m 200 \<and> (\<exists>e. l' = write_audit_log P (w_log W) e l \<and> names_change e c)"
proof -
  from assms(1) obtain identity peers key where found: "check_identity P (w_oauth W) (req_headers req) = Inr identity"
    "may_administer cfg req identity" "get_wg_peers (wg_show G) = Inr peers"
    "List.find (\<lambda>key. key = pubkey \<or> startswith key pubkey) (map fst peers) = Some key" "key \<noteq> []"
    and c: "[c] = [RemovePeer key]"
    by (rule remove_peer_commands) simp_all
  let ?e = "[(''event'', JStr ''peer_removed''), (''public_key'', JStr (short_key key))]"
  from found c assms have "l' = write_audit_log P (w_log W) ?e l" "answers m 200"
    by (simp_all add: remove_peer_def) (auto simp: answers_def json_response_def)
  moreover have "names_change ?e c" using c by (simp add: names_change_def short_key_def)
  ultimately show ?thesis using c by blast
qed

lemma bridge_route_command:
  assumes "bridge_route P cfg esc dash S req l = (m, l', [c])"
  obtains (added) "add_peer P cfg (su_world S) (su_tool S) req l = (m, l', [c])"
  | (removed) pubkey where "remove_peer P cfg (su_world S) (su_tool S) req pubkey l = (m, l', [c])"
  using assms unfolding bridge_route_def Let_def
  by (auto simp: by_flask_def answer_only_def answer_logged_def split: if_splits option.splits)

text \<open>
  C24: what a change leaves on record. When a request to any route issues a command that \<open>wg\<close> carries out,
  the client is told so with status 200 or 201; there is an event that names the kind of the change and
  the first sixteen characters of the key, and the audit log grows by exactly the line of this event, with
  the time, when
  it can be written, and stays as it was when it cannot: then the change is answered and made all the same.
\<close>

theorem change_on_record:
  assumes "bridge_route P cfg esc dash S req l = (m, l', [c])" "run_checked (wg_exec (su_tool S) c) = Inr True"
  shows "(case c of SetPeer _ _ \<Rightarrow> answers m 201 | RemovePeer _ \<Rightarrow> answers m 200) \<and>
    (\<exists>e. names_change e c \<and>
      l' = (if lf_writable (w_log (su_world S))
            then l @ dumps_default (float_repr P)
              (JObj (dict_set e ''timestamp'' (JStr (lf_stamp (w_log (su_world S)))))) @ [newline]
            else l))"
  using assms(1)
proof (cases rule: bridge_route_command)
  case added
  from add_peer_recorded [OF this assms(2)] show ?thesis by (auto simp: write_audit_log_def stamped_def)
next
  case (removed pubkey)
  from remove_peer_recorded [OF this assms(2)] show ?thesis by (auto simp: write_audit_log_def stamped_def)
qed

subsection \<open>A worked example\<close>

text \<open>Someone without a session tries to remove the peer, and then asks for a page that does not exist.\<close>

definition stranger :: surroundings where
  "stranger = \<lparr>su_world = sample_world\<lparr>w_oauth := (\<lambda>_. RequestFailed)\<rparr>, su_clock = 1060, su_tool = sample_tool\<rparr>"

definition stranger_calls :: "(surroundings \<times> request) list" where
  "stranger_calls =
     [(stranger, (sample_request ''/'')\<lparr>req_method := ''DELETE'', req_path := ''/api/peers/A''\<rparr>),
      (stranger, (sample_request ''/'')\<lparr>req_path := ''/nothing''\<rparr>)]"

lemma bridge_accountable_witness:
  "\<exists>ms b'. run_calls (bridge_call sample_platform sample_settings escape_json ''-'') stranger_calls
      \<lparr>br_log = [], br_cmds = []\<rparr> = (ms, b') \<and> br_cmds b' = [] \<and> list_all secured ms"
proof -
  let ?run = "run_calls (bridge_call sample_platform sample_settings escape_json ''-'') stranger_calls \<lparr>br_log = [], br_cmds = []\<rparr>"
  obtain ms b' where run: "?run = (ms, b')" by (cases ?run)
  have anonymous: "check_identity sample_platform (w_oauth (su_world stranger)) hs = Inr not_authenticated" for hs
    by (simp add: check_identity_def stranger_def)
  have "lower ''X-Original-URI'' \<noteq> lower ''Authorization''" by code_simp
  then have "\<not> has_admin_token sample_settings (sample_request u\<lparr>req_method := m, req_path := p\<rparr>)"
    "\<not> has_admin_token sample_settings (sample_request u\<lparr>req_path := p\<rparr>)" for u m p
    by (simp_all add: has_admin_token_def header_or_def sample_request_def sample_settings_def endswith_def suffix_def)
  then have "\<forall>c \<in> set stranger_calls. \<not> entitled sample_platform sample_settings c"
    by (simp add: stranger_calls_def entitled_def permitted_alt anonymous may_administer_def not_authenticated_def)
  then have none: "filter (entitled sample_platform sample_settings) stranger_calls = []"
    by (simp add: filter_empty_conv)
  from bridge_accountable [OF run] run show ?thesis unfolding none by auto
qed

text \<open>An administrator adds a peer.\<close>

definition office :: surroundings where
  "office = \<lparr>su_world = empty_world, su_clock = 1060, su_tool = sample_tool\<rparr>"

definition posted :: request where
  "posted = (peer_request (CHR ''B''))\<lparr>req_method := ''POST'', req_path := ''/api/peers''\<rparr>"

lemma posted_route:
  "bridge_route P cfg esc dash S posted l = add_peer P cfg (su_world S) (su_tool S) (peer_request (CHR ''B'')) l"
proof -
  have same: "req_headers posted = req_headers (peer_request (CHR ''B''))" "req_remote posted = req_remote (peer_request (CHR ''B''))"
    "req_json posted = req_json (peer_request (CHR ''B''))"
    by (simp_all add: posted_def)
  have parts: "may_administer cfg posted i = may_administer cfg (peer_request (CHR ''B'')) i"
    "read_peer posted = read_peer (peer_request (CHR ''B''))"
    "denied_event posted i = denied_event (peer_request (CHR ''B'')) i" for i
    by (simp_all add: may_administer_def has_admin_token_def read_peer_def json_body_def denied_event_def same)
  have "add_peer P cfg W G posted l = add_peer P cfg W G (peer_request (CHR ''B'')) l" for W G
    unfolding add_peer_def same(1) parts ..
  moreover have "bridge_route P cfg esc dash S posted l = add_peer P cfg (su_world S) (su_tool S) posted l"
    by (simp add: bridge_route_def posted_def reads_def validate_route_def list_peers_route_def add_peer_route_def)
  ultimately show ?thesis by simp
qed

lemma change_on_record_witness:
  "\<exists>m l' c. bridge_route sample_platform sample_settings escape_json ''-'' office posted [] = (m, l', [c]) \<and>
    answers m 201"
proof -
  obtain m l' where run: "bridge_route sample_platform sample_settings escape_json ''-'' office posted [] =
      (m, l', [SetPeer (sample_key (CHR ''B'')) (candidate sample_settings 10 @ ''/32'')])"
    using peer_added [OF disjI1 [OF refl]] unfolding posted_route by (auto simp: office_def)
  have "run_checked (wg_exec (su_tool office) (SetPeer (sample_key (CHR ''B'')) (candidate sample_settings 10 @ ''/32''))) = Inr True"
    by (simp add: office_def sample_tool_def)
  from change_on_record [OF run this] have "answers m 201" by simp
  with run show ?thesis by blast
qed

end
