(* ===== verification/SshAudit.thy ===== *)
theory SshAudit
  imports Http
begin

section \<open>The SSH key audit\<close>

text \<open>
  \<open>scripts/ssh_audit.py\<close>: the inventory of host key fingerprints and authorized keys, and the
  comparison with the inventory of the previous run. What the system calls answer is a record; an
  exception that no handler names leaves the run without writing. The file is the document that
  \<open>json.dump\<close> writes into it, and the printed copy is left out.
\<close>

subsection \<open>Python's \<open>split\<close>, paths and equality\<close>

text \<open>\<open>s.split()\<close>: the maximal runs of characters that are not white space.\<close>

function words :: "string \<Rightarrow> string list" where
  "words s =
     (let t = dropWhile is_space s in
      if t = [] then []
      else takeWhile (\<lambda>c. \<not> is_space c) t # words (dropWhile (\<lambda>c. \<not> is_space c) t))"
  by auto

lemma dropWhile_shorter: "t \<noteq> [] \<Longrightarrow> P (hd t) \<Longrightarrow> length (dropWhile P t) < length t"
  by (cases t) (simp_all add: length_dropWhile_le le_imp_less_Suc)

lemma words_decrease:
  "dropWhile is_space s \<noteq> [] \<Longrightarrow>
    length (dropWhile (\<lambda>c. \<not> is_space c) (dropWhile is_space s)) < length s"
  using dropWhile_shorter [of "dropWhile is_space s" "\<lambda>c. \<not> is_space c"] hd_dropWhile [of is_space s]
    length_dropWhile_le [of is_space s] by simp

termination words
  by (relation "measure length") (simp_all add: words_decrease)

declare words.simps [simp del]

text \<open>\<open>posixpath.join\<close>.\<close>

definition path_join :: "string \<Rightarrow> string \<Rightarrow> string" where
  "path_join a b =
     (if startswith b ''/'' then b else if a = [] \<or> endswith a ''/'' then a @ b else a @ ''/'' @ b)"

text \<open>\<open>==\<close> on JSON values; numbers compare across their types.\<close>

function (sequential) json_eq :: "json \<Rightarrow> json \<Rightarrow> bool" where
  "json_eq (JStr s) (JStr t) = (s = t)"
| "json_eq JNull JNull = True"
| "json_eq (JArr xs) (JArr ys) = (length xs = length ys \<and> list_all (\<lambda>(x, y). json_eq x y) (zip xs ys))"
| "json_eq (JObj d) (JObj e) =
     (length d = length e \<and>
      list_all (\<lambda>(k, v). case dict_get e k of None \<Rightarrow> False | Some w \<Rightarrow> json_eq v w) d)"
| "json_eq a b =
     (case (num_of a, num_of b) of (Inr x, Inr y) \<Rightarrow> x = y \<and> x \<noteq> NaN | _ \<Rightarrow> False)"
  by pat_completeness auto

termination json_eq
proof (relation "measure (\<lambda>(a, b). size a)", goal_cases)
  case (2 xs ys z x y)
  then have "x \<in> set xs" by (auto dest: set_zip_leftD)
  then have "size x \<le> size_list size xs" by (rule size_list_estimation') simp
  with 2(2) [symmetric] show ?case by simp
next
  case (3 d e z k v w)
  then have "(k, v) \<in> set d" by simp
  then have "size v \<le> size_list (size_prod (\<lambda>x. 0) size) d" by (rule size_list_estimation') simp
  with 3(2) [symmetric] show ?case by simp
qed simp

subsection \<open>The inventory\<close>

text \<open>
  \<open>ssh-keygen -lf\<close>: its output; one of the exceptions that the handler names, with its text; or
  another exception, such as a timeout.
\<close>

datatype keygen = Printed string | Failed string | Raised pyerr

text \<open>An \<open>authorized_keys\<close> file: its text, or the exception of reading it.\<close>

type_synonym key_file = "string py"

record audit_env =
  ae_clock :: rat
  ae_node :: string
  ae_listdir :: "string list py"
  ae_keygen :: "string \<Rightarrow> keygen"
  ae_users :: "(string \<times> string) list"
  ae_isdir :: "string \<Rightarrow> bool"
  ae_file :: "string \<Rightarrow> key_file option"
  ae_write :: "unit py"

definition is_host_key :: "string \<Rightarrow> bool" where
  "is_host_key f = (startswith f ''ssh_host_'' \<and> endswith f ''.pub'')"

definition host_key_entry :: "string \<Rightarrow> string \<Rightarrow> json" where
  "host_key_entry f out =
     (let parts = words (strip out) in
      JObj [(''file'', JStr f),
            (''fingerprint'', JStr (if 1 < length parts then parts ! 1 else strip out)),
            (''comment'', JStr (if 2 < length parts then parts ! 2 else []))])"

definition host_key_result :: "audit_env \<Rightarrow> string \<Rightarrow> json py" where
  "host_key_result E f =
     (case ae_keygen E (path_join ''/etc/ssh'' f) of
        Printed out \<Rightarrow> Inr (host_key_entry f out)
      | Failed e \<Rightarrow> Inr (JObj [(''file'', JStr f), (''error'', JStr e)])
      | Raised e \<Rightarrow> Inl e)"

definition get_host_key_fingerprints :: "audit_env \<Rightarrow> json list py" where
  "get_host_key_fingerprints E =
     py_bind (ae_listdir E) (\<lambda>files. py_mapM (host_key_result E) (filter is_host_key files))"

definition key_lines :: "string \<Rightarrow> string list" where
  "key_lines content =
     map strip (filter (\<lambda>line. strip line \<noteq> [] \<and> \<not> startswith line ''#'') (split_on (CHR 0x0A) content))"

definition ak_path :: "string \<Rightarrow> string" where
  "ak_path dir = path_join (path_join dir ''.ssh'') ''authorized_keys''"

definition user_keys :: "audit_env \<Rightarrow> string \<Rightarrow> string list py" where
  "user_keys E dir =
     (if dir = [] \<or> \<not> ae_isdir E dir then Inr []
      else case ae_file E (ak_path dir) of
        None \<Rightarrow> Inr []
      | Some content \<Rightarrow>
          py_catch [OSError, FileNotFoundError] (py_bind content (\<lambda>c. Inr (key_lines c))) (Inr []))"

fun collect_keys :: "audit_env \<Rightarrow> (string, string list) dict \<Rightarrow> (string \<times> string) list \<Rightarrow>
    (string, string list) dict py" where
  "collect_keys E result [] = Inr result"
| "collect_keys E result (u # us) =
     py_bind (user_keys E (snd u)) (\<lambda>keys.
       collect_keys E (if keys = [] then result else dict_set result (fst u) keys) us)"

definition get_authorized_keys :: "audit_env \<Rightarrow> (string, string list) dict py" where
  "get_authorized_keys E = collect_keys E [] (ae_users E)"

subsection \<open>A run\<close>

definition keys_json :: "(string, string list) dict \<Rightarrow> json" where
  "keys_json ks = JObj (map (\<lambda>(u, keys). (u, JArr (map JStr keys))) ks)"

definition inventory :: "audit_env \<Rightarrow> json list \<Rightarrow> (string, string list) dict \<Rightarrow> jdict" where
  "inventory E host_keys keys =
     [(''timestamp'', JInt (trunc_rat (ae_clock E))), (''hostname'', JStr (ae_node E)),
      (''host_keys'', JArr host_keys), (''authorized_keys'', keys_json keys)]"

text \<open>\<open>prev.get(k) != audit[k]\<close>.\<close>

definition differs :: "jdict \<Rightarrow> jdict \<Rightarrow> string \<Rightarrow> bool" where
  "differs prev audit k = (\<not> json_eq (get_or prev k JNull) (get_or audit k JNull))"

definition compared :: "json \<Rightarrow> jdict \<Rightarrow> jdict py" where
  "compared prev audit =
     (if \<not> truthy prev then Inr audit
      else py_bind (as_dict prev) (\<lambda>d.
        Inr (dict_set audit ''changed'' (JBool (differs d audit ''host_keys'' \<or> differs d audit ''authorized_keys'')))))"

definition ssh_audit :: "audit_env \<Rightarrow> json_file \<Rightarrow> json_file py" where
  "ssh_audit E file =
     py_bind (get_host_key_fingerprints E) (\<lambda>host_keys.
     py_bind (get_authorized_keys E) (\<lambda>keys.
     py_bind (py_catch [FileNotFoundError, JSONDecodeError] (read_json file) (Inr (JObj []))) (\<lambda>prev.
     py_bind (compared prev (inventory E host_keys keys)) (\<lambda>audit.
     py_bind (ae_write E) (\<lambda>_. Inr (Doc (JObj audit)))))))"

subsection \<open>Equality of inventories\<close>

declare json_eq.simps(3) [simp del]

lemma json_eq_arrays:
  "json_eq (JArr xs) (JArr ys) \<longleftrightarrow> length xs = length ys \<and> list_all (\<lambda>(x, y). json_eq x y) (zip xs ys)"
  by (rule json_eq.simps(3))

lemma json_eq_texts [simp]: "json_eq (JArr (map JStr a)) (JArr (map JStr b)) \<longleftrightarrow> a = b"
proof -
  have "length a = length b \<Longrightarrow> list_all (\<lambda>(x, y). json_eq x y) (zip (map JStr a) (map JStr b)) \<longleftrightarrow> a = b"
    by (induction a b rule: list_induct2) auto
  then show ?thesis by (auto simp: json_eq_arrays)
qed

lemma card_dom_dict: "is_dict d \<Longrightarrow> card (dom (map_of d)) = length d"
  by (metis distinct_card dom_map_of_conv_image_fst image_set is_dict_def length_map)

lemma map_of_length: "is_dict d \<Longrightarrow> is_dict e \<Longrightarrow> map_of d = map_of e \<Longrightarrow> length d = length e"
  by (metis card_dom_dict)

lemma same_size_map_le:
  assumes "is_dict d" "is_dict e" "length d = length e" "map_of d \<subseteq>\<^sub>m map_of e"
  shows "map_of d = map_of e"
proof -
  have "dom (map_of d) \<subseteq> dom (map_of e)" using assms(4) by (rule map_le_implies_dom_le)
  then have dom: "dom (map_of d) = dom (map_of e)"
    using assms(1-3) by (simp add: card_dom_dict card_subset_eq finite_dom_map_of)
  show ?thesis
  proof
    fix k
    show "map_of d k = map_of e k"
      using assms(4) dom by (cases "k \<in> dom (map_of d)") (auto simp: map_le_def)
  qed
qed

lemma map_le_items:
  "is_dict d \<Longrightarrow> (\<forall>(k, v) \<in> set d. m k = Some v) \<longleftrightarrow> map_of d \<subseteq>\<^sub>m m"
  by (auto simp: is_dict_def map_le_def dom_map_of_conv_image_fst)

lemma json_eq_keys:
  assumes "is_dict d" "is_dict e"
  shows "json_eq (keys_json d) (keys_json e) \<longleftrightarrow> map_of d = map_of e"
proof -
  let ?e = "map (\<lambda>(u, keys). (u, JArr (map JStr keys))) e"
  have item: "(case dict_get ?e u of None \<Rightarrow> False | Some w \<Rightarrow> json_eq (JArr (map JStr keys)) w)
      \<longleftrightarrow> map_of e u = Some keys" for u keys
    by (cases "map_of e u") (auto simp: dict_get_def map_of_map)
  have "json_eq (keys_json d) (keys_json e) \<longleftrightarrow>
      length d = length e \<and> (\<forall>(u, keys) \<in> set d. map_of e u = Some keys)"
    by (simp add: keys_json_def list.pred_map o_def case_prod_beta item list_all_iff cong: option.case_cong)
  also have "\<dots> \<longleftrightarrow> length d = length e \<and> map_of d \<subseteq>\<^sub>m map_of e"
    by (simp add: map_le_items [OF assms(1)])
  also have "\<dots> \<longleftrightarrow> map_of d = map_of e"
    using same_size_map_le [OF assms] map_of_length [OF assms] by auto
  finally show ?thesis .
qed

lemma dict_collect_keys: "collect_keys E d us = Inr e \<Longrightarrow> is_dict d \<Longrightarrow> is_dict e"
  by (induction us arbitrary: d) (auto simp: py_bind_eq_Inr pd.valid_store split: if_splits)

lemma dict_authorized_keys: "get_authorized_keys E = Inr ks \<Longrightarrow> is_dict ks"
  using dict_collect_keys [of E "[]"] by (simp add: get_authorized_keys_def is_dict_def)

text \<open>The two shapes of a host key's entry.\<close>

definition host_entry :: "json \<Rightarrow> bool" where
  "host_entry j = ((\<exists>f p c. j = JObj [(''file'', JStr f), (''fingerprint'', JStr p), (''comment'', JStr c)]) \<or>
    (\<exists>f e. j = JObj [(''file'', JStr f), (''error'', JStr e)]))"

lemma host_entry_result: "host_key_result E f = Inr j \<Longrightarrow> host_entry j"
  by (auto simp: host_key_result_def host_key_entry_def host_entry_def Let_def split: keygen.splits)

lemma json_eq_host_entry: "host_entry i \<Longrightarrow> host_entry j \<Longrightarrow> json_eq i j \<longleftrightarrow> i = j"
  unfolding host_entry_def by (elim disjE exE) simp_all

lemma host_entries:
  assumes "get_host_key_fingerprints E = Inr hk"
  shows "list_all host_entry hk"
proof -
  have "py_mapM (host_key_result E) fs = Inr ys \<Longrightarrow> list_all host_entry ys" for fs ys
    by (induction fs arbitrary: ys) (auto simp: py_bind_eq_Inr host_entry_result)
  with assms show ?thesis
    by (auto simp: get_host_key_fingerprints_def py_bind_eq_Inr)
qed

lemma json_eq_host_entries:
  "list_all host_entry xs \<Longrightarrow> list_all host_entry ys \<Longrightarrow> json_eq (JArr xs) (JArr ys) \<longleftrightarrow> xs = ys"
proof -
  have "length xs = length ys \<Longrightarrow> list_all host_entry xs \<Longrightarrow> list_all host_entry ys \<Longrightarrow>
      list_all (\<lambda>(x, y). json_eq x y) (zip xs ys) \<longleftrightarrow> xs = ys"
    by (induction xs ys rule: list_induct2) (auto simp: json_eq_host_entry)
  then show "list_all host_entry xs \<Longrightarrow> list_all host_entry ys \<Longrightarrow> ?thesis" by (auto simp: json_eq_arrays)
qed

subsection \<open>The file\<close>

text \<open>What a run dumps with \<open>indent=2\<close> is a well-formed document that the next run reads back.\<close>

lemma wf_host_entry: "host_entry j \<Longrightarrow> wf_json j \<and> no_float j"
  by (auto simp: host_entry_def is_dict_def)

lemma wf_keys_json: "is_dict ks \<Longrightarrow> wf_json (keys_json ks) \<and> no_float (keys_json ks)"
  by (auto simp: keys_json_def is_dict_def o_def case_prod_beta)

lemma inventory_text:
  assumes "ssh_audit E file = Inr (Doc j)"
  shows "loads (dumps_indent fr 0 j) = Inr j"
proof -
  from assms obtain hk ks prev audit where run: "get_host_key_fingerprints E = Inr hk" "get_authorized_keys E = Inr ks"
    "compared prev (inventory E hk ks) = Inr audit" "j = JObj audit"
    by (auto simp: ssh_audit_def py_bind_eq_Inr)
  have "list_all (\<lambda>x. wf_json x \<and> no_float x) hk"
    using host_entries [OF run(1)] by (auto simp: list_all_iff dest: wf_host_entry)
  with wf_keys_json [OF dict_authorized_keys [OF run(2)]]
  have "wf_json (JObj (inventory E hk ks)) \<and> no_float (JObj (inventory E hk ks))"
    by (simp add: inventory_def is_dict_def list_all_iff)
  moreover from this have "wf_json (JObj (dict_set (inventory E hk ks) ''changed'' (JBool b))) \<and>
      no_float (JObj (dict_set (inventory E hk ks) ''changed'' (JBool b)))" for b
    by (rule wf_dict_set) simp
  ultimately have "wf_json j \<and> no_float j"
    using run(3,4) by (auto simp: compared_def py_bind_eq_Inr simp del: wf_json.simps no_float.simps split: if_splits)
  then show ?thesis by (simp add: loads_dumps_indent)
qed

subsection \<open>Properties\<close>

text \<open>A key file that cannot be read hides a user's keys; a tool that hangs ends the run.\<close>

lemma uncaught_failure_aborts:
  assumes "ae_listdir E = Inr files" "f \<in> set files" "is_host_key f"
    and "ae_keygen E (path_join ''/etc/ssh'' f) = Raised e"
  shows "\<exists>e'. ssh_audit E file = Inl e'"
proof -
  have "\<exists>e'. py_mapM (host_key_result E) fs = Inl e'" if "f \<in> set fs" for fs
    using that
  proof (induction fs)
    case (Cons g gs)
    then show ?case
      using assms(4) by (cases "host_key_result E g") (auto simp: host_key_result_def)
  qed simp
  then have "\<exists>e'. py_mapM (host_key_result E) (filter is_host_key files) = Inl e'"
    using assms(2,3) by simp
  then show ?thesis
    using assms(1) by (auto simp: ssh_audit_def get_host_key_fingerprints_def)
qed

text \<open>
  C38: a changed key is flagged. A run over the file that an earlier run wrote says \<open>changed\<close> exactly
  when the list of host key entries is another one or the keys of some user are; the order of the
  users does not matter, that of the host keys does. The text of the file parses back to the document
  that is compared.
\<close>

theorem changed_is_exact:
  assumes "ssh_audit E file = Inr (Doc (JObj prev))"
    and "get_host_key_fingerprints E = Inr hk" "get_authorized_keys E = Inr ks"
    and "get_host_key_fingerprints E' = Inr hk'" "get_authorized_keys E' = Inr ks'" "ae_write E' = Inr ()"
  shows "loads (dumps_indent fr 0 (JObj prev)) = Inr (JObj prev) \<and>
    (\<exists>audit. ssh_audit E' (Doc (JObj prev)) = Inr (Doc (JObj audit)) \<and>
    dict_get audit ''changed'' = Some (JBool (hk' \<noteq> hk \<or> map_of ks' \<noteq> map_of ks)))"
proof -
  from assms(1) obtain before where prev: "compared before (inventory E hk ks) = Inr prev"
    using assms(2,3) by (auto simp: ssh_audit_def py_bind_eq_Inr)
  have stored: "get_or prev ''host_keys'' JNull = JArr hk" "get_or prev ''authorized_keys'' JNull = keys_json ks" "prev \<noteq> []"
    using prev by (auto simp: compared_def py_bind_eq_Inr inventory_def dict_set_def split: if_splits)
  have "differs prev (inventory E' hk' ks') ''host_keys'' \<longleftrightarrow> hk' \<noteq> hk"
    using json_eq_host_entries [OF host_entries [OF assms(2)] host_entries [OF assms(4)]]
    by (auto simp: differs_def stored inventory_def)
  moreover have "differs prev (inventory E' hk' ks') ''authorized_keys'' \<longleftrightarrow> map_of ks' \<noteq> map_of ks"
    using json_eq_keys [OF dict_authorized_keys [OF assms(3)] dict_authorized_keys [OF assms(5)]]
    by (auto simp: differs_def stored inventory_def)
  ultimately show ?thesis
    using inventory_text [OF assms(1), of fr] stored(3) assms(4-6)
    by (simp add: ssh_audit_def compared_def pd.lookup_store)
qed

subsection \<open>Worked examples\<close>

definition one_key_host :: "string \<Rightarrow> audit_env" where
  "one_key_host keys =
     \<lparr>ae_clock = 1000, ae_node = ''gw'', ae_listdir = Inr [''moduli'', ''ssh_host_rsa_key.pub''],
      ae_keygen = (\<lambda>_. Printed ''3072 SHA256:abc root (RSA)''), ae_users = [(''root'', ''/root'')],
      ae_isdir = (\<lambda>_. True), ae_file = (\<lambda>_. Some (Inr keys)), ae_write = Inr ()\<rparr>"

lemma one_key_host_keys:
  "get_host_key_fingerprints (one_key_host text) =
    Inr [JObj [(''file'', JStr ''ssh_host_rsa_key.pub''), (''fingerprint'', JStr ''SHA256:abc''), (''comment'', JStr ''root'')]]"
proof -
  have "filter is_host_key [''moduli'', ''ssh_host_rsa_key.pub''] = [''ssh_host_rsa_key.pub'']"
    by code_simp
  moreover have "words (strip ''3072 SHA256:abc root (RSA)'') = [''3072'', ''SHA256:abc'', ''root'', ''(RSA)'']"
    by code_simp
  ultimately show ?thesis
    by (simp add: get_host_key_fingerprints_def one_key_host_def host_key_result_def host_key_entry_def Let_def)
qed

lemma one_key_host_users:
  "get_authorized_keys (one_key_host content) = Inr (if key_lines content = [] then [] else [(''root'', key_lines content)])"
  by (simp add: get_authorized_keys_def one_key_host_def user_keys_def dict_set_def)

lemma one_key_host_writes: "ae_write (one_key_host content) = Inr ()"
  by (simp add: one_key_host_def)

lemma changed_is_exact_witness:
  "\<exists>prev audit. ssh_audit (one_key_host ''ssh-rsa A'') Missing = Inr (Doc (JObj prev)) \<and>
    ssh_audit (one_key_host ''ssh-rsa A\<newline>ssh-rsa B'') (Doc (JObj prev)) = Inr (Doc (JObj audit)) \<and>
    dict_get audit ''changed'' = Some (JBool True)"
proof -
  have keys: "key_lines ''ssh-rsa A'' = [''ssh-rsa A'']"
    "key_lines ''ssh-rsa A\<newline>ssh-rsa B'' = [''ssh-rsa A'', ''ssh-rsa B'']"
    by code_simp+
  obtain prev where first: "ssh_audit (one_key_host ''ssh-rsa A'') Missing = Inr (Doc (JObj prev))"
    by (simp add: ssh_audit_def one_key_host_keys one_key_host_users compared_def one_key_host_writes)
  let ?second = "one_key_host ''ssh-rsa A\<newline>ssh-rsa B''"
  obtain audit where "ssh_audit ?second (Doc (JObj prev)) = Inr (Doc (JObj audit))"
    and "dict_get audit ''changed'' = Some (JBool (map_of [(''root'', key_lines ''ssh-rsa A\<newline>ssh-rsa B'')]
      \<noteq> map_of [(''root'', key_lines ''ssh-rsa A'')]))"
    using changed_is_exact [OF first one_key_host_keys one_key_host_users one_key_host_keys one_key_host_users
        one_key_host_writes [of "''ssh-rsa A\<newline>ssh-rsa B''"]] by (auto simp: keys)
  moreover have "map_of [(''root'', [''ssh-rsa A'', ''ssh-rsa B''])] \<noteq> map_of [(''root'', [''ssh-rsa A''])]"
    by (auto dest: fun_cong [of _ _ "''root''"])
  ultimately show ?thesis using first unfolding keys by (intro exI conjI) simp_all
qed

end
