(* ===== verification/HealthUtils.thy ===== *)
theory HealthUtils
  imports Complex_Main Prelude
begin

section \<open>Readiness probes\<close>

text \<open>
  \<open>scripts/health_utils.py\<close>. The waiting loop is a partial function: a run that never ends is
  \<open>None\<close>. The clock and the network are parameters: the reading before the loop, the reading of each
  turn and the outcome of the connection attempt of each turn.
\<close>

subsection \<open>Waiting for a port\<close>

text \<open>\<open>Refused\<close> stands for the OSErrors, timeouts included; any other exception leaves the loop.\<close>

datatype attempt = Connected | Refused | Raises pyerr

record probe_env =
  started :: rat
  reading :: "nat \<Rightarrow> rat"
  connection :: "nat \<Rightarrow> attempt"

partial_function (option) wait_loop :: "probe_env \<Rightarrow> rat \<Rightarrow> rat \<Rightarrow> nat \<Rightarrow> bool py option" where
  "wait_loop E timeout interval n =
     (if reading E n - started E < timeout
      then case connection E n of
             Connected \<Rightarrow> Some (Inr True)
           | Raises e \<Rightarrow> Some (Inl e)
           | Refused \<Rightarrow> if interval < 0 then Some (Inl ValueError) else wait_loop E timeout interval (Suc n)
      else Some (Inr False))"

definition wait_for_port :: "probe_env \<Rightarrow> rat \<Rightarrow> rat \<Rightarrow> bool py option" where
  "wait_for_port E timeout interval = wait_loop E timeout interval 0"

subsection \<open>An HTTP probe\<close>

text \<open>\<open>urlopen\<close> gives the status of a reply below 400 and raises otherwise.\<close>

definition check_http_ready :: "(string \<Rightarrow> int \<Rightarrow> nat py) \<Rightarrow> string \<Rightarrow> nat \<Rightarrow> int \<Rightarrow> nat option" where
  "check_http_ready urlopen url expected_status timeout =
     (case urlopen url timeout of Inr status \<Rightarrow> Some status | Inl _ \<Rightarrow> None)"

lemma check_http_ready_ignores_expected:
  "check_http_ready urlopen url expected timeout = check_http_ready urlopen url expected' timeout"
  by (simp add: check_http_ready_def)

subsection \<open>Facts about the loop\<close>

text \<open>The turn that ends the loop, and the answer there.\<close>

definition in_time :: "probe_env \<Rightarrow> rat \<Rightarrow> nat \<Rightarrow> bool" where
  "in_time E timeout n = (reading E n - started E < timeout)"

lemma wait_loop_skip:
  "0 \<le> interval \<Longrightarrow> (\<And>m. k \<le> m \<Longrightarrow> m < k + d \<Longrightarrow> in_time E timeout m \<and> connection E m = Refused) \<Longrightarrow>
    wait_loop E timeout interval k = wait_loop E timeout interval (k + d)"
proof (induction d)
  case (Suc d)
  then have "wait_loop E timeout interval k = wait_loop E timeout interval (k + d)" by simp
  also have "\<dots> = wait_loop E timeout interval (Suc (k + d))"
    using Suc.prems(1) Suc.prems(2) [of "k + d"] by (subst wait_loop.simps) (simp add: in_time_def)
  finally show ?case by simp
qed simp

lemma wait_ends:
  assumes "0 \<le> interval" "\<And>m. m < n \<Longrightarrow> in_time E timeout m \<and> connection E m = Refused"
    and "\<not> (in_time E timeout n \<and> connection E n = Refused)"
  shows "wait_for_port E timeout interval =
    Some (if in_time E timeout n then (case connection E n of Raises e \<Rightarrow> Inl e | _ \<Rightarrow> Inr True) else Inr False)"
proof -
  have "wait_for_port E timeout interval = wait_loop E timeout interval n"
    using wait_loop_skip [of interval 0 n E timeout] assms(1,2) by (simp add: wait_for_port_def)
  then show ?thesis
    using assms(3) by (subst (asm) wait_loop.simps) (auto simp: in_time_def split: attempt.split)
qed

text \<open>Without a positive pause between the readings the loop may run for ever.\<close>

lemma frozen_clock_never_returns:
  assumes "\<And>n. in_time E timeout n" "\<And>n. connection E n = Refused"
  shows "wait_for_port E timeout 0 = None"
proof -
  have "E' = E \<and> t = timeout \<and> i = 0 \<longrightarrow> False" if "wait_loop E' t i n = Some y" for E' t i n y
  proof (rule wait_loop.raw_induct [OF _ that, where P = "\<lambda>E' t i n y. E' = E \<and> t = timeout \<and> i = 0 \<longrightarrow> False"])
    fix loop E' t n y and i :: rat
    assume IH: "\<And>E' t i n y. loop E' t i n = Some y \<Longrightarrow> E' = E \<and> t = timeout \<and> i = 0 \<longrightarrow> False"
      and step: "(if reading E' n - started E' < t
        then case connection E' n of Connected \<Rightarrow> Some (Inr True)
             | Raises e \<Rightarrow> Some (Inl e)
             | Refused \<Rightarrow> if i < 0 then Some (Inl ValueError) else loop E' t i (Suc n)
        else Some (Inr False)) = Some y"
    show "E' = E \<and> t = timeout \<and> i = 0 \<longrightarrow> False"
      using step IH [of E timeout 0 "Suc n" y] assms [of n] by (auto simp: in_time_def)
  qed
  from this [of E timeout 0 0] show ?thesis
    unfolding wait_for_port_def by (cases "wait_loop E timeout 0 0") auto
qed

text \<open>Turns are apart by the pause, so the deadline passes after finitely many of them.\<close>

lemma reading_grows:
  assumes "started E \<le> reading E 0" "\<And>n. reading E n + interval \<le> reading E (Suc n)"
  shows "started E + of_nat n * interval \<le> reading E n"
proof (induction n)
  case 0
  then show ?case using assms(1) by simp
next
  case (Suc n)
  then show ?case using assms(2) [of n] by (simp add: algebra_simps)
qed

lemma deadline_passes:
  assumes "0 < interval" "started E \<le> reading E 0" "\<And>n. reading E n + interval \<le> reading E (Suc n)"
  shows "\<not> in_time E timeout (nat \<lceil>timeout / interval\<rceil>)"
proof -
  let ?n = "nat \<lceil>timeout / interval\<rceil>"
  have "timeout / interval \<le> of_nat ?n" by (rule of_nat_ceiling)
  then have "timeout \<le> of_nat ?n * interval" using assms(1) by (simp add: pos_divide_le_eq)
  then show ?thesis
    using reading_grows [of E interval ?n] assms(2,3) by (simp add: in_time_def)
qed

text \<open>
  C37: waiting ends, with the right answer. When every turn takes at least the pause, which is
  positive, the wait returns after at most timeout divided by the pause, rounded up, failed attempts.
  It answers True exactly when an attempt made before the deadline connects, all earlier ones having
  been refused, and False exactly when every attempt before the deadline is refused.
\<close>

theorem wait_for_port_returns:
  assumes "0 < interval" "started E \<le> reading E 0" "\<And>n. reading E n + interval \<le> reading E (Suc n)"
  shows "\<exists>r n. wait_for_port E timeout interval = Some r \<and> n \<le> nat \<lceil>timeout / interval\<rceil> \<and>
    (\<forall>m < n. reading E m - started E < timeout \<and> connection E m = Refused) \<and>
    (r = Inr True \<longleftrightarrow> reading E n - started E < timeout \<and> connection E n = Connected) \<and>
    (r = Inr False \<longleftrightarrow> timeout \<le> reading E n - started E) \<and>
    (\<forall>e. r = Inl e \<longleftrightarrow> reading E n - started E < timeout \<and> connection E n = Raises e)"
proof -
  let ?stop = "\<lambda>n. \<not> (in_time E timeout n \<and> connection E n = Refused)"
  define n where "n = (LEAST n. ?stop n)"
  have last: "?stop (nat \<lceil>timeout / interval\<rceil>)"
    using deadline_passes [of interval E timeout] assms by simp
  have n: "?stop n" "n \<le> nat \<lceil>timeout / interval\<rceil>" and before: "\<And>m. m < n \<Longrightarrow> \<not> ?stop m"
    unfolding n_def
    using LeastI [of ?stop, OF last] Least_le [of ?stop, OF last] not_less_Least [of _ ?stop] by blast+
  have "wait_for_port E timeout interval =
      Some (if in_time E timeout n then (case connection E n of Raises e \<Rightarrow> Inl e | _ \<Rightarrow> Inr True) else Inr False)"
    using assms(1) before n(1) by (intro wait_ends) auto
  moreover define r where "r = (if in_time E timeout n then (case connection E n of Raises e \<Rightarrow> Inl e | _ \<Rightarrow> Inr True) else Inr False)"
  moreover have "(r = Inr True \<longleftrightarrow> in_time E timeout n \<and> connection E n = Connected) \<and>
      (r = Inr False \<longleftrightarrow> \<not> in_time E timeout n) \<and>
      (\<forall>e. r = Inl e \<longleftrightarrow> in_time E timeout n \<and> connection E n = Raises e)"
    using n(1) by (cases "connection E n") (auto simp: r_def)
  ultimately show ?thesis
    using n(2) before by (intro exI [of _ r] exI [of _ n]) (simp add: in_time_def not_less [symmetric])
qed

subsection \<open>Worked examples\<close>

text \<open>A service that accepts the third attempt, probed once per second.\<close>

definition slow_service :: probe_env where
  "slow_service =
     \<lparr>started = 100, reading = (\<lambda>n. 100 + of_nat n), connection = (\<lambda>n. if n < 2 then Refused else Connected)\<rparr>"

lemma wait_for_port_returns_witness: "wait_for_port slow_service 30 1 = Some (Inr True)"
proof -
  have "\<exists>r n. wait_for_port slow_service 30 1 = Some r \<and> n \<le> nat \<lceil>30 / 1 :: rat\<rceil> \<and>
    (\<forall>m < n. reading slow_service m - started slow_service < 30 \<and> connection slow_service m = Refused) \<and>
    (r = Inr True \<longleftrightarrow> reading slow_service n - started slow_service < 30 \<and> connection slow_service n = Connected) \<and>
    (r = Inr False \<longleftrightarrow> 30 \<le> reading slow_service n - started slow_service) \<and>
    (\<forall>e. r = Inl e \<longleftrightarrow> reading slow_service n - started slow_service < 30 \<and> connection slow_service n = Raises e)"
    by (rule wait_for_port_returns) (simp_all add: slow_service_def)
  then obtain r n where r: "wait_for_port slow_service 30 1 = Some r"
    and before: "\<forall>m < n. connection slow_service m = Refused"
    and false: "r = Inr False \<longleftrightarrow> 30 \<le> reading slow_service n - started slow_service"
    and raises: "\<forall>e. r = Inl e \<longleftrightarrow> reading slow_service n - started slow_service < 30 \<and> connection slow_service n = Raises e"
    by blast
  have "\<not> 2 < n" using before by (auto simp: slow_service_def)
  then have "reading slow_service n - started slow_service < 30"
    by (simp add: slow_service_def)
  then have "r \<noteq> Inr False" "r \<noteq> Inl e" for e
    using false raises by (simp_all add: slow_service_def)
  with r show ?thesis by (cases r) auto
qed

end
