(* ===== verification/Spec2Isabelle.thy ===== *)
theory Spec2Isabelle
  imports Prelude Json JsonParse Base64 Http Identity Posture PostureCheck Policy AuditLog Validate RiskScore DemoApp SharedStore
    IpAddress WireGuard PeerSession Revoker MockOidc Dashboard AdminPage Bridge SshAudit HealthUtils
begin

text \<open>
  A model of the services of a zero-trust access lab, and the theorems that make them correct. All
  file names are relative to \<open>src/\<close>.

  The program. Clients reach a protected application through a gateway. On each client the posture
  agent (\<open>scripts/posture_check.py\<close>) checks disk encryption, patch age and running processes and
  writes a signed record into a shared JSON store. For every request the proxy asks the bridge
  (\<open>gateway/authz-bridge/app.py\<close>, \<open>/validate\<close>), which asks oauth2-proxy who the caller is, reads the
  posture record of the source address, posts both to OPA, which evaluates
  \<open>gateway/opa/policy.rego\<close>, writes an audit line and answers 200, 401 or 403 with headers for the
  application (\<open>app/app.py\<close>), which filters its data by the clearance header. The bridge also scores
  risk, provisions WireGuard peers and shows a dashboard. A daemon (\<open>scripts/posture_revoker.py\<close>)
  removes the peer and ends the sessions of a device that turns unhealthy. Around them are a mock
  identity provider (\<open>gateway/mock-oidc/app.py\<close>), an audit of SSH keys (\<open>scripts/ssh_audit.py\<close>) and
  readiness probes (\<open>scripts/health_utils.py\<close>).

  The library under the components.
  \<^item> \<open>Prelude\<close>: Python's exceptions as the sum \<open>'a py\<close>, strings, decimals, dictionaries in insertion
    order (locale \<open>dictionary\<close>, interpreted on them as \<open>pd\<close>).
  \<^item> \<open>Json\<close>, \<open>JsonParse\<close>: JSON values with Python's operations, \<open>json.dumps\<close>, and \<open>json.loads\<close> as
    CPython's scanner; what is printed, on one line or indented, is read back (\<open>loads_dumps\<close>,
    \<open>loads_dumps_indent\<close>), so that a file may be taken as its document.
  \<^item> \<open>Base64\<close>: both alphabets with the lenient decoder (locale \<open>codec\<close>, composed for a token's segment).
  \<^item> \<open>IpAddress\<close>: \<open>ipaddress\<close> on 32 and 128 bit words; \<open>dotted\<close> is its codec.
  \<^item> \<open>Http\<close>: requests, responses, replies of other services, JSON files, outcomes of a subprocess.

  The components, and what their theorems show.
  \<^item> \<open>Identity\<close> (\<open>_decode_id_token\<close>, \<open>check_identity\<close>): claims survive the token encoding; without a 202
    of oauth2-proxy nobody is authenticated, of the second factor or an administrator.
  \<^item> \<open>Posture\<close> (\<open>_verify_posture_sig\<close>, \<open>get_posture\<close>): healthy exactly for an accepted record,
    which \<open>good_signature\<close> and \<open>recent\<close> define apart from the code; the freshness test has no lower bound.
    Locale \<open>signature_scheme\<close>.
  \<^item> \<open>PostureCheck\<close> (\<open>posture_check.py\<close>): a command that fails ends in an unhealthy record; the bridge
    reads the verdict that the agent signed, also through the text of the file (\<open>agent_writes\<close>), and rejects
    a replaced one.
  \<^item> \<open>SharedStore\<close>: runs of the agents interleaved at their reads, truncations and dumps of the store
    (\<open>agent_step\<close>, \<open>interleaved\<close>); no schedule makes a device healthy that was not checked, but a
    verdict can be lost.
  \<^item> \<open>Policy\<close> (\<open>policy.rego\<close>): the rules with undefined references and conflicts; the decision equals a
    closed form, ignores the classification, and expires. Locale \<open>policy_decision_point\<close>, as \<open>rego\<close>.
  \<^item> \<open>AuditLog\<close> (\<open>_write_audit_log\<close>): every line parses back to its event. Locale \<open>append_log\<close>,
    interpreted on the audit log and on the log of the revoker.
  \<^item> \<open>Validate\<close> (\<open>validate\<close>, \<open>_set_security_headers\<close>): fails closed; 200 exactly under the conditions of
    the policy; what a decision leaves in the audit log.
  \<^item> \<open>RiskScore\<close> (\<open>_calculate_risk_score\<close>, \<open>risk_score\<close>): the score is the capped sum of its factors.
  \<^item> \<open>DemoPage\<close> (\<open>PAGE_TEMPLATE\<close>): Python's \<open>str.format\<close>, which never fails on the template.
  \<^item> \<open>DemoApp\<close> (\<open>app.py\<close>): longest-prefix classification, no read up, noninterference of what is above
    the clearance, of which only 403 against 404 can be seen. Locale \<open>clearance_monitor\<close>, as \<open>objects\<close>.
  \<^item> \<open>WireGuard\<close> (the \<open>/api/peers\<close> endpoints): the first free address, commands for administrators only
    (\<open>administrator\<close>, said without the code's own test), removal by key, the parsing of \<open>wg show dump\<close>.
  \<^item> \<open>PeerSession\<close> (the same endpoints, in sequences of calls): they refine a set of keys, \<open>peer_spec\<close>,
    whatever order the calls arrive in. Locale \<open>simulation\<close>, interpreted as \<open>peers\<close>.
  \<^item> \<open>Dashboard\<close> (\<open>admin_dashboard\<close>, \<open>healthz\<close>): the numbers of the page, and its trust in unverified records.
  \<^item> \<open>AdminPage\<close> (\<open>ADMIN_TEMPLATE\<close>): the page rendered from the template; stored text adds no markup.
  \<^item> \<open>Bridge\<close> (the routes and the hook of \<open>authz-bridge/app.py\<close>): what any sequence of requests to any route
    leaves in the audit log and in the commands to \<open>wg\<close>, and what a change of the peers leaves there.
  \<^item> \<open>Revoker\<close> (\<open>posture_revoker.py\<close>): the daemon as a step relation (\<open>reachable\<close>); one revocation per
    degradation, none without one, and what replaying the log and a malformed line do.
  \<^item> \<open>MockOidc\<close> (\<open>mock-oidc/app.py\<close>): tokens resolve to their user. Locale \<open>user_directory\<close>.
  \<^item> \<open>SshAudit\<close> (\<open>ssh_audit.py\<close>): the change flag is exact.
  \<^item> \<open>HealthUtils\<close> (\<open>health_utils.py\<close>): the wait ends, with the right answer.
  The theorems below compose the agent, the bridge, the policy and the application, in both directions
  (a failing device is locked out, a passing one comes in), and provisioning with revocation.

  State and effects. Files are values passed in and returned: a JSON file is missing, unreadable,
  malformed or a document, a log is its text. What a handler reads from its surroundings is a record
  (\<open>settings\<close> for the environment variables, \<open>world\<close> for the files, clocks and services that a request
  meets, \<open>agent\<close>, \<open>wg_tool\<close>, \<open>revoker_env\<close>, \<open>audit_env\<close>, \<open>probe_env\<close>). Services and tools that are not
  part of the repository are functions in these records: oauth2-proxy, OPA's HTTP interface,
  osquery, \<open>wg\<close>, \<open>ssh-keygen\<close>, the identity provider's API, HMAC-SHA256 and the text of a float. The
  hypothesis on one of them that most theorems use is \<open>serves_policy\<close>: OPA answers with the value of the
  modelled policy. Its witnesses instantiate it with such a server. Three more state documented behaviour
  where a theorem needs it: \<open>explains\<close> (OPA gives a reason that fits a header), \<open>wg_table\<close> (what \<open>wg set\<close>
  and \<open>wg show dump\<close> do with keys) and \<open>escapes\<close> (\<open>markupsafe.escape\<close> leaves no markup); their witnesses
  use a table kept as a list and the escaping itself. Of HMAC-SHA256 the theorems about signatures assume
  that a digest is not empty, and the one about edited records that it tells two given texts apart.

  Bounds. The JSON scanner recurses on fuel; \<open>loads\<close> gives \<open>2 * length + 2\<close>, and more
  fuel never changes its answer (\<open>loads_fuel\<close>). Text is Latin-1, and an escape
  beyond it is the error \<open>Unmodelled\<close>. Float arithmetic is exact on rationals, with the infinities
  and NaN apart. The loop of \<open>wait_for_port\<close> may run for ever when the clock does not advance; the
  theorem assumes that a turn takes at least the pause.

  Not modelled. Log messages, the answers of Flask to methods and paths without a route beyond their
  status, template features the two templates do not use, recursion limits, concurrent writers of files other than the posture store, and the bytes of
  documents that are not ASCII. The proxy, identity provider and container configuration are
  third-party configuration, and the shell scripts are glue around system commands.
\<close>

section \<open>Properties across components\<close>

subsection \<open>From the agent to the decision\<close>

lemma sealed_posture:
  assumes "get_posture P cfg (Doc (JObj store)) now ip = Inr d" "dict_get store ip = Some (seal P' secret e)"
  shows "d = e \<or> (\<exists>why. d = unhealthy why)"
  using get_posture_cases [OF assms(1)] assms(2) by (auto simp: accepted_record_alt)

text \<open>
  C4: an unhealthy device is locked out. Once the agent of a machine has written a failed verdict,
  no request from its address gets status 200, at any time, with any session and any secret, as long
  as OPA serves the policy and the store is the file the agent wrote.
\<close>

theorem unhealthy_device_locked_out:
  assumes "agent_main P' A file = Inr (w_store W)"
    and "check_disk_encryption (disk_query A) = Inr disk_ok"
    and "check_blocklisted_processes (process_query A) = Inr process_ok"
    and "\<not> (disk_ok \<and> check_patch_age (patch_stat A) (stat_time A) \<and> process_ok)"
    and "source_ip req = my_ip A" "serves_policy cfg W now"
    and "fst (validate P cfg W req l) = Inr r"
  shows "resp_status r = 401 \<or> resp_status r = 403"
proof -
  let ?e = "posture_entry disk_ok (check_patch_age (patch_stat A) (stat_time A)) process_ok (check_time A)"
  obtain l' where "validate P cfg W req l = (Inr r, l')"
    using assms(7) by (cases "validate P cfg W req l") auto
  then show ?thesis
  proof (cases rule: validate_cases)
    case (1 identity posture allowed why)
    from assms(1) obtain store where store: "w_store W = Doc (JObj store)"
      "dict_get store (my_ip A) = Some (seal P' (agent_secret A) ?e)"
      using assms(2,3) by (cases rule: agent_main_writes) (auto simp: pd.lookup_store)
    have "get_or posture ''posture'' (JStr ''unhealthy'') = JStr ''unhealthy''"
      using sealed_posture [OF 1(2) [unfolded store(1) assms(5)] store(2)] assms(4) by auto
    then have "\<not> allow now (opa_input (original_uri req) (source_ip req) identity posture)"
      using rego.permitted_request by fastforce
    then have "\<not> truthy allowed"
      using served_decision [OF assms(6) 1(3)] by blast
    then show ?thesis
      using decision_status [OF 1(4)] by auto
  qed
qed

text \<open>
  C5: access rests on a recent check. Whatever runs of agents write the store, interleaved in any way,
  and however often, the bridge lets a request through only if a run for the source address passed all
  three checks no longer ago than the limit, or the store held an accepted record before the runs. So a
  device that stops passing its checks is locked out at the latest when the limit has passed.
\<close>

theorem access_needs_recent_check:
  assumes "interleaved P fleet start s" "w_store W = sh_file s" "serves_policy cfg W now"
    and "fst (validate P cfg W req l) = Inr r" "resp_status r = 200"
  shows "(\<exists>A \<in> fleet. my_ip A = source_ip req \<and>
      check_disk_encryption (disk_query A) = Inr True \<and> check_patch_age (patch_stat A) (stat_time A) \<and>
      check_blocklisted_processes (process_query A) = Inr True \<and>
      w_now W \<le> of_int (trunc_rat (check_time A) + max_posture_age cfg)) \<or>
    (\<exists>d. accepted_record P cfg start (w_now W) (source_ip req) d)"
proof -
  obtain d where acc: "accepted_record P cfg (sh_file s) (w_now W) (source_ip req) d"
    and healthy: "get_or d ''posture'' JNull = JStr ''healthy''"
    using granted_record [OF assms(4,5,3)] assms(2) by auto
  have fresh: "w_now W \<le> of_int (trunc_rat t + max_posture_age cfg)" if "d = posture_entry a b c t" for a b c t
    using acc that by (auto simp: accepted_record_alt not_less algebra_simps)
  from checked_before [OF assms(1) acc healthy] show ?thesis
    using fresh by blast
qed

text \<open>OPA answers the request for the reason with text that fits into a header.\<close>

definition explains :: "settings \<Rightarrow> world \<Rightarrow> json \<Rightarrow> bool" where
  "explains cfg W inp =
     (case opa_post cfg W ''/reason'' inp of
        None \<Rightarrow> False
      | Some body \<Rightarrow>
          (case opa_result body (JStr ''unknown'') of Inr (JStr s) \<Rightarrow> \<not> line_breaks s | _ \<Rightarrow> False))"

text \<open>A caller and a path that pass with a healthy record \<open>d\<close>.\<close>

definition admissible :: "platform \<Rightarrow> settings \<Rightarrow> world \<Rightarrow> request \<Rightarrow> rat \<Rightarrow> jdict \<Rightarrow> bool" where
  "admissible P cfg W req now d \<longleftrightarrow>
     serves_policy cfg W now \<and>
     (\<exists>email t groups adm.
        check_identity P (w_oauth W) (req_headers req) = Inr (identity_of email True t groups adm) \<and>
        session_ok now t (original_uri req) \<and> (admin_uri (original_uri req) \<longrightarrow> adm) \<and>
        (let inp = opa_input (original_uri req) (source_ip req) (identity_of email True t groups adm) d in
         finite_json inp \<and> explains cfg W inp))"

lemma admissible_passes:
  assumes "admissible P cfg W req now d" "get_posture P cfg (w_store W) (w_now W) (source_ip req) = Inr d"
    and "get_or d ''posture'' (JStr ''unhealthy'') = JStr ''healthy''"
  shows "\<exists>r. fst (validate P cfg W req l) = Inr r \<and> resp_status r = 200"
proof -
  from assms(1) obtain email t groups adm where opa: "serves_policy cfg W now"
    and who: "check_identity P (w_oauth W) (req_headers req) = Inr (identity_of email True t groups adm)"
    and ok: "session_ok now t (original_uri req)" "admin_uri (original_uri req) \<longrightarrow> adm"
    and inp: "finite_json (opa_input (original_uri req) (source_ip req) (identity_of email True t groups adm) d)"
      "explains cfg W (opa_input (original_uri req) (source_ip req) (identity_of email True t groups adm) d)"
    unfolding admissible_def Let_def by blast
  from inp(2) obtain rb s where "opa_post cfg W ''/reason''
      (opa_input (original_uri req) (source_ip req) (identity_of email True t groups adm) d) = Some rb"
    "opa_result rb (JStr ''unknown'') = Inr (JStr s)" "\<not> line_breaks s"
    by (auto simp: explains_def split: option.splits sum.splits json.splits)
  moreover have "may_pass now (original_uri req) True t adm d"
    using ok assms(3) by (simp add: may_pass_def)
  ultimately show ?thesis
    using validate_decision [OF opa who assms(2) inp(1), of rb s l] by auto
qed

text \<open>
  C6: a device that passes gets in. When the store is missing, malformed or an object, a run of the agent
  whose three checks pass ends with a store on which every request from the machine's address is let
  through, with status 200, until the record is older than the limit: when agent and bridge have the same
  secret and the keyed digest is not empty, the caller has verified a second factor in a session young
  enough for the path and is an administrator on an admin path, and OPA serves the policy and gives a
  reason. So a device that was locked out comes back with its next good run. A store that cannot be read,
  or is a document of another shape, ends the run with an exception instead.
\<close>

theorem passing_device_admitted:
  assumes "check_disk_encryption (disk_query A) = Inr True" "check_patch_age (patch_stat A) (stat_time A)"
    and "check_blocklisted_processes (process_query A) = Inr True"
    and "f = Missing \<or> f = BadJson \<or> f = Doc (JObj store)"
    and "posture_signing_secret cfg = agent_secret A" "\<forall>e. posture_digest P (agent_secret A) e \<noteq> []"
  shows "\<exists>f'. agent_main P A f = Inr f' \<and>
    (\<forall>W req now l.
       w_store W = f' \<and> source_ip req = my_ip A \<and>
       w_now W - of_int (trunc_rat (check_time A)) \<le> of_int (max_posture_age cfg) \<and>
       admissible P cfg W req now (posture_entry True True True (check_time A)) \<longrightarrow>
       (\<exists>r. fst (validate P cfg W req l) = Inr r \<and> resp_status r = 200))"
proof -
  obtain store' where run: "agent_main P A f = Inr (Doc (JObj store'))"
    using agent_main_runs [OF assms(1,3,4)] by blast
  have "\<exists>r. fst (validate P cfg W req l) = Inr r \<and> resp_status r = 200"
    if W: "w_store W = Doc (JObj store')" "source_ip req = my_ip A"
        "w_now W - of_int (trunc_rat (check_time A)) \<le> of_int (max_posture_age cfg)"
      and ok: "admissible P cfg W req now (posture_entry True True True (check_time A))" for W req now l
    using written_record_read [OF run assms(1,3,5,6) W(3)] assms(2)
    by (intro admissible_passes [OF ok]) (simp_all add: W(1,2))
  with run show ?thesis by blast
qed

subsection \<open>From the decision to the application\<close>

text \<open>
  C11: what anyone sees through the gateway. When the bridge lets a request through and the proxy
  hands its clearance header to the application, the data listing holds the public and the internal
  object and never the confidential and the restricted one, for administrators too.
\<close>

theorem gateway_listing:
  assumes "fst (validate P cfg W req l) = Inr r" "resp_status r = 200"
    and "header hs ''X-ZTLab-Clearance'' = resp_header r ''X-ZTLab-Clearance''"
  shows "listed_ids (api_data (data_objects dash) hs) = {''public-announcement'', ''api-config''}"
proof -
  obtain l' where "validate P cfg W req l = (Inr r, l')"
    using assms(1) by (cases "validate P cfg W req l") auto
  then show ?thesis
  proof (cases rule: validate_cases)
    case (1 identity posture allowed why)
    have "header hs ''X-ZTLab-Clearance'' = Some ''clearance=user''"
      using clearance_header [OF 1(1,4) assms(2)] assms(3) by simp
    then have "get_caller_clearance hs = get_caller_clearance user_headers"
      by (simp add: get_caller_clearance_def header_or_def user_headers_def)
    then show ?thesis
      using user_listing [of dash] by (simp add: listed_ids_api_data visible_objects_view)
  qed
qed

subsection \<open>From provisioning to revocation\<close>

text \<open>
  C29: what the bridge provisions, the revoker can take back. The address that a new peer gets is a
  dotted quad with a host network; when \<open>wg\<close> lists the peers as the bridge assigned them, revoking
  the device with this address removes exactly the peers with this address, the new one among them
  when it is listed.
\<close>

theorem provisioned_peer_revocable:
  assumes "add_peer P cfg W G req l = (m, l', [SetPeer key cidr])" "proper_subnet cfg"
  shows "\<exists>w. cidr = str_ipv4 w @ ''/32'' \<and>
    (\<forall>E st ps u entry. wg_runs E \<and> get_wireguard_peers (re_show E (done_so_far st)) = Inr (host_peers ps) \<longrightarrow>
       removed_keys (snd (revoke_device E (JStr (str_ipv4 w)) u entry st)) =
         removed_keys st @ map fst (filter (\<lambda>p. snd p = w) ps))"
proof -
  from assms(1) obtain p ip where target: "target_address cfg (w_store W) (np_fixed p) = Inr (Target ip)"
    and run: "provision P W G p ip l = (m, l', [SetPeer key cidr])"
    by (rule add_peer_commands) simp_all
  obtain w where "ip = str_ipv4 w" using target_dotted [OF assms(2) target] by blast
  moreover have "cidr = ip @ ''/32''" using provision_cases [OF run] by auto
  ultimately show ?thesis using revocation_hits_its_device by blast
qed

subsection \<open>Worked examples\<close>

definition failing_agent :: agent where
  "failing_agent = sample_agent\<lparr>patch_stat := TimeoutExpired, check_time := 1000\<rparr>"

definition failing_store :: json_file where
  "failing_store = Doc (JObj (dict_set [] ''10.8.0.2'' (seal sample_platform ''key'' (posture_entry True False True 1000))))"

lemma failing_run: "agent_main sample_platform failing_agent Missing = Inr failing_store"
  by (simp add: agent_main_def failing_agent_def failing_store_def sample_agent_def sample_checks my_ip_def
      check_patch_age_def)

text \<open>The sample world with another store, and its decision.\<close>

definition store_world :: "json_file \<Rightarrow> world" where
  "store_world f = sample_world\<lparr>w_store := f\<rparr>"

lemma store_world_simps:
  "w_store (store_world f) = f" "w_oauth (store_world f) = w_oauth sample_world"
  "opa_post cfg (store_world f) = opa_post cfg sample_world" "w_now (store_world f) = 1060"
  by (simp_all add: store_world_def sample_world_def opa_post_def fun_eq_iff)

lemma store_served: "serves_policy open_settings (store_world f) 1060"
  using sample_served by (simp add: serves_policy_def store_world_def)

lemma entry_posture:
  assumes "1060 - of_int (trunc_rat t) \<le> (300 :: rat)"
  shows "get_posture sample_platform open_settings (Doc (JObj (dict_set [] ''10.8.0.2''
    (seal sample_platform ''key'' (posture_entry x y z t))))) 1060 ''10.8.0.2'' = Inr (posture_entry x y z t)"
  using assms by (intro get_posture_accepted)
    (simp add: accepted_record_alt open_settings_def sample_settings_def verify_posture_sig_def dict_set_def not_less)

lemma store_decision:
  assumes "get_posture sample_platform open_settings f 1060 ''10.8.0.2'' = Inr (posture_entry x y z t)"
  shows "\<exists>r. fst (validate sample_platform open_settings (store_world f) (sample_request ''/public'') []) = Inr r \<and>
    resp_status r = (if x \<and> y \<and> z then 200 else 403)"
proof -
  let ?inp = "opa_input ''/public'' ''10.8.0.2''
    (identity_of (JStr ''a@b.c'') True 1000 (JArr [JStr ''admins'']) True) (posture_entry x y z t)"
  have fin: "finite_json ?inp" by (simp add: opa_input_def)
  have "may_pass 1060 ''/public'' True 1000 True (posture_entry x y z t) \<longleftrightarrow> x \<and> y \<and> z"
    by (simp add: may_pass_def session_ok_def)
  then show ?thesis
    using validate_decision [OF store_served, of sample_platform f "sample_request ''/public''" "JStr ''a@b.c''" True 1000
        "JArr [JStr ''admins'']" True "posture_entry x y z t" _ "''r''" "[]"]
      sample_identity assms sample_reason [OF fin] fin
    by (auto simp: store_world_simps opa_result_def policy_server_result line_breaks_def)
qed

lemma unhealthy_device_locked_out_witness:
  "\<exists>r. fst (validate sample_platform open_settings (store_world failing_store) (sample_request ''/public'') []) = Inr r \<and>
    (resp_status r = 401 \<or> resp_status r = 403)"
proof -
  have "get_posture sample_platform open_settings failing_store 1060 ''10.8.0.2'' = Inr (posture_entry True False True 1000)"
    unfolding failing_store_def by (rule entry_posture) (simp_all add: trunc_rat_def)
  then obtain r where r: "fst (validate sample_platform open_settings (store_world failing_store) (sample_request ''/public'') []) = Inr r"
    using store_decision by blast
  have "agent_main sample_platform failing_agent Missing = Inr (w_store (store_world failing_store))"
    by (simp add: failing_run store_world_simps)
  then have "resp_status r = 401 \<or> resp_status r = 403"
    by (rule unhealthy_device_locked_out [OF _ _ _ _ _ store_served r, of _ _ _ True True])
      (simp_all add: failing_agent_def sample_agent_def sample_checks check_patch_age_def my_ip_def)
  with r show ?thesis by blast
qed

text \<open>A run at 1000 that passes, and a request 60 seconds later.\<close>

lemma access_needs_recent_check_witness:
  "\<exists>s r. interleaved sample_platform {sample_agent\<lparr>check_time := 1000\<rparr>} Missing s \<and>
    fst (validate sample_platform open_settings (store_world (sh_file s)) (sample_request ''/public'') []) = Inr r \<and>
    resp_status r = 200 \<and> (1060 :: rat) \<le> of_int (trunc_rat 1000 + max_posture_age open_settings)"
proof -
  let ?A = "sample_agent\<lparr>check_time := 1000\<rparr>"
  let ?doc = "JObj (dict_set [] ''10.8.0.2'' (seal sample_platform ''key'' (posture_entry True True True 1000)))"
  have "check_patch_age (Completed ''1000'') 2000" by code_simp
  then have "agent_main sample_platform ?A Missing = Inr (Doc ?doc)"
    by (simp add: agent_main_def sample_agent_def sample_checks my_ip_def)
  then have run: "interleaved sample_platform {?A} Missing (quiet (Doc ?doc))"
    by (rule solo_run) simp
  have "get_posture sample_platform open_settings (Doc ?doc) 1060 ''10.8.0.2'' = Inr (posture_entry True True True 1000)"
    by (rule entry_posture) (simp_all add: trunc_rat_def)
  from store_decision [OF this] obtain r where
    r: "fst (validate sample_platform open_settings (store_world (Doc ?doc)) (sample_request ''/public'') []) = Inr r"
      "resp_status r = 200"
    by auto
  have "(1060 :: rat) \<le> of_int (trunc_rat 1000 + max_posture_age open_settings)"
    using access_needs_recent_check [OF run _ store_served r]
    by (auto simp: store_world_simps sample_agent_def accepted_record_alt)
  with run r show ?thesis by (intro exI [of _ "quiet (Doc ?doc)"] exI [of _ r]) simp
qed

text \<open>
  The machine that was locked out, whose record is replaced by a run at 1000, and a request 60 seconds
  later. The digest of the sample platform holds the message, which is not empty.
\<close>

definition keyed_settings :: settings where
  "keyed_settings = open_settings\<lparr>posture_signing_secret := ''key''\<rparr>"

lemma keyed_opa:
  "serves_policy keyed_settings W now \<longleftrightarrow> serves_policy open_settings W now"
  "explains keyed_settings W inp \<longleftrightarrow> explains open_settings W inp"
  by (simp_all add: serves_policy_def explains_def opa_post_def opa_headers_def keyed_settings_def)

lemma passing_device_admitted_witness:
  "\<exists>f' r. agent_main sample_platform (sample_agent\<lparr>check_time := 1000\<rparr>) failing_store = Inr f' \<and>
    fst (validate sample_platform keyed_settings (store_world f') (sample_request ''/public'') []) = Inr r \<and>
    resp_status r = 200"
proof -
  let ?A = "sample_agent\<lparr>check_time := 1000\<rparr>" and ?e = "posture_entry True True True 1000"
  let ?who = "identity_of (JStr ''a@b.c'') True 1000 (JArr [JStr ''admins'']) True"
  have old: "check_patch_age (Completed ''1000'') 2000" by code_simp
  have digest: "\<forall>e. posture_digest sample_platform ''key'' e \<noteq> []"
    by (simp add: posture_digest_def sample_platform_def)
  have fin: "finite_json (opa_input ''/public'' ''10.8.0.2'' ?who ?e)" by (simp add: opa_input_def)
  have "admissible sample_platform keyed_settings (store_world f') (sample_request ''/public'') 1060 ?e" for f'
    unfolding admissible_def keyed_opa
    using store_served sample_identity fin sample_reason [OF fin]
    by (intro conjI exI [of _ "JStr ''a@b.c''"] exI [of _ 1000] exI [of _ "JArr [JStr ''admins'']"] exI [of _ True])
      (simp_all add: store_world_simps session_ok_def explains_def opa_result_def policy_server_result line_breaks_def Let_def)
  then have met: "w_store (store_world f') = f' \<and> source_ip (sample_request ''/public'') = my_ip ?A \<and>
      w_now (store_world f') - of_int (trunc_rat (check_time ?A)) \<le> of_int (max_posture_age keyed_settings) \<and>
      admissible sample_platform keyed_settings (store_world f') (sample_request ''/public'') 1060
        (posture_entry True True True (check_time ?A))" for f'
    by (simp add: store_world_simps my_ip_def sample_agent_def trunc_rat_def keyed_settings_def open_settings_def
        sample_settings_def)
  have checks: "check_disk_encryption (disk_query ?A) = Inr True" "check_patch_age (patch_stat ?A) (stat_time ?A)"
    "check_blocklisted_processes (process_query ?A) = Inr True" "posture_signing_secret keyed_settings = agent_secret ?A"
    "\<forall>e. posture_digest sample_platform (agent_secret ?A) e \<noteq> []"
    using old digest by (simp_all add: sample_agent_def sample_checks keyed_settings_def)
  show ?thesis
    using passing_device_admitted [OF checks(1-3) disjI2 [OF disjI2 [OF failing_store_def]] checks(4,5)] met by blast
qed

lemma gateway_listing_witness:
  "\<exists>r. fst (validate sample_platform open_settings sample_world (sample_request ''/sensitive'') []) = Inr r \<and>
    listed_ids (api_data (data_objects ''-'') (resp_headers r)) = {''public-announcement'', ''api-config''}"
proof -
  obtain r where r: "fst (validate sample_platform open_settings sample_world (sample_request ''/sensitive'') []) = Inr r"
    "resp_status r = 200"
    using sample_decision by blast
  have "header (resp_headers r) ''X-ZTLab-Clearance'' = resp_header r ''X-ZTLab-Clearance''"
    by (simp add: resp_header_def)
  with gateway_listing [OF r] r(1) show ?thesis by blast
qed

lemma provisioned_peer_revocable_witness:
  "\<exists>w. candidate sample_settings 10 @ ''/32'' = str_ipv4 w @ ''/32'' \<and>
    removed_keys (snd (revoke_device tunnel_env (JStr (str_ipv4 w)) JNull [] initial)) =
      removed_keys initial @ map fst (filter (\<lambda>p. snd p = w) [(''A'', 7), (''B'', 8)])"
proof -
  obtain m l' where added: "add_peer sample_platform sample_settings empty_world sample_tool (peer_request (CHR ''B'')) [] =
      (m, l', [SetPeer (sample_key (CHR ''B'')) (candidate sample_settings 10 @ ''/32'')])"
    using peer_added [OF disjI1 [OF refl]] by (elim exE)
  have "wg_runs tunnel_env" using quiet(2) by (simp add: wg_runs_def tunnel_env_def)
  with provisioned_peer_revocable [OF added sample_subnet] tunnel_peers show ?thesis by blast
qed

end
